theory Spec2Isabelle
  imports Main "HOL-Library.Word"
begin

section \<open>The Minter Marketplace contract (MarketplaceMinter.sol)\<close>

text \<open>
  A shallow embedding of the Solidity contract \<open>Minter_Marketplace\<close>. The contract is
  compiled with Solidity 0.8, so every arithmetic operation is checked (an overflow or an
  underflow reverts with Panic 0x11), an array read out of bounds reverts with Panic 0x32,
  and a reverted call leaves the storage as it was. A call of the contract is modelled as
  a function from the storage to either an error (the revert) or the new storage together
  with the list of externally visible actions, in program order.
\<close>

subsection \<open>Data\<close>

type_synonym address = nat
  \<comment> \<open>an account address; \<open>address(0)\<close> is \<open>0\<close>\<close>

type_synonym uint = nat
  \<comment> \<open>\<open>uint256\<close>: a natural number, with the checks of Solidity 0.8 written out below\<close>

record offer =
  contractAddress :: address
  nodeAddress :: address
  productIndex :: uint
  tokenRangeStart :: "uint list"
  tokenRangeEnd :: "uint list"
  tokensAllowed :: "uint list"
  rangePrice :: "uint list"
  rangeName :: "string list"

text \<open>
  The storage of the contract. \<open>contractToOffer_map\<close> is the mapping
  \<open>_contractToOffer\<close>: a Solidity mapping is total and reads \<open>0\<close> at a key never written.
  \<open>balance\<close> is the ether held by the contract's account.
\<close>

record marketplace =
  contractToOffer_map :: "address \<Rightarrow> uint"
  offerCatalog :: "offer list"
  treasury :: address
  openSales :: uint
  treasuryFee :: "16 word"
  nodeFee :: "16 word"
  balance :: uint

datatype error =
    NotAMinter                \<comment> \<open>"This Marketplace isn't a Minter!"\<close>
  | NotTheCreator             \<comment> \<open>"Sender isn't the creator!"\<close>
  | OfferAlreadyExists        \<comment> \<open>"An offer already exists!"\<close>
  | RangeLengthMismatch       \<comment> \<open>"Offer's ranges should have the same length!"\<close>
  | NoMintableSupply          \<comment> \<open>"Cannot mint more tokens from this Product!"\<close>
  | InvalidRangeBounds        \<comment> \<open>"Range's starting token has to be less than the range's ending token!"\<close>
  | RangeExpansionNotAllowed  \<comment> \<open>"New limits must be within the previous limits!"\<close>
  | InvalidOffer              \<comment> \<open>"Invalid Collection Selected!"\<close>
  | InvalidRange              \<comment> \<open>"Invalid range!"\<close>
  | RangeSoldOut              \<comment> \<open>"Cannot mint more tokens for this range!"\<close>
  | TokenOutsideRange         \<comment> \<open>"Token doesn't belong in that offer range!"\<close>
  | InsufficientFunds         \<comment> \<open>"Insuficient Funds!"\<close>
  | NoOfferForCollection      \<comment> \<open>"Contract address doesn't have an offer associated!"\<close>
  | ArithmeticPanic           \<comment> \<open>Panic 0x11: overflow or underflow of a checked operation\<close>
  | IndexPanic                \<comment> \<open>Panic 0x32: array index out of bounds\<close>
  | ExternalCallFailed        \<comment> \<open>a call to the collection contract reverted\<close>
  | TransferFailed            \<comment> \<open>\<open>transfer\<close> reverted: balance too low or the receiver refused\<close>
  | NotOwner                  \<comment> \<open>the \<open>onlyOwner\<close> modifier of the parent contract\<close>

datatype event =
    AddedOffer address uint uint uint
  | UpdatedOffer address uint uint uint uint string
  | AppendedRange address uint uint uint uint uint uint string
  | TokenMinted address address uint uint uint
  | SoldOut address uint uint
  | ChangedTreasury address
  | ChangedTreasuryFee address "16 word"
  | ChangedNodeFee "16 word"

text \<open>
  What a call does to the outside, in program order: an event, an ether transfer, and the
  call of \<open>mint\<close> on the collection. The \<open>Mint_call\<close> action carries the storage of
  the marketplace at the moment the call is issued, which is what the callee can observe.
\<close>

datatype action =
    Emit event
  | Transfer address uint
  | Mint_call marketplace address address uint uint

datatype role = MINTER | CREATOR

text \<open>
  The collaborators (the ERC721 collection with its access control and royalty interface,
  and the receivers of ether) are not part of the contract: their answers are parameters.
  \<open>None\<close> (or \<open>False\<close> for \<open>mint\<close>) is a call that reverts. \<open>self\<close> is
  \<open>address(this)\<close>; \<open>owner\<close> is the owner kept by the parent contract
  \<open>OwnableUpgradeable\<close>, whose storage is not modelled.
\<close>

record env =
  self :: address
  owner :: address
  hasRole :: "address \<Rightarrow> role \<Rightarrow> address \<Rightarrow> bool option"
  getCollection :: "address \<Rightarrow> uint \<Rightarrow> uint option"
  supportsInterface :: "address \<Rightarrow> bool option"
  royaltyInfo :: "address \<Rightarrow> uint \<Rightarrow> uint \<Rightarrow> string \<Rightarrow> (address \<times> uint) option"
  mint :: "address \<Rightarrow> address \<Rightarrow> uint \<Rightarrow> uint \<Rightarrow> bool"
  accepts :: "address \<Rightarrow> uint \<Rightarrow> bool"

type_synonym 'a result = "error + 'a"

type_synonym outcome = "(marketplace \<times> action list) result"

subsection \<open>Checked arithmetic and array reads\<close>

definition uint_max :: nat where
  "uint_max = 2 ^ 256 - 1"

definition checked_add :: "uint \<Rightarrow> uint \<Rightarrow> uint result" where
  "checked_add a b = (if a + b \<le> uint_max then Inr (a + b) else Inl ArithmeticPanic)"

definition checked_sub :: "uint \<Rightarrow> uint \<Rightarrow> uint result" where
  "checked_sub a b = (if b \<le> a then Inr (a - b) else Inl ArithmeticPanic)"

definition checked_mul :: "uint \<Rightarrow> uint \<Rightarrow> uint result" where
  "checked_mul a b = (if a * b \<le> uint_max then Inr (a * b) else Inl ArithmeticPanic)"

definition checked_add16 :: "16 word \<Rightarrow> 16 word \<Rightarrow> (16 word) result" where
  "checked_add16 a b = (if unat a + unat b < 2 ^ 16 then Inr (a + b) else Inl ArithmeticPanic)"

definition at_index :: "'a list \<Rightarrow> nat \<Rightarrow> 'a result" where
  "at_index xs i = (if i < length xs then Inr (xs ! i) else Inl IndexPanic)"

subsection \<open>Views and validation\<close>

definition contractToOffer :: "marketplace \<Rightarrow> address \<Rightarrow> uint result" where
  "contractToOffer s erc721Address =
     (if \<not> length (offerCatalog s) > 0 then Inl NoOfferForCollection
      else case at_index (offerCatalog s) (contractToOffer_map s erc721Address) of
             Inl e \<Rightarrow> Inl e
           | Inr off \<Rightarrow>
               if contractAddress off = erc721Address
               then Inr (contractToOffer_map s erc721Address)
               else Inl NoOfferForCollection)"

definition validateRangeInfo :: "uint \<Rightarrow> uint \<Rightarrow> unit result" where
  "validateRangeInfo start end = (if start < end then Inr () else Inl InvalidRangeBounds)"

definition validateRoles :: "env \<Rightarrow> address \<Rightarrow> address \<Rightarrow> bool result" where
  "validateRoles E sender tokenAddress =
     (case hasRole E tokenAddress MINTER (self E) of
        None \<Rightarrow> Inl ExternalCallFailed
      | Some False \<Rightarrow> Inl NotAMinter
      | Some True \<Rightarrow>
          (case hasRole E tokenAddress CREATOR sender of
             None \<Rightarrow> Inl ExternalCallFailed
           | Some False \<Rightarrow> Inl NotTheCreator
           | Some True \<Rightarrow> Inr True))"

subsection \<open>Listing: ranges and offers\<close>

text \<open>\<open>_appendOfferRange\<close>: the five pushes, the event, and the increment of \<open>openSales\<close>.\<close>

definition appendOfferRange_internal ::
  "marketplace \<Rightarrow> uint \<Rightarrow> uint \<Rightarrow> uint \<Rightarrow> uint \<Rightarrow> string \<Rightarrow> outcome" where
  "appendOfferRange_internal s offerIndex startToken endToken price name =
     (case at_index (offerCatalog s) offerIndex of
        Inl e \<Rightarrow> Inl e
      | Inr selectedOffer \<Rightarrow>
          (case checked_sub endToken startToken of
             Inl e \<Rightarrow> Inl e
           | Inr d \<Rightarrow>
               (case checked_add d 1 of
                  Inl e \<Rightarrow> Inl e
                | Inr n \<Rightarrow>
                    (let selectedOffer' = selectedOffer
                           \<lparr>tokenRangeStart := tokenRangeStart selectedOffer @ [startToken],
                            tokenRangeEnd := tokenRangeEnd selectedOffer @ [endToken],
                            rangePrice := rangePrice selectedOffer @ [price],
                            tokensAllowed := tokensAllowed selectedOffer @ [n],
                            rangeName := rangeName selectedOffer @ [name]\<rparr>
                     in case checked_sub (length (rangeName selectedOffer')) 1 of
                          Inl e \<Rightarrow> Inl e
                        | Inr rangeIndex \<Rightarrow>
                            (case checked_add (openSales s) 1 of
                               Inl e \<Rightarrow> Inl e
                             | Inr open' \<Rightarrow>
                                 Inr (s\<lparr>offerCatalog := (offerCatalog s)[offerIndex := selectedOffer'],
                                        openSales := open'\<rparr>,
                                      [Emit (AppendedRange (contractAddress selectedOffer')
                                         (productIndex selectedOffer') offerIndex rangeIndex
                                         startToken endToken price name)]))))))"

text \<open>
  The loop of \<open>addOffer\<close> and of \<open>appendOfferRangeBatch\<close>: it runs over the indices of
  the array of names and reads the other three arrays at the same index.
\<close>

fun appendRanges_loop ::
  "marketplace \<Rightarrow> uint \<Rightarrow> uint list \<Rightarrow> uint list \<Rightarrow> uint list \<Rightarrow> string list \<Rightarrow> outcome" where
  "appendRanges_loop s offerIndex starts ends prices [] = Inr (s, [])"
| "appendRanges_loop s offerIndex (st # starts) (en # ends) (p # prices) (n # names) =
     (case validateRangeInfo st en of
        Inl e \<Rightarrow> Inl e
      | Inr _ \<Rightarrow>
          (case appendOfferRange_internal s offerIndex st en p n of
             Inl e \<Rightarrow> Inl e
           | Inr (s', log) \<Rightarrow>
               (case appendRanges_loop s' offerIndex starts ends prices names of
                  Inl e \<Rightarrow> Inl e
                | Inr (s'', log') \<Rightarrow> Inr (s'', log @ log'))))"
| "appendRanges_loop s offerIndex starts ends prices (n # names) = Inl IndexPanic"

definition addOffer ::
  "env \<Rightarrow> address \<Rightarrow> marketplace \<Rightarrow> address \<Rightarrow> uint \<Rightarrow> uint list \<Rightarrow> uint list \<Rightarrow> uint list
     \<Rightarrow> string list \<Rightarrow> address \<Rightarrow> outcome" where
  "addOffer E sender s tokenAddress productIdx rangeStartToken rangeEndToken rangePrices
       rangeNames nodeAddr =
     (case validateRoles E sender tokenAddress of
        Inl e \<Rightarrow> Inl e
      | Inr _ \<Rightarrow>
          (case (if length (offerCatalog s) \<noteq> 0
                 then (case at_index (offerCatalog s) (contractToOffer_map s tokenAddress) of
                         Inl e \<Rightarrow> Inl e
                       | Inr off \<Rightarrow>
                           if contractAddress off = 0 then Inr () else Inl OfferAlreadyExists)
                 else Inr ()) of
             Inl e \<Rightarrow> Inl e
           | Inr _ \<Rightarrow>
               if \<not> (length rangeStartToken = length rangeEndToken \<and>
                      length rangePrices = length rangeStartToken \<and>
                      length rangeNames = length rangePrices)
               then Inl RangeLengthMismatch
               else
                 (case getCollection E tokenAddress productIdx of
                    None \<Rightarrow> Inl ExternalCallFailed
                  | Some mintableTokensLeft \<Rightarrow>
                      if \<not> mintableTokensLeft > 0 then Inl NoMintableSupply
                      else
                        (let newOffer = \<lparr>contractAddress = tokenAddress, nodeAddress = nodeAddr,
                                         productIndex = productIdx, tokenRangeStart = [],
                                         tokenRangeEnd = [], tokensAllowed = [], rangePrice = [],
                                         rangeName = []\<rparr>;
                             s1 = s\<lparr>offerCatalog := offerCatalog s @ [newOffer]\<rparr>
                         in case appendRanges_loop s1 (length (offerCatalog s1) - 1)
                                   rangeStartToken rangeEndToken rangePrices rangeNames of
                              Inl e \<Rightarrow> Inl e
                            | Inr (s2, log) \<Rightarrow>
                                Inr (s2\<lparr>contractToOffer_map :=
                                           (contractToOffer_map s2)
                                             (tokenAddress := length (offerCatalog s2) - 1)\<rparr>,
                                     log @ [Emit (AddedOffer tokenAddress productIdx
                                              (length rangeNames)
                                              (length (offerCatalog s2) - 1))])))))"

definition updateOfferRange ::
  "env \<Rightarrow> address \<Rightarrow> marketplace \<Rightarrow> uint \<Rightarrow> uint \<Rightarrow> uint \<Rightarrow> uint \<Rightarrow> uint \<Rightarrow> string \<Rightarrow> outcome" where
  "updateOfferRange E sender s offerIndex rangeIndex startToken endToken price name =
     (case at_index (offerCatalog s) offerIndex of
        Inl e \<Rightarrow> Inl e
      | Inr selectedOffer \<Rightarrow>
      (case at_index (tokenRangeEnd selectedOffer) rangeIndex of
        Inl e \<Rightarrow> Inl e
      | Inr oldEnd \<Rightarrow>
      if \<not> endToken \<le> oldEnd then Inl RangeExpansionNotAllowed else
      (case at_index (tokenRangeStart selectedOffer) rangeIndex of
        Inl e \<Rightarrow> Inl e
      | Inr oldStart \<Rightarrow>
      if \<not> startToken \<ge> oldStart then Inl RangeExpansionNotAllowed else
      (case validateRoles E sender (contractAddress selectedOffer) of
        Inl e \<Rightarrow> Inl e
      | Inr _ \<Rightarrow>
      (case validateRangeInfo startToken endToken of
        Inl e \<Rightarrow> Inl e
      | Inr _ \<Rightarrow>
      (case checked_sub oldEnd oldStart of
        Inl e \<Rightarrow> Inl e
      | Inr oldSpan \<Rightarrow>
      (case checked_sub endToken startToken of
        Inl e \<Rightarrow> Inl e
      | Inr newSpan \<Rightarrow>
      (case checked_sub oldSpan newSpan of
        Inl e \<Rightarrow> Inl e
      | Inr delta \<Rightarrow>
      (case at_index (tokensAllowed selectedOffer) rangeIndex of
        Inl e \<Rightarrow> Inl e
      | Inr allowed \<Rightarrow>
      (case checked_sub allowed delta of
        Inl e \<Rightarrow> Inl e
      | Inr allowed' \<Rightarrow>
      if \<not> rangeIndex < length (rangePrice selectedOffer) then Inl IndexPanic else
      if \<not> rangeIndex < length (rangeName selectedOffer) then Inl IndexPanic else
        (let selectedOffer' = selectedOffer
               \<lparr>tokensAllowed := (tokensAllowed selectedOffer)[rangeIndex := allowed'],
                tokenRangeStart := (tokenRangeStart selectedOffer)[rangeIndex := startToken],
                tokenRangeEnd := (tokenRangeEnd selectedOffer)[rangeIndex := endToken],
                rangePrice := (rangePrice selectedOffer)[rangeIndex := price],
                rangeName := (rangeName selectedOffer)[rangeIndex := name]\<rparr>
         in Inr (s\<lparr>offerCatalog := (offerCatalog s)[offerIndex := selectedOffer']\<rparr>,
                 [Emit (UpdatedOffer (contractAddress selectedOffer') offerIndex rangeIndex
                    (tokensAllowed selectedOffer' ! rangeIndex) price name)]))))))))))))"

definition appendOfferRange ::
  "env \<Rightarrow> address \<Rightarrow> marketplace \<Rightarrow> uint \<Rightarrow> uint \<Rightarrow> uint \<Rightarrow> uint \<Rightarrow> string \<Rightarrow> outcome" where
  "appendOfferRange E sender s offerIndex startToken endToken price name =
     (case at_index (offerCatalog s) offerIndex of
        Inl e \<Rightarrow> Inl e
      | Inr off \<Rightarrow>
          (case validateRoles E sender (contractAddress off) of
             Inl e \<Rightarrow> Inl e
           | Inr _ \<Rightarrow>
               (case validateRangeInfo startToken endToken of
                  Inl e \<Rightarrow> Inl e
                | Inr _ \<Rightarrow> appendOfferRange_internal s offerIndex startToken endToken price name)))"

definition appendOfferRangeBatch ::
  "env \<Rightarrow> address \<Rightarrow> marketplace \<Rightarrow> uint \<Rightarrow> uint list \<Rightarrow> uint list \<Rightarrow> uint list \<Rightarrow> string list
     \<Rightarrow> outcome" where
  "appendOfferRangeBatch E sender s offerIndex startTokens endTokens prices names =
     (if \<not> (length startTokens = length endTokens \<and>
             length prices = length startTokens \<and>
             length names = length prices)
      then Inl RangeLengthMismatch
      else
        (case at_index (offerCatalog s) offerIndex of
           Inl e \<Rightarrow> Inl e
         | Inr off \<Rightarrow>
             (case validateRoles E sender (contractAddress off) of
                Inl e \<Rightarrow> Inl e
              | Inr _ \<Rightarrow> appendRanges_loop s offerIndex startTokens endTokens prices names)))"

subsection \<open>Administration\<close>

definition setTreasuryAddress :: "env \<Rightarrow> address \<Rightarrow> marketplace \<Rightarrow> address \<Rightarrow> outcome" where
  "setTreasuryAddress E sender s newTreasury =
     (if sender \<noteq> owner E then Inl NotOwner
      else Inr (s\<lparr>treasury := newTreasury\<rparr>, [Emit (ChangedTreasury newTreasury)]))"

definition setTreasuryFee :: "env \<Rightarrow> address \<Rightarrow> marketplace \<Rightarrow> 16 word \<Rightarrow> outcome" where
  "setTreasuryFee E sender s newFee =
     (if sender \<noteq> owner E then Inl NotOwner
      else Inr (s\<lparr>treasuryFee := newFee\<rparr>, [Emit (ChangedTreasuryFee (treasury s) newFee)]))"

definition setNodeFee :: "env \<Rightarrow> address \<Rightarrow> marketplace \<Rightarrow> 16 word \<Rightarrow> outcome" where
  "setNodeFee E sender s newFee =
     (if sender \<noteq> owner E then Inl NotOwner
      else Inr (s\<lparr>nodeFee := newFee\<rparr>, [Emit (ChangedNodeFee newFee)]))"

subsection \<open>Purchase\<close>

text \<open>
  \<open>payable(recipient).transfer(amount)\<close>: it reverts when the contract holds less than
  \<open>amount\<close> or when the receiver refuses the ether. The contract itself has neither a
  \<open>receive\<close> nor a fallback function, so a transfer to \<open>address(this)\<close> reverts.
\<close>

definition transfer :: "env \<Rightarrow> marketplace \<times> action list \<Rightarrow> address \<Rightarrow> uint \<Rightarrow> outcome" where
  "transfer E st recipient amount =
     (case st of (s, log) \<Rightarrow>
        if balance s < amount \<or> recipient = self E \<or> \<not> accepts E recipient amount
        then Inl TransferFailed
        else Inr (s\<lparr>balance := balance s - amount\<rparr>, log @ [Transfer recipient amount]))"

text \<open>
  The amount of line 316, \<open>price * (100000 - (treasuryFee + nodeFee)) / 100000\<close>: the sum
  of the two \<open>uint16\<close> fees is a checked \<open>uint16\<close> addition, the difference is a checked
  \<open>uint24\<close> subtraction, the product a checked \<open>uint256\<close> multiplication.
\<close>

definition creatorShare :: "uint \<Rightarrow> 16 word \<Rightarrow> 16 word \<Rightarrow> uint result" where
  "creatorShare price tFee nFee =
     (case checked_add16 tFee nFee of
        Inl e \<Rightarrow> Inl e
      | Inr fees \<Rightarrow>
          (case checked_sub 100000 (unat fees) of
             Inl e \<Rightarrow> Inl e
           | Inr rest \<Rightarrow>
               (case checked_mul price rest of
                  Inl e \<Rightarrow> Inl e
                | Inr x \<Rightarrow> Inr (x div 100000))))"

text \<open>The amount of lines 320 and 321, \<open>(price * fee) / 100000\<close>.\<close>

definition feeShare :: "uint \<Rightarrow> 16 word \<Rightarrow> uint result" where
  "feeShare price fee =
     (case checked_mul price (unat fee) of
        Inl e \<Rightarrow> Inl e
      | Inr x \<Rightarrow> Inr (x div 100000))"

text \<open>Lines 300 to 307: the selected offer and the five \<open>require\<close>s, in order.\<close>

definition buyToken_checks :: "marketplace \<Rightarrow> uint \<Rightarrow> uint \<Rightarrow> uint \<Rightarrow> uint \<Rightarrow> offer result" where
  "buyToken_checks s msg_value catalogIndex rangeIndex internalTokenIndex =
     (case at_index (offerCatalog s) catalogIndex of
        Inl e \<Rightarrow> Inl e
      | Inr selectedCollection \<Rightarrow>
      if \<not> contractAddress selectedCollection \<noteq> 0 then Inl InvalidOffer else
      if \<not> length (tokensAllowed selectedCollection) > rangeIndex then Inl InvalidRange else
      if \<not> tokensAllowed selectedCollection ! rangeIndex > 0 then Inl RangeSoldOut else
      (case at_index (tokenRangeStart selectedCollection) rangeIndex of
        Inl e \<Rightarrow> Inl e
      | Inr start \<Rightarrow>
      if \<not> start \<le> internalTokenIndex then Inl TokenOutsideRange else
      (case at_index (tokenRangeEnd selectedCollection) rangeIndex of
        Inl e \<Rightarrow> Inl e
      | Inr end \<Rightarrow>
      if \<not> internalTokenIndex \<le> end then Inl TokenOutsideRange else
      (case at_index (rangePrice selectedCollection) rangeIndex of
        Inl e \<Rightarrow> Inl e
      | Inr price \<Rightarrow>
      if \<not> msg_value \<ge> price then Inl InsufficientFunds else Inr selectedCollection))))"

text \<open>Lines 312 to 317: the royalty query and the payment to the creator.\<close>

definition buyToken_creator :: "env \<Rightarrow> marketplace \<Rightarrow> offer \<Rightarrow> uint \<Rightarrow> outcome" where
  "buyToken_creator E s selectedCollection rangeIndex =
     (case supportsInterface E (contractAddress selectedCollection) of
        None \<Rightarrow> Inl ExternalCallFailed
      | Some hasFees \<Rightarrow>
          if hasFees then
            (case at_index (rangeName selectedCollection) rangeIndex of
               Inl e \<Rightarrow> Inl e
             | Inr name \<Rightarrow>
                 (case royaltyInfo E (contractAddress selectedCollection) 0
                         (rangePrice selectedCollection ! rangeIndex) name of
                    None \<Rightarrow> Inl ExternalCallFailed
                  | Some (creatorAddress, amount) \<Rightarrow>
                      (case creatorShare (rangePrice selectedCollection ! rangeIndex)
                              (treasuryFee s) (nodeFee s) of
                         Inl e \<Rightarrow> Inl e
                       | Inr c \<Rightarrow> transfer E (s, []) creatorAddress c)))
          else Inr (s, []))"

text \<open>Lines 319 to 321: the refund, the treasury fee and the node fee.\<close>

definition buyToken_fees ::
  "env \<Rightarrow> address \<Rightarrow> uint \<Rightarrow> marketplace \<times> action list \<Rightarrow> offer \<Rightarrow> uint \<Rightarrow> outcome" where
  "buyToken_fees E sender msg_value st selectedCollection rangeIndex =
     (case checked_sub msg_value (rangePrice selectedCollection ! rangeIndex) of
        Inl e \<Rightarrow> Inl e
      | Inr refund \<Rightarrow>
      (case transfer E st sender refund of
        Inl e \<Rightarrow> Inl e
      | Inr st1 \<Rightarrow>
      (case feeShare (rangePrice selectedCollection ! rangeIndex) (treasuryFee (fst st)) of
        Inl e \<Rightarrow> Inl e
      | Inr t \<Rightarrow>
      (case transfer E st1 (treasury (fst st)) t of
        Inl e \<Rightarrow> Inl e
      | Inr st2 \<Rightarrow>
      (case feeShare (rangePrice selectedCollection ! rangeIndex) (nodeFee (fst st)) of
        Inl e \<Rightarrow> Inl e
      | Inr n \<Rightarrow> transfer E st2 (nodeAddress selectedCollection) n)))))"

text \<open>
  Lines 322 to 328: the decrement of the range's supply, the sold-out bookkeeping, the
  call of \<open>mint\<close> and the final event.
\<close>

definition buyToken_settle ::
  "env \<Rightarrow> address \<Rightarrow> marketplace \<times> action list \<Rightarrow> uint \<Rightarrow> uint \<Rightarrow> uint \<Rightarrow> outcome" where
  "buyToken_settle E sender st catalogIndex rangeIndex internalTokenIndex =
     (case st of (s, log) \<Rightarrow>
        (let selectedCollection = offerCatalog s ! catalogIndex in
         case checked_sub (tokensAllowed selectedCollection ! rangeIndex) 1 of
           Inl e \<Rightarrow> Inl e
         | Inr n \<Rightarrow>
             (let selectedCollection' = selectedCollection
                    \<lparr>tokensAllowed := (tokensAllowed selectedCollection)[rangeIndex := n]\<rparr>;
                  s1 = s\<lparr>offerCatalog := (offerCatalog s)[catalogIndex := selectedCollection']\<rparr>
              in case (if tokensAllowed selectedCollection' ! rangeIndex = 0
                       then (case checked_sub (openSales s1) 1 of
                               Inl e \<Rightarrow> Inl e
                             | Inr k \<Rightarrow>
                                 Inr (s1\<lparr>openSales := k\<rparr>,
                                      log @ [Emit (SoldOut (contractAddress selectedCollection')
                                                     catalogIndex rangeIndex)]))
                       else Inr (s1, log)) of
                   Inl e \<Rightarrow> Inl e
                 | Inr (s2, log2) \<Rightarrow>
                     if \<not> mint E (contractAddress selectedCollection') sender
                             (productIndex selectedCollection') internalTokenIndex
                     then Inl ExternalCallFailed
                     else Inr (s2, log2 @
                            [Mint_call s2 (contractAddress selectedCollection') sender
                               (productIndex selectedCollection') internalTokenIndex,
                             Emit (TokenMinted sender (contractAddress selectedCollection')
                                     catalogIndex rangeIndex internalTokenIndex)]))))"

text \<open>
  \<open>buyToken\<close> is payable: the ether sent with the call is in the contract's balance when
  the body starts.
\<close>

definition buyToken :: "env \<Rightarrow> address \<Rightarrow> uint \<Rightarrow> marketplace \<Rightarrow> uint \<Rightarrow> uint \<Rightarrow> uint \<Rightarrow> outcome" where
  "buyToken E sender msg_value s catalogIndex rangeIndex internalTokenIndex =
     (let s0 = s\<lparr>balance := balance s + msg_value\<rparr> in
      case buyToken_checks s0 msg_value catalogIndex rangeIndex internalTokenIndex of
        Inl e \<Rightarrow> Inl e
      | Inr selectedCollection \<Rightarrow>
          (case buyToken_creator E s0 selectedCollection rangeIndex of
             Inl e \<Rightarrow> Inl e
           | Inr st1 \<Rightarrow>
               (case buyToken_fees E sender msg_value st1 selectedCollection rangeIndex of
                  Inl e \<Rightarrow> Inl e
                | Inr st2 \<Rightarrow>
                    buyToken_settle E sender st2 catalogIndex rangeIndex internalTokenIndex)))"

subsection \<open>Transactions\<close>

text \<open>
  A transaction is one external call of the contract by a sender, in the environment of
  that moment. A call that reverts changes nothing.
\<close>

datatype call =
    AddOffer address uint "uint list" "uint list" "uint list" "string list" address
  | UpdateOfferRange uint uint uint uint uint string
  | AppendOfferRange uint uint uint uint string
  | AppendOfferRangeBatch uint "uint list" "uint list" "uint list" "string list"
  | BuyToken uint uint uint uint
  | SetTreasuryAddress address
  | SetTreasuryFee "16 word"
  | SetNodeFee "16 word"

fun dispatch :: "env \<Rightarrow> address \<Rightarrow> marketplace \<Rightarrow> call \<Rightarrow> outcome" where
  "dispatch E sender s (AddOffer a p ss es ps ns n) = addOffer E sender s a p ss es ps ns n"
| "dispatch E sender s (UpdateOfferRange i r st en p n) = updateOfferRange E sender s i r st en p n"
| "dispatch E sender s (AppendOfferRange i st en p n) = appendOfferRange E sender s i st en p n"
| "dispatch E sender s (AppendOfferRangeBatch i ss es ps ns) =
     appendOfferRangeBatch E sender s i ss es ps ns"
| "dispatch E sender s (BuyToken v i r t) = buyToken E sender v s i r t"
| "dispatch E sender s (SetTreasuryAddress a) = setTreasuryAddress E sender s a"
| "dispatch E sender s (SetTreasuryFee f) = setTreasuryFee E sender s f"
| "dispatch E sender s (SetNodeFee f) = setNodeFee E sender s f"

definition execute :: "marketplace \<Rightarrow> env \<times> address \<times> call \<Rightarrow> marketplace" where
  "execute s tx =
     (case tx of (E, sender, c) \<Rightarrow>
        (case dispatch E sender s c of Inl e \<Rightarrow> s | Inr (s', log) \<Rightarrow> s'))"

definition run :: "marketplace \<Rightarrow> (env \<times> address \<times> call) list \<Rightarrow> marketplace" where
  "run s txs = foldl execute s txs"

text \<open>The storage after \<open>initialize\<close>, before any offer.\<close>

definition initialize :: "address \<Rightarrow> 16 word \<Rightarrow> 16 word \<Rightarrow> marketplace" where
  "initialize treasury0 treasuryFee0 nodeFee0 =
     \<lparr>contractToOffer_map = (\<lambda>_. 0), offerCatalog = [], treasury = treasury0, openSales = 0,
      treasuryFee = treasuryFee0, nodeFee = nodeFee0, balance = 0\<rparr>"

subsection \<open>Well-formed storage and example data\<close>

text \<open>
  The five arrays of an offer are pushed together and never shortened, so they have the
  same length in every reachable storage.
\<close>

definition wf_offer :: "offer \<Rightarrow> bool" where
  "wf_offer off =
     (length (tokenRangeStart off) = length (tokensAllowed off) \<and>
      length (tokenRangeEnd off) = length (tokensAllowed off) \<and>
      length (rangePrice off) = length (tokensAllowed off) \<and>
      length (rangeName off) = length (tokensAllowed off))"

definition wf_catalog :: "marketplace \<Rightarrow> bool" where
  "wf_catalog s = list_all wf_offer (offerCatalog s)"

text \<open>
  A collection at address 77 whose roles are in order, with 10 mintable tokens and no
  royalty interface; a catalog with one offer for it, one range \<open>[1, 10]\<close> at price 100.
\<close>

definition example_env :: env where
  "example_env =
     \<lparr>self = 1000, owner = 1, hasRole = (\<lambda>_ _ _. Some True),
      getCollection = (\<lambda>_ _. Some 10), supportsInterface = (\<lambda>_. Some False),
      royaltyInfo = (\<lambda>_ _ _ _. Some (7, 0)), mint = (\<lambda>_ _ _ _. True),
      accepts = (\<lambda>_ _. True)\<rparr>"

definition example_offer :: offer where
  "example_offer =
     \<lparr>contractAddress = 77, nodeAddress = 60, productIndex = 0, tokenRangeStart = [1],
      tokenRangeEnd = [10], tokensAllowed = [10], rangePrice = [100], rangeName = [''a'']\<rparr>"

definition example_market :: marketplace where
  "example_market =
     \<lparr>contractToOffer_map = (\<lambda>_. 0), offerCatalog = [example_offer], treasury = 50,
      openSales = 1, treasuryFee = 9000, nodeFee = 1000, balance = 0\<rparr>"

text \<open>An offer after one range, and after a list of ranges, has been appended to it.\<close>

definition push_range :: "offer \<Rightarrow> uint \<Rightarrow> uint \<Rightarrow> uint \<Rightarrow> string \<Rightarrow> offer" where
  "push_range off st en p n =
     off\<lparr>tokenRangeStart := tokenRangeStart off @ [st],
         tokenRangeEnd := tokenRangeEnd off @ [en],
         rangePrice := rangePrice off @ [p],
         tokensAllowed := tokensAllowed off @ [en - st + 1],
         rangeName := rangeName off @ [n]\<rparr>"

definition push_ranges :: "offer \<Rightarrow> uint list \<Rightarrow> uint list \<Rightarrow> uint list \<Rightarrow> string list \<Rightarrow> offer" where
  "push_ranges off starts ends prices names =
     off\<lparr>tokenRangeStart := tokenRangeStart off @ starts,
         tokenRangeEnd := tokenRangeEnd off @ ends,
         rangePrice := rangePrice off @ prices,
         tokensAllowed := tokensAllowed off @ map2 (\<lambda>st en. en - st + 1) starts ends,
         rangeName := rangeName off @ names\<rparr>"

subsection \<open>Reading a list of actions\<close>

text \<open>The ether transfers of a list of actions, in order, and their total.\<close>

fun transfers :: "action list \<Rightarrow> (address \<times> uint) list" where
  "transfers [] = []"
| "transfers (Transfer a x # as) = (a, x) # transfers as"
| "transfers (Emit e # as) = transfers as"
| "transfers (Mint_call s a b p t # as) = transfers as"

definition paid_out :: "action list \<Rightarrow> uint" where
  "paid_out log = sum_list (map snd (transfers log))"

fun is_mint_call :: "action \<Rightarrow> bool" where
  "is_mint_call (Mint_call s a b p t) = True"
| "is_mint_call (Emit e) = False"
| "is_mint_call (Transfer a x) = False"

text \<open>
  A collection with the royalty interface, whose royalty receiver is the address 7; and a
  catalog whose only range is priced 101.
\<close>

definition royalty_env :: env where
  "royalty_env = example_env\<lparr>supportsInterface := (\<lambda>_. Some True)\<rparr>"

definition odd_market :: marketplace where
  "odd_market = example_market\<lparr>offerCatalog := [example_offer\<lparr>rangePrice := [101]\<rparr>]\<rparr>"

text \<open>A catalog whose two fees are each below \<open>2 ^ 16\<close> but whose sum is not.\<close>

definition greedy_market :: marketplace where
  "greedy_market = example_market\<lparr>treasuryFee := 40000, nodeFee := 30000\<rparr>"

text \<open>The example catalog when nine of the ten tokens of its range have been sold.\<close>

definition last_token_market :: marketplace where
  "last_token_market = example_market\<lparr>offerCatalog := [example_offer\<lparr>tokensAllowed := [1]\<rparr>]\<rparr>"

subsection \<open>Supply over time\<close>

text \<open>
  \<open>supply_le s s'\<close>: every offer and range of \<open>s\<close> is still there in \<open>s'\<close>, at the same
  place and for the same collection, and no range has more tokens allowed than before.
\<close>

definition supply_le :: "marketplace \<Rightarrow> marketplace \<Rightarrow> bool" where
  "supply_le s s' =
     (length (offerCatalog s) \<le> length (offerCatalog s') \<and>
      (\<forall>i < length (offerCatalog s).
         contractAddress (offerCatalog s' ! i) = contractAddress (offerCatalog s ! i) \<and>
         length (tokensAllowed (offerCatalog s ! i)) \<le> length (tokensAllowed (offerCatalog s' ! i)) \<and>
         (\<forall>r < length (tokensAllowed (offerCatalog s ! i)).
            tokensAllowed (offerCatalog s' ! i) ! r \<le> tokensAllowed (offerCatalog s ! i) ! r)))"

text \<open>The number of ranges of the catalog with tokens left.\<close>

definition open_ranges :: "marketplace \<Rightarrow> nat" where
  "open_ranges s =
     sum_list (map (\<lambda>off. length (filter (\<lambda>n. 0 < n) (tokensAllowed off))) (offerCatalog s))"

text \<open>The example catalog when all ten tokens of its range have been sold.\<close>

definition sold_out_market :: marketplace where
  "sold_out_market =
     example_market\<lparr>offerCatalog := [example_offer\<lparr>tokensAllowed := [0]\<rparr>], openSales := 0\<rparr>"

text \<open>
  A catalog built by transactions from the initial storage: one offer for the collection
  77 with the range \<open>[1, 3]\<close>, of which the tokens 1 and 2 are then bought.
\<close>

definition two_sold_market :: marketplace where
  "two_sold_market =
     run (initialize 50 9000 1000)
       [(example_env, 5, AddOffer 77 0 [1] [3] [100] [''a''] 60),
        (example_env, 9, BuyToken 100 0 0 1),
        (example_env, 9, BuyToken 100 0 0 2)]"

section \<open>Properties\<close>

subsection \<open>Validation of a purchase\<close>

lemma buyToken_checks_balance [simp]:
  "buyToken_checks (s\<lparr>balance := b\<rparr>) v i r t = buyToken_checks s v i r t"
  by (simp add: buyToken_checks_def)

text \<open>
  Before any \<open>require\<close>, \<open>buyToken\<close> reads \<open>offerCatalog[catalogIndex]\<close>: an index
  beyond the catalog is the array-bounds panic.
\<close>

lemma buyToken_no_such_offer:
  "\<not> i < length (offerCatalog s) \<Longrightarrow> buyToken E sender v s i r t = Inl IndexPanic"
  by (simp add: buyToken_def buyToken_checks_def at_index_def)

text \<open>
  C7. \<open>buyToken\<close> validates in order. For an offer \<open>off\<close> stored at \<open>catalogIndex\<close>:
  it fails with \<open>InvalidOffer\<close> if the stored \<open>contractAddress\<close> is zero; otherwise with
  \<open>InvalidRange\<close> if \<open>rangeIndex\<close> is out of bounds; otherwise with \<open>RangeSoldOut\<close> if
  the range's \<open>tokensAllowed\<close> is 0; otherwise with \<open>TokenOutsideRange\<close> if the token is
  not within \<open>[start, end]\<close>; otherwise with \<open>InsufficientFunds\<close> if the value sent is
  less than the price. Whenever \<open>buyToken\<close> fails, the transaction leaves the storage
  as it was.
\<close>

theorem buyToken_validations:
  assumes "i < length (offerCatalog s)" and "off = offerCatalog s ! i" and "wf_offer off"
  shows "(contractAddress off = 0 \<longrightarrow> buyToken E sender v s i r t = Inl InvalidOffer) \<and>
     (contractAddress off \<noteq> 0 \<and> \<not> r < length (tokensAllowed off) \<longrightarrow>
        buyToken E sender v s i r t = Inl InvalidRange) \<and>
     (contractAddress off \<noteq> 0 \<and> r < length (tokensAllowed off) \<and> tokensAllowed off ! r = 0 \<longrightarrow>
        buyToken E sender v s i r t = Inl RangeSoldOut) \<and>
     (contractAddress off \<noteq> 0 \<and> r < length (tokensAllowed off) \<and> tokensAllowed off ! r > 0 \<and>
      \<not> (tokenRangeStart off ! r \<le> t \<and> t \<le> tokenRangeEnd off ! r) \<longrightarrow>
        buyToken E sender v s i r t = Inl TokenOutsideRange) \<and>
     (contractAddress off \<noteq> 0 \<and> r < length (tokensAllowed off) \<and> tokensAllowed off ! r > 0 \<and>
      tokenRangeStart off ! r \<le> t \<and> t \<le> tokenRangeEnd off ! r \<and> v < rangePrice off ! r \<longrightarrow>
        buyToken E sender v s i r t = Inl InsufficientFunds) \<and>
     (\<forall>e. buyToken E sender v s i r t = Inl e \<longrightarrow> execute s (E, sender, BuyToken v i r t) = s)"
  using assms
  by (auto simp: buyToken_def buyToken_checks_def at_index_def wf_offer_def execute_def)

theorem buyToken_validations_witness:
  "buyToken example_env 9 100 (example_market\<lparr>offerCatalog := [example_offer\<lparr>contractAddress := 0\<rparr>]\<rparr>)
     0 0 5 = Inl InvalidOffer \<and>
   buyToken example_env 9 100 example_market 0 1 5 = Inl InvalidRange \<and>
   buyToken example_env 9 100 (example_market\<lparr>offerCatalog := [example_offer\<lparr>tokensAllowed := [0]\<rparr>]\<rparr>)
     0 0 5 = Inl RangeSoldOut \<and>
   buyToken example_env 9 100 example_market 0 0 11 = Inl TokenOutsideRange \<and>
   buyToken example_env 9 99 example_market 0 0 5 = Inl InsufficientFunds \<and>
   execute example_market (example_env, 9, BuyToken 100 0 0 11) = example_market"
  using buyToken_validations [of 0 "example_market\<lparr>offerCatalog := [example_offer\<lparr>contractAddress := 0\<rparr>]\<rparr>"
          "example_offer\<lparr>contractAddress := 0\<rparr>" example_env 9 100 0 5]
        buyToken_validations [of 0 example_market example_offer example_env 9 100 1 5]
        buyToken_validations [of 0 "example_market\<lparr>offerCatalog := [example_offer\<lparr>tokensAllowed := [0]\<rparr>]\<rparr>"
          "example_offer\<lparr>tokensAllowed := [0]\<rparr>" example_env 9 100 0 5]
        buyToken_validations [of 0 example_market example_offer example_env 9 100 0 11]
        buyToken_validations [of 0 example_market example_offer example_env 9 99 0 5]
  by (simp add: example_market_def example_offer_def wf_offer_def)

subsection \<open>What the listing operations store\<close>

lemma appendOfferRange_internal_Inr:
  "appendOfferRange_internal s i st en p n = Inr (s', log) \<longleftrightarrow>
     i < length (offerCatalog s) \<and> st \<le> en \<and> en - st + 1 \<le> uint_max \<and>
     openSales s + 1 \<le> uint_max \<and>
     s' = s\<lparr>offerCatalog := (offerCatalog s)[i := push_range (offerCatalog s ! i) st en p n],
            openSales := openSales s + 1\<rparr> \<and>
     log = [Emit (AppendedRange (contractAddress (offerCatalog s ! i))
                    (productIndex (offerCatalog s ! i)) i
                    (length (rangeName (offerCatalog s ! i))) st en p n)]"
  by (auto simp: appendOfferRange_internal_def at_index_def checked_sub_def checked_add_def
        push_range_def Let_def)

lemma push_ranges_Nil [simp]: "push_ranges off [] [] [] [] = off"
  by (simp add: push_ranges_def)

lemma push_ranges_Cons:
  "push_ranges (push_range off st en p n) starts ends prices names =
     push_ranges off (st # starts) (en # ends) (p # prices) (n # names)"
  by (simp add: push_ranges_def push_range_def)

lemma appendRanges_loop_Inr:
  "appendRanges_loop s i starts ends prices names = Inr (s', log) \<Longrightarrow>
   length starts = length names \<Longrightarrow> length ends = length names \<Longrightarrow>
   length prices = length names \<Longrightarrow> i < length (offerCatalog s) \<Longrightarrow>
     list_all2 (<) starts ends \<and>
     s' = s\<lparr>offerCatalog :=
              (offerCatalog s)[i := push_ranges (offerCatalog s ! i) starts ends prices names],
            openSales := openSales s + length names\<rparr>"
proof (induction s i starts ends prices names arbitrary: s' log rule: appendRanges_loop.induct)
  case (2 s offerIndex st starts en ends p prices n names)
  from "2.prems"(1) have v: "st < en"
    by (simp add: validateRangeInfo_def split: if_splits)
  from "2.prems"(1) v obtain s1 log1 s2 log2 where
    a: "appendOfferRange_internal s offerIndex st en p n = Inr (s1, log1)" and
    l: "appendRanges_loop s1 offerIndex starts ends prices names = Inr (s2, log2)" and
    e: "s' = s2"
    by (auto simp: validateRangeInfo_def split: sum.splits prod.splits)
  from a have s1: "s1 = s\<lparr>offerCatalog := (offerCatalog s)[offerIndex :=
                      push_range (offerCatalog s ! offerIndex) st en p n],
                    openSales := openSales s + 1\<rparr>"
    by (simp add: appendOfferRange_internal_Inr)
  have len: "offerIndex < length (offerCatalog s1)"
    using "2.prems"(5) s1 by simp
  have ih: "list_all2 (<) starts ends \<and>
     s2 = s1\<lparr>offerCatalog := (offerCatalog s1)[offerIndex :=
                push_ranges (offerCatalog s1 ! offerIndex) starts ends prices names],
              openSales := openSales s1 + length names\<rparr>"
    using "2.IH" [OF _ a refl l] "2.prems" len v
    by (simp add: validateRangeInfo_def)
  show ?case
    using ih v e "2.prems"(5) by (simp add: s1 push_ranges_Cons)
qed simp_all

subsection \<open>Evaluating the example data\<close>

lemma small_le_uint_max [simp]: "n \<le> 1000000000000 \<Longrightarrow> n \<le> uint_max"
  by (simp add: uint_max_def)

lemma example_validateRoles [simp]: "validateRoles example_env sender a = Inr True"
  by (simp add: validateRoles_def example_env_def)

lemma example_env_simps [simp]:
  "self example_env = 1000"
  "getCollection example_env a p = Some 10"
  "supportsInterface example_env a = Some False"
  "mint example_env a b p t = True"
  "accepts example_env a v = True"
  by (simp_all add: example_env_def)

lemma example_market_simps [simp]:
  "offerCatalog example_market = [example_offer]"
  "openSales example_market = 1"
  "treasury example_market = 50"
  "treasuryFee example_market = 9000"
  "nodeFee example_market = 1000"
  "balance example_market = 0"
  "contractToOffer_map example_market a = 0"
  by (simp_all add: example_market_def)

lemma example_offer_simps [simp]:
  "contractAddress example_offer = 77"
  "nodeAddress example_offer = 60"
  "productIndex example_offer = 0"
  "tokenRangeStart example_offer = [1]"
  "tokenRangeEnd example_offer = [10]"
  "tokensAllowed example_offer = [10]"
  "rangePrice example_offer = [100]"
  "rangeName example_offer = [''a'']"
  by (simp_all add: example_offer_def)

lemma initialize_simps [simp]:
  "offerCatalog (initialize a f g) = []"
  "openSales (initialize a f g) = 0"
  "treasury (initialize a f g) = a"
  "treasuryFee (initialize a f g) = f"
  "nodeFee (initialize a f g) = g"
  "balance (initialize a f g) = 0"
  "contractToOffer_map (initialize a f g) x = 0"
  by (simp_all add: initialize_def)

lemma example_update_expand:
  "updateOfferRange example_env 5 example_market 0 0 1 11 100 ''a'' = Inl RangeExpansionNotAllowed"
  by (simp add: updateOfferRange_def at_index_def)

lemma example_update_shrink:
  "updateOfferRange example_env 5 example_market 0 0 2 8 120 ''z'' =
     Inr (example_market\<lparr>offerCatalog := [example_offer\<lparr>tokensAllowed := [7],
            tokenRangeStart := [2], tokenRangeEnd := [8], rangePrice := [120],
            rangeName := [''z'']\<rparr>]\<rparr>,
          [Emit (UpdatedOffer 77 0 0 7 120 ''z'')])"
  by (simp add: updateOfferRange_def at_index_def checked_sub_def validateRangeInfo_def Let_def)

lemma example_append:
  "appendOfferRange example_env 5 example_market 0 11 20 7 ''b'' =
     Inr (example_market\<lparr>offerCatalog := [push_range example_offer 11 20 7 ''b''],
            openSales := 2\<rparr>,
          [Emit (AppendedRange 77 0 0 1 11 20 7 ''b'')])"
  by (simp add: appendOfferRange_def appendOfferRange_internal_def at_index_def checked_sub_def
       checked_add_def validateRangeInfo_def Let_def push_range_def)

lemma example_append_bad:
  "appendOfferRange example_env 5 example_market 0 20 20 7 ''b'' = Inl InvalidRangeBounds"
  by (simp add: appendOfferRange_def at_index_def validateRangeInfo_def)

lemma example_batch:
  "appendOfferRangeBatch example_env 5 example_market 0 [11, 30] [20, 31] [7, 8] [''b'', ''c''] =
     Inr (example_market\<lparr>offerCatalog :=
             [push_ranges example_offer [11, 30] [20, 31] [7, 8] [''b'', ''c'']],
            openSales := 3\<rparr>,
          [Emit (AppendedRange 77 0 0 1 11 20 7 ''b''),
           Emit (AppendedRange 77 0 0 2 30 31 8 ''c'')])"
  by (simp add: appendOfferRangeBatch_def appendOfferRange_internal_def at_index_def
       checked_sub_def checked_add_def validateRangeInfo_def Let_def push_ranges_def)

lemma example_batch_bad:
  "appendOfferRangeBatch example_env 5 example_market 0 [11, 31] [20, 30] [7, 8] [''b'', ''c'']
     = Inl InvalidRangeBounds"
  by (simp add: appendOfferRangeBatch_def appendOfferRange_internal_def at_index_def
       checked_sub_def checked_add_def validateRangeInfo_def Let_def)

lemma example_addOffer:
  "addOffer example_env 5 (initialize 50 9000 1000) 77 0 [1] [10] [100] [''a''] 60 =
     Inr (example_market, [Emit (AppendedRange 77 0 0 0 1 10 100 ''a''), Emit (AddedOffer 77 0 1 0)])"
  by (simp add: addOffer_def appendOfferRange_internal_def at_index_def
       checked_sub_def checked_add_def validateRangeInfo_def Let_def example_market_def
       example_offer_def initialize_def fun_eq_iff)

lemma example_addOffer_bad:
  "addOffer example_env 5 (initialize 50 9000 1000) 77 0 [1, 30] [10, 30] [7, 8] [''b'', ''c''] 60
     = Inl InvalidRangeBounds"
  by (simp add: addOffer_def appendOfferRange_internal_def at_index_def
       checked_sub_def checked_add_def validateRangeInfo_def Let_def)

subsection \<open>Created ranges\<close>

text \<open>
  C9. Every range created by \<open>appendOfferRange\<close>, \<open>appendOfferRangeBatch\<close> or \<open>addOffer\<close>
  has \<open>tokensAllowed = end - start + 1\<close> right after its creation, and was validated with
  \<open>start < end\<close>. A pair with \<open>start \<ge> end\<close> makes the call fail (for a single append with
  \<open>InvalidRangeBounds\<close>, when the offer exists and the roles are in order) and no range is
  created: the storage stays as it was.
\<close>

theorem created_range_supply:
  "(\<forall>s' log. appendOfferRange E sender s i st en p n = Inr (s', log) \<longrightarrow>
      st < en \<and>
      tokenRangeStart (offerCatalog s' ! i) = tokenRangeStart (offerCatalog s ! i) @ [st] \<and>
      tokenRangeEnd (offerCatalog s' ! i) = tokenRangeEnd (offerCatalog s ! i) @ [en] \<and>
      tokensAllowed (offerCatalog s' ! i) = tokensAllowed (offerCatalog s ! i) @ [en - st + 1] \<and>
      int (last (tokensAllowed (offerCatalog s' ! i))) = int en - int st + 1) \<and>
   (\<not> st < en \<longrightarrow>
      (\<forall>x. appendOfferRange E sender s i st en p n \<noteq> Inr x) \<and>
      execute s (E, sender, AppendOfferRange i st en p n) = s \<and>
      (i < length (offerCatalog s) \<and>
       validateRoles E sender (contractAddress (offerCatalog s ! i)) = Inr True \<longrightarrow>
         appendOfferRange E sender s i st en p n = Inl InvalidRangeBounds)) \<and>
   (\<forall>s' log. appendOfferRangeBatch E sender s i starts ends prices names = Inr (s', log) \<longrightarrow>
      list_all2 (<) starts ends \<and>
      tokenRangeStart (offerCatalog s' ! i) = tokenRangeStart (offerCatalog s ! i) @ starts \<and>
      tokenRangeEnd (offerCatalog s' ! i) = tokenRangeEnd (offerCatalog s ! i) @ ends \<and>
      tokensAllowed (offerCatalog s' ! i) =
        tokensAllowed (offerCatalog s ! i) @ map2 (\<lambda>st en. en - st + 1) starts ends) \<and>
   (\<not> list_all2 (<) starts ends \<longrightarrow>
      (\<forall>x. appendOfferRangeBatch E sender s i starts ends prices names \<noteq> Inr x) \<and>
      execute s (E, sender, AppendOfferRangeBatch i starts ends prices names) = s) \<and>
   (\<forall>s' log. addOffer E sender s a pidx starts ends prices names node = Inr (s', log) \<longrightarrow>
      list_all2 (<) starts ends \<and>
      offerCatalog s' = offerCatalog s @
        [\<lparr>contractAddress = a, nodeAddress = node, productIndex = pidx,
          tokenRangeStart = starts, tokenRangeEnd = ends,
          tokensAllowed = map2 (\<lambda>st en. en - st + 1) starts ends,
          rangePrice = prices, rangeName = names\<rparr>]) \<and>
   (\<not> list_all2 (<) starts ends \<longrightarrow>
      (\<forall>x. addOffer E sender s a pidx starts ends prices names node \<noteq> Inr x) \<and>
      execute s (E, sender, AddOffer a pidx starts ends prices names node) = s)"
proof -
  have single: "\<forall>s' log. appendOfferRange E sender s i st en p n = Inr (s', log) \<longrightarrow>
      st < en \<and>
      tokenRangeStart (offerCatalog s' ! i) = tokenRangeStart (offerCatalog s ! i) @ [st] \<and>
      tokenRangeEnd (offerCatalog s' ! i) = tokenRangeEnd (offerCatalog s ! i) @ [en] \<and>
      tokensAllowed (offerCatalog s' ! i) = tokensAllowed (offerCatalog s ! i) @ [en - st + 1] \<and>
      int (last (tokensAllowed (offerCatalog s' ! i))) = int en - int st + 1"
    by (auto simp: appendOfferRange_def appendOfferRange_internal_Inr validateRangeInfo_def
          at_index_def push_range_def split: sum.splits if_splits)
  have single_bad: "\<not> st < en \<longrightarrow>
      (\<forall>x. appendOfferRange E sender s i st en p n \<noteq> Inr x) \<and>
      execute s (E, sender, AppendOfferRange i st en p n) = s \<and>
      (i < length (offerCatalog s) \<and>
       validateRoles E sender (contractAddress (offerCatalog s ! i)) = Inr True \<longrightarrow>
         appendOfferRange E sender s i st en p n = Inl InvalidRangeBounds)"
    by (auto simp: appendOfferRange_def validateRangeInfo_def execute_def
          at_index_def split: sum.splits if_splits)
  have batch: "\<forall>s' log. appendOfferRangeBatch E sender s i starts ends prices names = Inr (s', log) \<longrightarrow>
      list_all2 (<) starts ends \<and>
      tokenRangeStart (offerCatalog s' ! i) = tokenRangeStart (offerCatalog s ! i) @ starts \<and>
      tokenRangeEnd (offerCatalog s' ! i) = tokenRangeEnd (offerCatalog s ! i) @ ends \<and>
      tokensAllowed (offerCatalog s' ! i) =
        tokensAllowed (offerCatalog s ! i) @ map2 (\<lambda>st en. en - st + 1) starts ends"
  proof (intro allI impI)
    fix s' log
    assume b: "appendOfferRangeBatch E sender s i starts ends prices names = Inr (s', log)"
    then have lens: "length starts = length names" "length ends = length names"
        "length prices = length names" and i: "i < length (offerCatalog s)"
      and l: "appendRanges_loop s i starts ends prices names = Inr (s', log)"
      by (auto simp: appendOfferRangeBatch_def at_index_def split: if_splits sum.splits)
    from appendRanges_loop_Inr [OF l lens i] i
    show "list_all2 (<) starts ends \<and>
      tokenRangeStart (offerCatalog s' ! i) = tokenRangeStart (offerCatalog s ! i) @ starts \<and>
      tokenRangeEnd (offerCatalog s' ! i) = tokenRangeEnd (offerCatalog s ! i) @ ends \<and>
      tokensAllowed (offerCatalog s' ! i) =
        tokensAllowed (offerCatalog s ! i) @ map2 (\<lambda>st en. en - st + 1) starts ends"
      by (simp add: push_ranges_def)
  qed
  have batch_bad: "\<not> list_all2 (<) starts ends \<longrightarrow>
      (\<forall>x. appendOfferRangeBatch E sender s i starts ends prices names \<noteq> Inr x) \<and>
      execute s (E, sender, AppendOfferRangeBatch i starts ends prices names) = s"
    using batch by (cases "appendOfferRangeBatch E sender s i starts ends prices names")
      (auto simp: execute_def)
  have add: "\<forall>s' log. addOffer E sender s a pidx starts ends prices names node = Inr (s', log) \<longrightarrow>
      list_all2 (<) starts ends \<and>
      offerCatalog s' = offerCatalog s @
        [\<lparr>contractAddress = a, nodeAddress = node, productIndex = pidx,
          tokenRangeStart = starts, tokenRangeEnd = ends,
          tokensAllowed = map2 (\<lambda>st en. en - st + 1) starts ends,
          rangePrice = prices, rangeName = names\<rparr>]"
  proof (intro allI impI)
    fix s' log
    assume b: "addOffer E sender s a pidx starts ends prices names node = Inr (s', log)"
    define new where "new = \<lparr>contractAddress = a, nodeAddress = node,
                                         productIndex = pidx, tokenRangeStart = [],
                                         tokenRangeEnd = [], tokensAllowed = [], rangePrice = [],
                                         rangeName = []\<rparr>"
    define s1 where "s1 = s\<lparr>offerCatalog := offerCatalog s @ [new]\<rparr>"
    from b have lens: "length starts = length names" "length ends = length names"
        "length prices = length names"
      by (auto simp: addOffer_def split: if_splits sum.splits option.splits)
    from b obtain s2 log2 where
      l: "appendRanges_loop s1 (length (offerCatalog s)) starts ends prices names = Inr (s2, log2)"
      and s': "offerCatalog s' = offerCatalog s2"
      by (auto simp: addOffer_def Let_def s1_def new_def
            split: if_splits sum.splits option.splits prod.splits)
    have i: "length (offerCatalog s) < length (offerCatalog s1)"
      by (simp add: s1_def)
    from appendRanges_loop_Inr [OF l lens i] s'
    show "list_all2 (<) starts ends \<and>
      offerCatalog s' = offerCatalog s @
        [\<lparr>contractAddress = a, nodeAddress = node, productIndex = pidx,
          tokenRangeStart = starts, tokenRangeEnd = ends,
          tokensAllowed = map2 (\<lambda>st en. en - st + 1) starts ends,
          rangePrice = prices, rangeName = names\<rparr>]"
      by (simp add: s1_def new_def push_ranges_def)
  qed
  have add_bad: "\<not> list_all2 (<) starts ends \<longrightarrow>
      (\<forall>x. addOffer E sender s a pidx starts ends prices names node \<noteq> Inr x) \<and>
      execute s (E, sender, AddOffer a pidx starts ends prices names node) = s"
    using add by (cases "addOffer E sender s a pidx starts ends prices names node")
      (auto simp: execute_def)
  from single single_bad batch batch_bad add add_bad show ?thesis
    by blast
qed

theorem created_range_supply_witness:
  "(case appendOfferRange example_env 5 example_market 0 11 20 7 ''b'' of
      Inl e \<Rightarrow> False
    | Inr (s', log) \<Rightarrow>
        tokenRangeStart (offerCatalog s' ! 0) = [1, 11] \<and>
        tokenRangeEnd (offerCatalog s' ! 0) = [10, 20] \<and>
        tokensAllowed (offerCatalog s' ! 0) = [10, 10]) \<and>
   appendOfferRange example_env 5 example_market 0 20 20 7 ''b'' = Inl InvalidRangeBounds \<and>
   (case appendOfferRangeBatch example_env 5 example_market 0 [11, 30] [20, 31] [7, 8]
           [''b'', ''c''] of
      Inl e \<Rightarrow> False
    | Inr (s', log) \<Rightarrow> tokensAllowed (offerCatalog s' ! 0) = [10, 10, 2]) \<and>
   execute example_market
     (example_env, 5, AppendOfferRangeBatch 0 [11, 31] [20, 30] [7, 8] [''b'', ''c''])
     = example_market \<and>
   (case addOffer example_env 5 (initialize 50 9000 1000) 77 0 [1] [10] [100] [''a''] 60 of
      Inl e \<Rightarrow> False
    | Inr (s', log) \<Rightarrow> map tokensAllowed (offerCatalog s') = [[10]]) \<and>
   execute (initialize 50 9000 1000)
     (example_env, 5, AddOffer 77 0 [1, 30] [10, 30] [7, 8] [''b'', ''c''] 60)
     = initialize 50 9000 1000"
  using created_range_supply [of example_env 5 example_market 0 11 20 7 "''b''"
           "[11, 30]" "[20, 31]" "[7, 8]" "[''b'', ''c'']" 77 0 60]
        created_range_supply [of example_env 5 example_market 0 20 20 7 "''b''"
           "[11, 31]" "[20, 30]" "[7, 8]" "[''b'', ''c'']" 77 0 60]
        created_range_supply [of example_env 5 "initialize 50 9000 1000" 0 20 20 7 "''b''"
           "[1]" "[10]" "[100]" "[''a'']" 77 0 60]
        created_range_supply [of example_env 5 "initialize 50 9000 1000" 0 20 20 7 "''b''"
           "[1, 30]" "[10, 30]" "[7, 8]" "[''b'', ''c'']" 77 0 60]
  unfolding example_append example_append_bad example_batch example_addOffer
  by (simp add: push_range_def push_ranges_def)

subsection \<open>Updating a range\<close>

text \<open>
  C5. \<open>updateOfferRange\<close> on an existing range fails with \<open>RangeExpansionNotAllowed\<close>
  unless \<open>endToken \<le> oldEnd\<close> and \<open>startToken \<ge> oldStart\<close>. When it succeeds it stores the
  new bounds, the price and the name, it takes
  \<open>(oldEnd - oldStart) - (endToken - startToken)\<close> from \<open>tokensAllowed\<close>, and its only
  action is the \<open>UpdatedOffer\<close> event with the new \<open>tokensAllowed\<close>. When it fails the
  storage stays as it was.
\<close>

theorem updateOfferRange_shrinks:
  assumes "i < length (offerCatalog s)" and "off = offerCatalog s ! i" and "wf_offer off"
    and "r < length (tokensAllowed off)"
  shows "(\<not> (en \<le> tokenRangeEnd off ! r \<and> st \<ge> tokenRangeStart off ! r) \<longrightarrow>
        updateOfferRange E sender s i r st en p n = Inl RangeExpansionNotAllowed) \<and>
     (\<forall>s' log. updateOfferRange E sender s i r st en p n = Inr (s', log) \<longrightarrow>
        en \<le> tokenRangeEnd off ! r \<and> st \<ge> tokenRangeStart off ! r \<and>
        tokenRangeStart (offerCatalog s' ! i) ! r = st \<and>
        tokenRangeEnd (offerCatalog s' ! i) ! r = en \<and>
        int (tokensAllowed (offerCatalog s' ! i) ! r) =
          int (tokensAllowed off ! r) -
            ((int (tokenRangeEnd off ! r) - int (tokenRangeStart off ! r)) - (int en - int st)) \<and>
        rangePrice (offerCatalog s' ! i) ! r = p \<and>
        rangeName (offerCatalog s' ! i) ! r = n \<and>
        log = [Emit (UpdatedOffer (contractAddress off) i r
                 (tokensAllowed (offerCatalog s' ! i) ! r) p n)]) \<and>
     (\<forall>e. updateOfferRange E sender s i r st en p n = Inl e \<longrightarrow>
        execute s (E, sender, UpdateOfferRange i r st en p n) = s)"
  using assms
  by (auto simp: updateOfferRange_def at_index_def wf_offer_def execute_def checked_sub_def
        validateRangeInfo_def Let_def split: sum.splits if_splits)

theorem updateOfferRange_shrinks_witness:
  "updateOfferRange example_env 5 example_market 0 0 1 11 100 ''a'' = Inl RangeExpansionNotAllowed \<and>
   execute example_market (example_env, 5, UpdateOfferRange 0 0 1 11 100 ''a'') = example_market \<and>
   (case updateOfferRange example_env 5 example_market 0 0 2 8 120 ''z'' of
      Inl e \<Rightarrow> False
    | Inr (s', log) \<Rightarrow>
        tokenRangeStart (offerCatalog s' ! 0) ! 0 = 2 \<and>
        tokenRangeEnd (offerCatalog s' ! 0) ! 0 = 8 \<and>
        tokensAllowed (offerCatalog s' ! 0) ! 0 = 7 \<and>
        log = [Emit (UpdatedOffer 77 0 0 7 120 ''z'')])"
  using updateOfferRange_shrinks [of 0 example_market example_offer 0 11 1 example_env 5 100 "''a''"]
        updateOfferRange_shrinks [of 0 example_market example_offer 0 8 2 example_env 5 120 "''z''"]
  by (simp add: example_update_expand example_update_shrink wf_offer_def)

subsection \<open>A successful purchase, step by step\<close>

lemma buyToken_checks_Inr:
  "buyToken_checks s v i r t = Inr off \<longleftrightarrow>
     i < length (offerCatalog s) \<and> off = offerCatalog s ! i \<and> contractAddress off \<noteq> 0 \<and>
     r < length (tokensAllowed off) \<and> 0 < tokensAllowed off ! r \<and>
     r < length (tokenRangeStart off) \<and> tokenRangeStart off ! r \<le> t \<and>
     r < length (tokenRangeEnd off) \<and> t \<le> tokenRangeEnd off ! r \<and>
     r < length (rangePrice off) \<and> rangePrice off ! r \<le> v"
  by (auto simp: buyToken_checks_def at_index_def)

lemma transfer_Inr:
  "transfer E (s, log) a x = Inr st \<longleftrightarrow>
     x \<le> balance s \<and> a \<noteq> self E \<and> accepts E a x \<and>
     st = (s\<lparr>balance := balance s - x\<rparr>, log @ [Transfer a x])"
  by (auto simp: transfer_def)

lemma creatorShare_Inr:
  "creatorShare price tf nf = Inr c \<longleftrightarrow>
     unat tf + unat nf < 2 ^ 16 \<and> price * (100000 - (unat tf + unat nf)) \<le> uint_max \<and>
     c = price * (100000 - (unat tf + unat nf)) div 100000"
proof -
  have u: "unat tf + unat nf < 2 ^ 16 \<Longrightarrow> unat (tf + nf) = unat tf + unat nf"
    by (simp add: unat_word_ariths)
  show ?thesis
    by (auto simp: creatorShare_def checked_add16_def checked_sub_def checked_mul_def u)
qed

lemma feeShare_Inr:
  "feeShare price fee = Inr x \<longleftrightarrow>
     price * unat fee \<le> uint_max \<and> x = price * unat fee div 100000"
  by (auto simp: feeShare_def checked_mul_def)

lemma buyToken_creator_Inr:
  "buyToken_creator E s off r = Inr (s1, log1) \<longleftrightarrow>
     (supportsInterface E (contractAddress off) = Some False \<and> s1 = s \<and> log1 = []) \<or>
     (supportsInterface E (contractAddress off) = Some True \<and> r < length (rangeName off) \<and>
      (\<exists>ca am c. royaltyInfo E (contractAddress off) 0 (rangePrice off ! r) (rangeName off ! r)
                    = Some (ca, am) \<and>
         creatorShare (rangePrice off ! r) (treasuryFee s) (nodeFee s) = Inr c \<and>
         c \<le> balance s \<and> ca \<noteq> self E \<and> accepts E ca c \<and>
         s1 = s\<lparr>balance := balance s - c\<rparr> \<and> log1 = [Transfer ca c]))"
  by (auto simp: buyToken_creator_def at_index_def transfer_Inr
        split: option.splits sum.splits)

lemma buyToken_fees_Inr:
  "buyToken_fees E sender v (s1, log1) off r = Inr (s2, log2) \<longleftrightarrow>
     rangePrice off ! r \<le> v \<and>
     (\<exists>t n. feeShare (rangePrice off ! r) (treasuryFee s1) = Inr t \<and>
        feeShare (rangePrice off ! r) (nodeFee s1) = Inr n \<and>
        v - rangePrice off ! r \<le> balance s1 \<and> sender \<noteq> self E \<and>
        accepts E sender (v - rangePrice off ! r) \<and>
        t \<le> balance s1 - (v - rangePrice off ! r) \<and> treasury s1 \<noteq> self E \<and>
        accepts E (treasury s1) t \<and>
        n \<le> balance s1 - (v - rangePrice off ! r) - t \<and> nodeAddress off \<noteq> self E \<and>
        accepts E (nodeAddress off) n \<and>
        s2 = s1\<lparr>balance := balance s1 - (v - rangePrice off ! r) - t - n\<rparr> \<and>
        log2 = log1 @ [Transfer sender (v - rangePrice off ! r), Transfer (treasury s1) t,
                       Transfer (nodeAddress off) n])"
  by (auto simp: buyToken_fees_def checked_sub_def transfer_def split: sum.splits if_splits)

lemma buyToken_settle_Inr:
  "buyToken_settle E sender (s, log) i r t = Inr (s', log') \<longleftrightarrow>
     (let off = offerCatalog s ! i;
          n = tokensAllowed off ! r - 1;
          off' = off\<lparr>tokensAllowed := (tokensAllowed off)[r := n]\<rparr>;
          s1 = s\<lparr>offerCatalog := (offerCatalog s)[i := off']\<rparr>
      in 1 \<le> tokensAllowed off ! r \<and>
         (tokensAllowed off' ! r = 0 \<longrightarrow> 1 \<le> openSales s) \<and>
         mint E (contractAddress off) sender (productIndex off) t \<and>
         s' = (if tokensAllowed off' ! r = 0 then s1\<lparr>openSales := openSales s - 1\<rparr> else s1) \<and>
         log' = log @ (if tokensAllowed off' ! r = 0
                       then [Emit (SoldOut (contractAddress off) i r)] else []) @
                [Mint_call s' (contractAddress off) sender (productIndex off) t,
                 Emit (TokenMinted sender (contractAddress off) i r t)])"
  by (auto simp: buyToken_settle_def checked_sub_def Let_def split: sum.splits)

subsection \<open>The arithmetic of the split\<close>

lemma split_dust:
  fixes p tf nf :: nat
  assumes "tf + nf \<le> 100000"
  shows "p * tf div 100000 + p * nf div 100000 + p * (100000 - (tf + nf)) div 100000 \<le> p"
    and "p \<le> p * tf div 100000 + p * nf div 100000 + p * (100000 - (tf + nf)) div 100000 + 2"
    and "p * tf div 100000 + p * nf div 100000 + p * (100000 - (tf + nf)) div 100000 = p
           \<longleftrightarrow> 100000 dvd p * tf \<and> 100000 dvd p * nf"
proof -
  define a where "a = p * tf"
  define b where "b = p * nf"
  define c where "c = p * (100000 - (tf + nf))"
  have e: "tf + nf + (100000 - (tf + nf)) = 100000"
    using assms by simp
  have "a + b + c = p * (tf + nf + (100000 - (tf + nf)))"
    unfolding a_def b_def c_def by (simp only: distrib_left)
  then have total: "a + b + c = 100000 * p"
    by (simp only: e mult.commute)
  have da: "a = 100000 * (a div 100000) + a mod 100000" by simp
  have db: "b = 100000 * (b div 100000) + b mod 100000" by simp
  have dc: "c = 100000 * (c div 100000) + c mod 100000" by simp
  have ra: "a mod 100000 < 100000" and rb: "b mod 100000 < 100000"
    and rc: "c mod 100000 < 100000" by simp_all
  show 1: "p * tf div 100000 + p * nf div 100000 + p * (100000 - (tf + nf)) div 100000 \<le> p"
    using total da db dc unfolding a_def [symmetric] b_def [symmetric] c_def [symmetric]
    by linarith
  show 2: "p \<le> p * tf div 100000 + p * nf div 100000 + p * (100000 - (tf + nf)) div 100000 + 2"
    using total da db dc ra rb rc unfolding a_def [symmetric] b_def [symmetric] c_def [symmetric]
    by linarith
  have "a div 100000 + b div 100000 + c div 100000 = p
          \<longleftrightarrow> a mod 100000 = 0 \<and> b mod 100000 = 0"
  proof
    assume "a div 100000 + b div 100000 + c div 100000 = p"
    then show "a mod 100000 = 0 \<and> b mod 100000 = 0"
      using total da db dc by linarith
  next
    assume z: "a mod 100000 = 0 \<and> b mod 100000 = 0"
    have "c mod 100000 = (100000 * p - (a + b)) mod 100000"
      using total by (metis add_diff_cancel_left')
    have "100000 dvd a" "100000 dvd b" using z by (simp_all add: dvd_eq_mod_eq_0)
    moreover have "100000 dvd a + b + c" using total by simp
    ultimately have "100000 dvd c"
      by (metis dvd_add_right_iff dvd_add)
    then have "c mod 100000 = 0" by (simp add: dvd_eq_mod_eq_0)
    then show "a div 100000 + b div 100000 + c div 100000 = p"
      using total da db dc z by linarith
  qed
  then show "p * tf div 100000 + p * nf div 100000 + p * (100000 - (tf + nf)) div 100000 = p
           \<longleftrightarrow> 100000 dvd p * tf \<and> 100000 dvd p * nf"
    unfolding a_def b_def c_def by (simp add: dvd_eq_mod_eq_0)
qed

lemma buyToken_fees_InrD:
  assumes "buyToken_fees E sender v (s1, log1) off r = Inr (s2, log2)"
    and "price = rangePrice off ! r"
    and "tAmt = price * unat (treasuryFee s1) div 100000"
    and "nAmt = price * unat (nodeFee s1) div 100000"
  shows "price \<le> v" and "(v - price) + tAmt + nAmt \<le> balance s1"
    and "s2 = s1\<lparr>balance := balance s1 - ((v - price) + tAmt + nAmt)\<rparr>"
    and "log2 = log1 @ [Transfer sender (v - price), Transfer (treasury s1) tAmt,
                       Transfer (nodeAddress off) nAmt]"
proof -
  from assms(1) obtain t n where
    p: "rangePrice off ! r \<le> v" and
    t: "feeShare (rangePrice off ! r) (treasuryFee s1) = Inr t" and
    n: "feeShare (rangePrice off ! r) (nodeFee s1) = Inr n" and
    b1: "v - rangePrice off ! r \<le> balance s1" and
    b2: "t \<le> balance s1 - (v - rangePrice off ! r)" and
    b3: "n \<le> balance s1 - (v - rangePrice off ! r) - t" and
    s2: "s2 = s1\<lparr>balance := balance s1 - (v - rangePrice off ! r) - t - n\<rparr>" and
    l2: "log2 = log1 @ [Transfer sender (v - rangePrice off ! r), Transfer (treasury s1) t,
                       Transfer (nodeAddress off) n]"
    unfolding buyToken_fees_Inr by blast
  from t have t': "t = tAmt" by (simp add: feeShare_Inr assms)
  from n have n': "n = nAmt" by (simp add: feeShare_Inr assms)
  show "price \<le> v" using p assms(2) by simp
  show "(v - price) + tAmt + nAmt \<le> balance s1"
    using b1 b2 b3 unfolding t' n' assms(2) by linarith
  have "balance s1 - (v - rangePrice off ! r) - t - n = balance s1 - ((v - price) + tAmt + nAmt)"
    unfolding t' n' assms(2) by linarith
  then show "s2 = s1\<lparr>balance := balance s1 - ((v - price) + tAmt + nAmt)\<rparr>"
    using s2 by simp
  show "log2 = log1 @ [Transfer sender (v - price), Transfer (treasury s1) tAmt,
                       Transfer (nodeAddress off) nAmt]"
    using l2 unfolding t' n' assms(2) by simp
qed

lemma buyToken_creator_InrD:
  assumes "buyToken_creator E s off r = Inr (s1, log1)"
    and "price = rangePrice off ! r"
    and "cAmt = price * (100000 - (unat (treasuryFee s) + unat (nodeFee s))) div 100000"
  shows "(supportsInterface E (contractAddress off) = Some False \<and> log1 = []) \<or>
         (supportsInterface E (contractAddress off) = Some True \<and>
          unat (treasuryFee s) + unat (nodeFee s) < 2 ^ 16 \<and>
          (\<exists>ca am. royaltyInfo E (contractAddress off) 0 price (rangeName off ! r) = Some (ca, am) \<and>
             log1 = [Transfer ca cAmt]))"
    and "paid_out log1 \<le> balance s"
    and "s1 = s\<lparr>balance := balance s - paid_out log1\<rparr>"
proof -
  note a = assms(1) [unfolded buyToken_creator_Inr creatorShare_Inr]
  show "(supportsInterface E (contractAddress off) = Some False \<and> log1 = []) \<or>
         (supportsInterface E (contractAddress off) = Some True \<and>
          unat (treasuryFee s) + unat (nodeFee s) < 2 ^ 16 \<and>
          (\<exists>ca am. royaltyInfo E (contractAddress off) 0 price (rangeName off ! r) = Some (ca, am) \<and>
             log1 = [Transfer ca cAmt]))"
    using a unfolding assms(2,3) by blast
  from a show "paid_out log1 \<le> balance s"
    by (elim disjE conjE exE) (simp_all add: paid_out_def)
  from a show "s1 = s\<lparr>balance := balance s - paid_out log1\<rparr>"
    by (elim disjE conjE exE) (simp_all add: paid_out_def)
qed


lemma buyToken_settle_InrD:
  assumes "buyToken_settle E sender (s, log) i r t = Inr (s', log')"
    and "off = offerCatalog s ! i" and "i < length (offerCatalog s)"
    and "r < length (tokensAllowed off)"
  shows "1 \<le> tokensAllowed off ! r"
    and "tokensAllowed off ! r = 1 \<longrightarrow> 1 \<le> openSales s"
    and "mint E (contractAddress off) sender (productIndex off) t"
    and "s' = s\<lparr>offerCatalog := (offerCatalog s)
                 [i := off\<lparr>tokensAllowed := (tokensAllowed off)[r := tokensAllowed off ! r - 1]\<rparr>],
               openSales := (if tokensAllowed off ! r = 1 then openSales s - 1 else openSales s)\<rparr>"
    and "log' = log @ (if tokensAllowed off ! r = 1
                       then [Emit (SoldOut (contractAddress off) i r)] else []) @
                [Mint_call s' (contractAddress off) sender (productIndex off) t,
                 Emit (TokenMinted sender (contractAddress off) i r t)]"
proof -
  note a = assms(1) [unfolded buyToken_settle_Inr Let_def, folded assms(2)]
  from a show pos: "1 \<le> tokensAllowed off ! r" by blast
  then have one: "tokensAllowed off ! r - 1 = 0 \<longleftrightarrow> tokensAllowed off ! r = 1"
    by auto
  from a show "tokensAllowed off ! r = 1 \<longrightarrow> 1 \<le> openSales s"
    using assms(4) one by simp
  from a show "mint E (contractAddress off) sender (productIndex off) t" by blast
  from a have "s' = (if tokensAllowed (off\<lparr>tokensAllowed := (tokensAllowed off)[r := tokensAllowed off ! r - 1]\<rparr>) ! r = 0
      then s\<lparr>offerCatalog := (offerCatalog s)
                 [i := off\<lparr>tokensAllowed := (tokensAllowed off)[r := tokensAllowed off ! r - 1]\<rparr>],
              openSales := openSales s - 1\<rparr>
      else s\<lparr>offerCatalog := (offerCatalog s)
                 [i := off\<lparr>tokensAllowed := (tokensAllowed off)[r := tokensAllowed off ! r - 1]\<rparr>]\<rparr>)"
    by blast
  then show "s' = s\<lparr>offerCatalog := (offerCatalog s)
                 [i := off\<lparr>tokensAllowed := (tokensAllowed off)[r := tokensAllowed off ! r - 1]\<rparr>],
               openSales := (if tokensAllowed off ! r = 1 then openSales s - 1 else openSales s)\<rparr>"
    using assms(4) one by simp
  from a have "log' = log @ (if tokensAllowed (off\<lparr>tokensAllowed := (tokensAllowed off)[r := tokensAllowed off ! r - 1]\<rparr>) ! r = 0
                       then [Emit (SoldOut (contractAddress off) i r)] else []) @
                [Mint_call s' (contractAddress off) sender (productIndex off) t,
                 Emit (TokenMinted sender (contractAddress off) i r t)]"
    by blast
  then show "log' = log @ (if tokensAllowed off ! r = 1
                       then [Emit (SoldOut (contractAddress off) i r)] else []) @
                [Mint_call s' (contractAddress off) sender (productIndex off) t,
                 Emit (TokenMinted sender (contractAddress off) i r t)]"
    using assms(4) one by simp
qed


lemma buyToken_stages:
  assumes "buyToken E sender v s i r t = Inr (s', log)"
  shows "\<exists>s1 log1 s2 log2.
     buyToken_checks s v i r t = Inr (offerCatalog s ! i) \<and>
     buyToken_creator E (s\<lparr>balance := balance s + v\<rparr>) (offerCatalog s ! i) r = Inr (s1, log1) \<and>
     buyToken_fees E sender v (s1, log1) (offerCatalog s ! i) r = Inr (s2, log2) \<and>
     buyToken_settle E sender (s2, log2) i r t = Inr (s', log)"
proof -
  from assms obtain off where c: "buyToken_checks s v i r t = Inr off"
    by (auto simp: buyToken_def Let_def split: sum.splits)
  then have off: "off = offerCatalog s ! i"
    by (simp add: buyToken_checks_Inr)
  from assms c obtain st1 where
    cr: "buyToken_creator E (s\<lparr>balance := balance s + v\<rparr>) off r = Inr st1"
    by (auto simp: buyToken_def Let_def split: sum.splits)
  from assms c cr obtain st2 where
    f: "buyToken_fees E sender v st1 off r = Inr st2"
    by (auto simp: buyToken_def Let_def split: sum.splits)
  from assms c cr f have se: "buyToken_settle E sender st2 i r t = Inr (s', log)"
    by (auto simp: buyToken_def Let_def split: sum.splits)
  show ?thesis
    using c cr f se off by (cases st1, cases st2) auto
qed

text \<open>What a successful purchase has done, in full.\<close>

lemma buyToken_Inr:
  assumes ok: "buyToken E sender v s i r t = Inr (s', log)"
    and off_def: "off = offerCatalog s ! i"
    and price_def: "price = rangePrice off ! r"
    and tAmt_def: "tAmt = price * unat (treasuryFee s) div 100000"
    and nAmt_def: "nAmt = price * unat (nodeFee s) div 100000"
    and cAmt_def: "cAmt = price * (100000 - (unat (treasuryFee s) + unat (nodeFee s))) div 100000"
  shows "i < length (offerCatalog s) \<and> contractAddress off \<noteq> 0 \<and>
     r < length (tokensAllowed off) \<and> 0 < tokensAllowed off ! r \<and>
     tokenRangeStart off ! r \<le> t \<and> t \<le> tokenRangeEnd off ! r \<and> price \<le> v"
   and "tokensAllowed off ! r = 1 \<longrightarrow> 1 \<le> openSales s"
   and "\<exists>creator_part.
        ((supportsInterface E (contractAddress off) = Some False \<and> creator_part = []) \<or>
         (supportsInterface E (contractAddress off) = Some True \<and>
          unat (treasuryFee s) + unat (nodeFee s) < 2 ^ 16 \<and>
          (\<exists>ca am. royaltyInfo E (contractAddress off) 0 price (rangeName off ! r) = Some (ca, am) \<and>
             creator_part = [Transfer ca cAmt]))) \<and>
        log = creator_part @
              [Transfer sender (v - price), Transfer (treasury s) tAmt,
               Transfer (nodeAddress off) nAmt] @
              (if tokensAllowed off ! r = 1
               then [Emit (SoldOut (contractAddress off) i r)] else []) @
              [Mint_call s' (contractAddress off) sender (productIndex off) t,
               Emit (TokenMinted sender (contractAddress off) i r t)] \<and>
        paid_out creator_part + ((v - price) + tAmt + nAmt) \<le> balance s + v \<and>
        s' = s\<lparr>balance := balance s + v - (paid_out creator_part + ((v - price) + tAmt + nAmt)),
               offerCatalog := (offerCatalog s)
                 [i := off\<lparr>tokensAllowed := (tokensAllowed off)[r := tokensAllowed off ! r - 1]\<rparr>],
               openSales := (if tokensAllowed off ! r = 1 then openSales s - 1 else openSales s)\<rparr>"
proof -
  define s0 where "s0 = s\<lparr>balance := balance s + v\<rparr>"
  from buyToken_stages [OF ok] obtain s1 log1 s2 log2 where
    c: "buyToken_checks s v i r t = Inr off" and
    cr: "buyToken_creator E s0 off r = Inr (s1, log1)" and
    f: "buyToken_fees E sender v (s1, log1) off r = Inr (s2, log2)" and
    se: "buyToken_settle E sender (s2, log2) i r t = Inr (s', log)"
    unfolding off_def s0_def by blast
  note c' = c [unfolded buyToken_checks_Inr]
  have s0: "treasuryFee s0 = treasuryFee s" "nodeFee s0 = nodeFee s"
    "balance s0 = balance s + v"
    by (simp_all add: s0_def)
  have cAmt0: "cAmt = price * (100000 - (unat (treasuryFee s0) + unat (nodeFee s0))) div 100000"
    by (simp add: cAmt_def s0)
  note crD = buyToken_creator_InrD [OF cr price_def cAmt0]
  have s1: "treasuryFee s1 = treasuryFee s" "nodeFee s1 = nodeFee s" "treasury s1 = treasury s"
    "offerCatalog s1 = offerCatalog s" "openSales s1 = openSales s"
    "balance s1 = balance s + v - paid_out log1"
    by (simp_all add: crD(3) s0_def)
  have t1: "tAmt = price * unat (treasuryFee s1) div 100000"
    and n1: "nAmt = price * unat (nodeFee s1) div 100000"
    by (simp_all add: tAmt_def nAmt_def s1)
  note fD = buyToken_fees_InrD [OF f price_def t1 n1]
  have s2: "offerCatalog s2 = offerCatalog s" "openSales s2 = openSales s"
    by (simp_all add: fD(3) s1)
  have r: "r < length (tokensAllowed off)" using c' by blast
  have i: "i < length (offerCatalog s)" using c' by blast
  have off2: "off = offerCatalog s2 ! i" by (simp add: s2 off_def)
  have i2: "i < length (offerCatalog s2)" by (simp add: s2 i)
  note seD = buyToken_settle_InrD [OF se off2 i2 r]
  show "i < length (offerCatalog s) \<and> contractAddress off \<noteq> 0 \<and>
     r < length (tokensAllowed off) \<and> 0 < tokensAllowed off ! r \<and>
     tokenRangeStart off ! r \<le> t \<and> t \<le> tokenRangeEnd off ! r \<and> price \<le> v"
    using c' unfolding price_def by blast
  show "tokensAllowed off ! r = 1 \<longrightarrow> 1 \<le> openSales s"
    using seD(2) by (simp add: s2)
  have bal: "paid_out log1 + ((v - price) + tAmt + nAmt) \<le> balance s + v"
    using fD(2) crD(2) unfolding s1 s0 by linarith
  have beq: "balance s1 - ((v - price) + tAmt + nAmt)
      = balance s + v - (paid_out log1 + ((v - price) + tAmt + nAmt))"
    unfolding s1 by linarith
  have s2eq: "s2 = s\<lparr>balance := balance s + v - (paid_out log1 + ((v - price) + tAmt + nAmt))\<rparr>"
    unfolding fD(3) beq by (simp add: crD(3) s0_def)
  have s'eq: "s' = s\<lparr>balance := balance s + v - (paid_out log1 + ((v - price) + tAmt + nAmt)),
               offerCatalog := (offerCatalog s)
                 [i := off\<lparr>tokensAllowed := (tokensAllowed off)[r := tokensAllowed off ! r - 1]\<rparr>],
               openSales := (if tokensAllowed off ! r = 1 then openSales s - 1 else openSales s)\<rparr>"
    unfolding seD(4) by (simp add: s2eq)
  have logeq: "log = log1 @
              [Transfer sender (v - price), Transfer (treasury s) tAmt,
               Transfer (nodeAddress off) nAmt] @
              (if tokensAllowed off ! r = 1
               then [Emit (SoldOut (contractAddress off) i r)] else []) @
              [Mint_call s' (contractAddress off) sender (productIndex off) t,
               Emit (TokenMinted sender (contractAddress off) i r t)]"
    unfolding seD(5) fD(4) s1 by simp
  have cp: "(supportsInterface E (contractAddress off) = Some False \<and> log1 = []) \<or>
         (supportsInterface E (contractAddress off) = Some True \<and>
          unat (treasuryFee s) + unat (nodeFee s) < 2 ^ 16 \<and>
          (\<exists>ca am. royaltyInfo E (contractAddress off) 0 price (rangeName off ! r) = Some (ca, am) \<and>
             log1 = [Transfer ca cAmt]))"
    using crD(1) unfolding s0 .
  show "\<exists>creator_part.
        ((supportsInterface E (contractAddress off) = Some False \<and> creator_part = []) \<or>
         (supportsInterface E (contractAddress off) = Some True \<and>
          unat (treasuryFee s) + unat (nodeFee s) < 2 ^ 16 \<and>
          (\<exists>ca am. royaltyInfo E (contractAddress off) 0 price (rangeName off ! r) = Some (ca, am) \<and>
             creator_part = [Transfer ca cAmt]))) \<and>
        log = creator_part @
              [Transfer sender (v - price), Transfer (treasury s) tAmt,
               Transfer (nodeAddress off) nAmt] @
              (if tokensAllowed off ! r = 1
               then [Emit (SoldOut (contractAddress off) i r)] else []) @
              [Mint_call s' (contractAddress off) sender (productIndex off) t,
               Emit (TokenMinted sender (contractAddress off) i r t)] \<and>
        paid_out creator_part + ((v - price) + tAmt + nAmt) \<le> balance s + v \<and>
        s' = s\<lparr>balance := balance s + v - (paid_out creator_part + ((v - price) + tAmt + nAmt)),
               offerCatalog := (offerCatalog s)
                 [i := off\<lparr>tokensAllowed := (tokensAllowed off)[r := tokensAllowed off ! r - 1]\<rparr>],
               openSales := (if tokensAllowed off ! r = 1 then openSales s - 1 else openSales s)\<rparr>"
    apply (rule exI [where x = log1])
    apply (intro conjI)
       apply (rule cp)
      apply (rule logeq)
     apply (rule bal)
    apply (rule s'eq)
    done
qed

subsection \<open>Conservation of the payment\<close>

lemma transfers_append [simp]: "transfers (xs @ ys) = transfers xs @ transfers ys"
  by (induction xs rule: transfers.induct) simp_all

lemma royalty_env_simps [simp]:
  "self royalty_env = 1000"
  "supportsInterface royalty_env a = Some True"
  "royaltyInfo royalty_env a k p n = Some (7, 0)"
  "mint royalty_env a b p t = True"
  "accepts royalty_env a v = True"
  by (simp_all add: royalty_env_def example_env_def)

lemma odd_market_simps [simp]:
  "offerCatalog odd_market = [example_offer\<lparr>rangePrice := [101]\<rparr>]"
  "openSales odd_market = 1"
  "treasury odd_market = 50"
  "treasuryFee odd_market = 9000"
  "nodeFee odd_market = 1000"
  "balance odd_market = 0"
  by (simp_all add: odd_market_def)

lemma example_shares:
  "creatorShare 101 9000 1000 = Inr 90" "feeShare 101 9000 = Inr 9" "feeShare 101 1000 = Inr 1"
  by (simp_all add: creatorShare_Inr feeShare_Inr)

lemma odd_purchase:
  "buyToken royalty_env 9 101 odd_market 0 0 5 =
     Inr (odd_market\<lparr>balance := 1,
            offerCatalog := [example_offer\<lparr>rangePrice := [101], tokensAllowed := [9]\<rparr>]\<rparr>,
          [Transfer 7 90, Transfer 9 0, Transfer 50 9, Transfer 60 1,
           Mint_call (odd_market\<lparr>balance := 1,
              offerCatalog := [example_offer\<lparr>rangePrice := [101], tokensAllowed := [9]\<rparr>]\<rparr>)
             77 9 0 5,
           Emit (TokenMinted 9 77 0 0 5)])"
  by (simp add: buyToken_def buyToken_checks_def buyToken_creator_def buyToken_fees_def
        buyToken_settle_def transfer_def at_index_def checked_sub_def example_shares Let_def)


text \<open>
  C2, as stated, fails: the three shares are truncating divisions, and the remainders
  stay in the contract. At price 101 with fees 9000 and 1000 the creator gets 90, the
  treasury 9 and the node 1; with a refund of 0 that is 100 of the 101 paid.
\<close>

theorem split_conservation_counterexample:
  "supportsInterface royalty_env (contractAddress (offerCatalog odd_market ! 0)) = Some True \<and>
   buyToken royalty_env 9 101 odd_market 0 0 5 =
     Inr (odd_market\<lparr>balance := 1,
            offerCatalog := [example_offer\<lparr>rangePrice := [101], tokensAllowed := [9]\<rparr>]\<rparr>,
          [Transfer 7 90, Transfer 9 0, Transfer 50 9, Transfer 60 1,
           Mint_call (odd_market\<lparr>balance := 1,
              offerCatalog := [example_offer\<lparr>rangePrice := [101], tokensAllowed := [9]\<rparr>]\<rparr>)
             77 9 0 5,
           Emit (TokenMinted 9 77 0 0 5)]) \<and>
   creatorShare 101 (treasuryFee odd_market) (nodeFee odd_market) = Inr 90 \<and>
   feeShare 101 (treasuryFee odd_market) = Inr 9 \<and>
   feeShare 101 (nodeFee odd_market) = Inr 1 \<and>
   (9::nat) + 1 + 90 + (101 - 101) \<noteq> 101"
  by (simp add: odd_purchase example_shares)

text \<open>
  C2, amended. In every successful purchase on a collection with the royalty interface
  the transfers are, in order, the creator's share, the refund, the treasury's share and
  the node's share, each with the stated truncating formula. Their sum is at most the
  amount paid and at least the amount paid less 2; it is the amount paid exactly when
  100000 divides both \<open>price * treasuryFee\<close> and \<open>price * nodeFee\<close>.
\<close>

theorem split_conservation_up_to_truncation:
  assumes "buyToken E sender v s i r t = Inr (s', log)"
    and "supportsInterface E (contractAddress (offerCatalog s ! i)) = Some True"
    and "off = offerCatalog s ! i" and "price = rangePrice off ! r"
    and "treasuryAmount = price * unat (treasuryFee s) div 100000"
    and "nodeAmount = price * unat (nodeFee s) div 100000"
    and "creatorAmount =
           price * (100000 - (unat (treasuryFee s) + unat (nodeFee s))) div 100000"
    and "refund = v - price"
  shows "price \<le> v \<and>
     (\<exists>ca. transfers log = [(ca, creatorAmount), (sender, refund),
                            (treasury s, treasuryAmount), (nodeAddress off, nodeAmount)]) \<and>
     treasuryAmount + nodeAmount + creatorAmount + refund \<le> v \<and>
     v \<le> treasuryAmount + nodeAmount + creatorAmount + refund + 2 \<and>
     (treasuryAmount + nodeAmount + creatorAmount + refund = v \<longleftrightarrow>
        100000 dvd price * unat (treasuryFee s) \<and> 100000 dvd price * unat (nodeFee s))"
proof -
  note b = buyToken_Inr [OF assms(1) assms(3) assms(4) assms(5) assms(6) assms(7)]
  from b(1) have pv: "price \<le> v" by blast
  from b(3) obtain cp where
    d: "(supportsInterface E (contractAddress off) = Some False \<and> cp = []) \<or>
         (supportsInterface E (contractAddress off) = Some True \<and>
          unat (treasuryFee s) + unat (nodeFee s) < 2 ^ 16 \<and>
          (\<exists>ca am. royaltyInfo E (contractAddress off) 0 price (rangeName off ! r) = Some (ca, am) \<and>
             cp = [Transfer ca creatorAmount]))" and
    log0: "log = cp @
              [Transfer sender (v - price), Transfer (treasury s) treasuryAmount,
               Transfer (nodeAddress off) nodeAmount] @
              (if tokensAllowed off ! r = 1
               then [Emit (SoldOut (contractAddress off) i r)] else []) @
              [Mint_call s' (contractAddress off) sender (productIndex off) t,
               Emit (TokenMinted sender (contractAddress off) i r t)]"
    by (elim exE conjE)
  have sup: "supportsInterface E (contractAddress off) = Some True"
    using assms(2) unfolding assms(3) .
  from d sup obtain ca where
    fees: "unat (treasuryFee s) + unat (nodeFee s) < 2 ^ 16" and
    cp: "cp = [Transfer ca creatorAmount]"
    by (elim disjE conjE exE) simp_all
  have tr: "transfers log = [(ca, creatorAmount), (sender, refund),
                            (treasury s, treasuryAmount), (nodeAddress off, nodeAmount)]"
    unfolding log0 cp assms(8) by simp
  have le: "unat (treasuryFee s) + unat (nodeFee s) \<le> 100000"
    using fees by simp
  note d = split_dust [OF le, of price]
  have 1: "treasuryAmount + nodeAmount + creatorAmount + refund \<le> v"
    using d(1) pv unfolding assms(5-8) by linarith
  have 2: "v \<le> treasuryAmount + nodeAmount + creatorAmount + refund + 2"
    using d(2) pv unfolding assms(5-8) by linarith
  have "treasuryAmount + nodeAmount + creatorAmount + refund = v \<longleftrightarrow>
       treasuryAmount + nodeAmount + creatorAmount = price"
    using pv unfolding assms(8) by linarith
  then have 3: "treasuryAmount + nodeAmount + creatorAmount + refund = v \<longleftrightarrow>
        100000 dvd price * unat (treasuryFee s) \<and> 100000 dvd price * unat (nodeFee s)"
    using d(3) unfolding assms(5-7) by simp
  show ?thesis
    apply (intro conjI)
        apply (rule pv)
       apply (rule exI [where x = ca], rule tr)
      apply (rule 1)
     apply (rule 2)
    apply (rule 3)
    done
qed

theorem split_conservation_up_to_truncation_witness:
  "transfers [Transfer 7 90, Transfer 9 0, Transfer 50 9, Transfer 60 1,
           Mint_call (odd_market\<lparr>balance := 1,
              offerCatalog := [example_offer\<lparr>rangePrice := [101], tokensAllowed := [9]\<rparr>]\<rparr>)
             77 9 0 5,
           Emit (TokenMinted 9 77 0 0 5)] = [(7, 90), (9, 0), (50, 9), (60, 1)] \<and>
   (9::nat) + 1 + 90 + 0 \<le> 101 \<and> (101::nat) \<le> 9 + 1 + 90 + 0 + 2 \<and>
   (9::nat) + 1 + 90 + 0 \<noteq> 101"
proof -
  have sup: "supportsInterface royalty_env (contractAddress (offerCatalog odd_market ! 0)) = Some True"
    by simp
  have off: "example_offer\<lparr>rangePrice := [101]\<rparr> = offerCatalog odd_market ! 0"
    by simp
  have price: "101 = rangePrice (example_offer\<lparr>rangePrice := [101]\<rparr>) ! 0"
    by simp
  have t: "9 = 101 * unat (treasuryFee odd_market) div 100000"
    by simp
  have n: "1 = 101 * unat (nodeFee odd_market) div 100000"
    by simp
  have c: "90 = 101 * (100000 - (unat (treasuryFee odd_market) + unat (nodeFee odd_market)))
                  div 100000"
    by simp
  have refund: "(0::nat) = 101 - 101"
    by simp
  have nd: "\<not> (100000::nat) dvd 101 * unat (treasuryFee odd_market)"
    by simp
  from split_conservation_up_to_truncation [OF odd_purchase sup off price t n c refund] nd
  show ?thesis
    by simp
qed

subsection \<open>The creator's payment\<close>

lemma feeShare_eval:
  "price * unat fee \<le> uint_max \<Longrightarrow> feeShare price fee = Inr (price * unat fee div 100000)"
  by (simp add: feeShare_def checked_mul_def)

lemma example_purchase:
  "buyToken example_env 9 100 example_market 0 0 5 =
     Inr (example_market\<lparr>balance := 90,
            offerCatalog := [example_offer\<lparr>tokensAllowed := [9]\<rparr>]\<rparr>,
          [Transfer 9 0, Transfer 50 9, Transfer 60 1,
           Mint_call (example_market\<lparr>balance := 90,
              offerCatalog := [example_offer\<lparr>tokensAllowed := [9]\<rparr>]\<rparr>) 77 9 0 5,
           Emit (TokenMinted 9 77 0 0 5)])"
  by (simp add: buyToken_def buyToken_checks_def buyToken_creator_def buyToken_fees_def
        buyToken_settle_def transfer_def at_index_def checked_sub_def feeShare_eval Let_def)

text \<open>
  The transfers of a successful purchase, with and without the royalty interface, and
  what then stays in the contract's balance.
\<close>

lemma creator_transfers_of_purchase:
  assumes "buyToken E sender v s i r t = Inr (s', log)"
    and "off = offerCatalog s ! i" and "price = rangePrice off ! r"
    and "treasuryAmount = price * unat (treasuryFee s) div 100000"
    and "nodeAmount = price * unat (nodeFee s) div 100000"
    and "creatorAmount =
           price * (100000 - (unat (treasuryFee s) + unat (nodeFee s))) div 100000"
  shows "(supportsInterface E (contractAddress off) = Some True \<longrightarrow>
       (\<exists>receiver amount.
          royaltyInfo E (contractAddress off) 0 price (rangeName off ! r)
            = Some (receiver, amount) \<and>
          transfers log = [(receiver, creatorAmount), (sender, v - price),
                           (treasury s, treasuryAmount), (nodeAddress off, nodeAmount)])) \<and>
     (supportsInterface E (contractAddress off) \<noteq> Some True \<longrightarrow>
        supportsInterface E (contractAddress off) = Some False \<and>
        transfers log = [(sender, v - price), (treasury s, treasuryAmount),
                         (nodeAddress off, nodeAmount)] \<and>
        int (balance s') = int (balance s) + int price - int treasuryAmount - int nodeAmount \<and>
        (unat (treasuryFee s) + unat (nodeFee s) \<le> 100000 \<longrightarrow>
           balance s + creatorAmount \<le> balance s'))"
proof -
  note b = buyToken_Inr [OF assms]
  from b(1) have pv: "price \<le> v" by blast
  from b(3) obtain cp where
    d: "(supportsInterface E (contractAddress off) = Some False \<and> cp = []) \<or>
         (supportsInterface E (contractAddress off) = Some True \<and>
          unat (treasuryFee s) + unat (nodeFee s) < 2 ^ 16 \<and>
          (\<exists>ca am. royaltyInfo E (contractAddress off) 0 price (rangeName off ! r) = Some (ca, am) \<and>
             cp = [Transfer ca creatorAmount]))" and
    log0: "log = cp @
              [Transfer sender (v - price), Transfer (treasury s) treasuryAmount,
               Transfer (nodeAddress off) nodeAmount] @
              (if tokensAllowed off ! r = 1
               then [Emit (SoldOut (contractAddress off) i r)] else []) @
              [Mint_call s' (contractAddress off) sender (productIndex off) t,
               Emit (TokenMinted sender (contractAddress off) i r t)]" and
    bal: "paid_out cp + ((v - price) + treasuryAmount + nodeAmount) \<le> balance s + v" and
    s': "s' = s\<lparr>balance := balance s + v -
                 (paid_out cp + ((v - price) + treasuryAmount + nodeAmount)),
               offerCatalog := (offerCatalog s)
                 [i := off\<lparr>tokensAllowed := (tokensAllowed off)[r := tokensAllowed off ! r - 1]\<rparr>],
               openSales := (if tokensAllowed off ! r = 1 then openSales s - 1 else openSales s)\<rparr>"
    by (elim exE conjE)
  have tr: "transfers log = transfers cp @ [(sender, v - price), (treasury s, treasuryAmount),
                           (nodeAddress off, nodeAmount)]"
    unfolding log0 by simp
  have yes: "supportsInterface E (contractAddress off) = Some True \<longrightarrow>
       (\<exists>receiver amount.
          royaltyInfo E (contractAddress off) 0 price (rangeName off ! r)
            = Some (receiver, amount) \<and>
          transfers log = [(receiver, creatorAmount), (sender, v - price),
                           (treasury s, treasuryAmount), (nodeAddress off, nodeAmount)])"
  proof
    assume sup: "supportsInterface E (contractAddress off) = Some True"
    with d obtain ca am where
      ri: "royaltyInfo E (contractAddress off) 0 price (rangeName off ! r) = Some (ca, am)"
      and cp: "cp = [Transfer ca creatorAmount]"
      by (elim disjE conjE exE) simp_all
    show "\<exists>receiver amount.
          royaltyInfo E (contractAddress off) 0 price (rangeName off ! r)
            = Some (receiver, amount) \<and>
          transfers log = [(receiver, creatorAmount), (sender, v - price),
                           (treasury s, treasuryAmount), (nodeAddress off, nodeAmount)]"
      using ri tr unfolding cp by simp
  qed
  have no: "supportsInterface E (contractAddress off) \<noteq> Some True \<longrightarrow>
        supportsInterface E (contractAddress off) = Some False \<and>
        transfers log = [(sender, v - price), (treasury s, treasuryAmount),
                         (nodeAddress off, nodeAmount)] \<and>
        int (balance s') = int (balance s) + int price - int treasuryAmount - int nodeAmount \<and>
        (unat (treasuryFee s) + unat (nodeFee s) \<le> 100000 \<longrightarrow>
           balance s + creatorAmount \<le> balance s')"
  proof
    assume nsup: "supportsInterface E (contractAddress off) \<noteq> Some True"
    with d have sf: "supportsInterface E (contractAddress off) = Some False" and cp: "cp = []"
      by (elim disjE conjE exE; simp)+
    have p0: "paid_out cp = 0" by (simp add: cp paid_out_def)
    have bs: "balance s' = balance s + v - ((v - price) + treasuryAmount + nodeAmount)"
      unfolding s' p0 by simp
    have bi: "int (balance s') = int (balance s) + int price - int treasuryAmount - int nodeAmount"
      using bal pv unfolding bs p0 by linarith
    have kept: "unat (treasuryFee s) + unat (nodeFee s) \<le> 100000 \<longrightarrow>
           balance s + creatorAmount \<le> balance s'"
    proof
      assume le: "unat (treasuryFee s) + unat (nodeFee s) \<le> 100000"
      from split_dust(1) [OF le, of price]
      have "treasuryAmount + nodeAmount + creatorAmount \<le> price"
        unfolding assms(4-6) .
      then show "balance s + creatorAmount \<le> balance s'"
        using bi by linarith
    qed
    show "supportsInterface E (contractAddress off) = Some False \<and>
        transfers log = [(sender, v - price), (treasury s, treasuryAmount),
                         (nodeAddress off, nodeAmount)] \<and>
        int (balance s') = int (balance s) + int price - int treasuryAmount - int nodeAmount \<and>
        (unat (treasuryFee s) + unat (nodeFee s) \<le> 100000 \<longrightarrow>
           balance s + creatorAmount \<le> balance s')"
      apply (intro conjI)
         apply (rule sf)
        apply (simp add: tr cp)
       apply (rule bi)
      apply (rule kept)
      done
  qed
  show ?thesis
    by (rule conjI [OF yes no])
qed

lemma buyToken_from_stages:
  assumes "buyToken_checks s v i r t = Inr off"
    and "buyToken_creator E (s\<lparr>balance := balance s + v\<rparr>) off r = Inr (s1, log1)"
    and "buyToken_fees E sender v (s1, log1) off r = Inr (s2, log2)"
    and "buyToken_settle E sender (s2, log2) i r t = Inr (s', log)"
  shows "buyToken E sender v s i r t = Inr (s', log)"
  by (simp add: buyToken_def Let_def assms)

text \<open>
  The part of the price that the treasury and the node do not get is at least the
  creator's share, read over the integers, whatever the two fees are.
\<close>

lemma creator_share_le_rest:
  fixes p a b :: nat
  shows "int p * (100000 - (int a + int b)) div 100000
           \<le> int p - int (p * a div 100000) - int (p * b div 100000)"
proof -
  have "p * a div 100000 * 100000 \<le> p * a" by (rule div_times_less_eq_dividend)
  then have qa: "100000 * int (p * a div 100000) \<le> int p * int a"
    by (metis (no_types) mult.commute of_nat_le_iff of_nat_mult of_nat_numeral)
  have "p * b div 100000 * 100000 \<le> p * b" by (rule div_times_less_eq_dividend)
  then have qb: "100000 * int (p * b div 100000) \<le> int p * int b"
    by (metis (no_types) mult.commute of_nat_le_iff of_nat_mult of_nat_numeral)
  have "int p * (100000 - (int a + int b))
          \<le> 100000 * (int p - int (p * a div 100000) - int (p * b div 100000))"
    using qa qb by (simp add: algebra_simps)
  then have "int p * (100000 - (int a + int b)) div 100000
          \<le> 100000 * (int p - int (p * a div 100000) - int (p * b div 100000)) div 100000"
    by (rule zdiv_mono1) simp
  then show ?thesis by simp
qed


text \<open>
  When a purchase succeeds: the requirements pass, the creator stage has paid \<open>log1\<close>,
  the fee products do not overflow, the balance covers the transfers, the receivers
  accept them, and \<open>mint\<close> succeeds.
\<close>

lemma buyToken_succeeds:
  assumes off: "off = offerCatalog s ! i" and price: "price = rangePrice off ! r"
    and tAmt: "tAmt = price * unat (treasuryFee s) div 100000"
    and nAmt: "nAmt = price * unat (nodeFee s) div 100000"
    and i: "i < length (offerCatalog s)" and live: "contractAddress off \<noteq> 0"
    and wf: "wf_offer off" and r: "r < length (tokensAllowed off)"
    and pos: "0 < tokensAllowed off ! r"
    and inside: "tokenRangeStart off ! r \<le> t" "t \<le> tokenRangeEnd off ! r"
    and pv: "price \<le> v"
    and cr: "buyToken_creator E (s\<lparr>balance := balance s + v\<rparr>) off r
               = Inr (s\<lparr>balance := balance s + v - paid_out log1\<rparr>, log1)"
    and mul: "price * unat (treasuryFee s) \<le> uint_max" "price * unat (nodeFee s) \<le> uint_max"
    and bal: "paid_out log1 + ((v - price) + tAmt + nAmt) \<le> balance s + v"
    and acc: "sender \<noteq> self E" "accepts E sender (v - price)"
      "treasury s \<noteq> self E" "accepts E (treasury s) tAmt"
      "nodeAddress off \<noteq> self E" "accepts E (nodeAddress off) nAmt"
    and os: "tokensAllowed off ! r = 1 \<longrightarrow> 1 \<le> openSales s"
    and mint: "mint E (contractAddress off) sender (productIndex off) t"
    and s': "s' = s\<lparr>balance := balance s + v - (paid_out log1 + ((v - price) + tAmt + nAmt)),
               offerCatalog := (offerCatalog s)
                 [i := off\<lparr>tokensAllowed := (tokensAllowed off)[r := tokensAllowed off ! r - 1]\<rparr>],
               openSales := (if tokensAllowed off ! r = 1 then openSales s - 1 else openSales s)\<rparr>"
  shows "buyToken E sender v s i r t =
     Inr (s', log1 @
              [Transfer sender (v - price), Transfer (treasury s) tAmt,
               Transfer (nodeAddress off) nAmt] @
              (if tokensAllowed off ! r = 1
               then [Emit (SoldOut (contractAddress off) i r)] else []) @
              [Mint_call s' (contractAddress off) sender (productIndex off) t,
               Emit (TokenMinted sender (contractAddress off) i r t)])"
proof -
  define s1 where "s1 = s\<lparr>balance := balance s + v - paid_out log1\<rparr>"
  define s2 where "s2 = s1\<lparr>balance := balance s1 - (v - price) - tAmt - nAmt\<rparr>"
  define log2 where "log2 = log1 @ [Transfer sender (v - price), Transfer (treasury s) tAmt,
                       Transfer (nodeAddress off) nAmt]"
  have c: "buyToken_checks s v i r t = Inr off"
    unfolding buyToken_checks_Inr
    using i live r pos inside pv wf unfolding off price wf_offer_def by simp
  have s1f: "treasuryFee s1 = treasuryFee s" "nodeFee s1 = nodeFee s" "treasury s1 = treasury s"
    "balance s1 = balance s + v - paid_out log1" "offerCatalog s1 = offerCatalog s"
    "openSales s1 = openSales s"
    by (simp_all add: s1_def)
  have b1: "v - price \<le> balance s1" "tAmt \<le> balance s1 - (v - price)"
    "nAmt \<le> balance s1 - (v - price) - tAmt"
    using bal unfolding s1f by linarith+
  have f: "buyToken_fees E sender v (s1, log1) off r = Inr (s2, log2)"
    unfolding buyToken_fees_Inr feeShare_Inr s1f
    apply (intro conjI)
     apply (rule pv [unfolded price])
    apply (rule exI [where x = tAmt], rule exI [where x = nAmt])
    using mul acc b1 unfolding s1f price tAmt nAmt s2_def log2_def s1f
    apply simp
    done
  have s2f: "offerCatalog s2 = offerCatalog s" "openSales s2 = openSales s"
    by (simp_all add: s2_def s1f)
  have one: "tokensAllowed off ! r - 1 = 0 \<longleftrightarrow> tokensAllowed off ! r = 1"
    using pos by auto
  have beq: "balance s1 - (v - price) - tAmt - nAmt
      = balance s + v - (paid_out log1 + ((v - price) + tAmt + nAmt))"
    unfolding s1f by linarith
  have s'2: "s' = s2\<lparr>offerCatalog := (offerCatalog s2)
                 [i := off\<lparr>tokensAllowed := (tokensAllowed off)[r := tokensAllowed off ! r - 1]\<rparr>],
               openSales := (if tokensAllowed off ! r = 1 then openSales s2 - 1 else openSales s2)\<rparr>"
    unfolding s' s2_def beq s1_def by simp
  have se: "buyToken_settle E sender (s2, log2) i r t =
     Inr (s', log2 @ (if tokensAllowed off ! r = 1
                       then [Emit (SoldOut (contractAddress off) i r)] else []) @
                [Mint_call s' (contractAddress off) sender (productIndex off) t,
                 Emit (TokenMinted sender (contractAddress off) i r t)])"
    unfolding buyToken_settle_Inr Let_def s2f off [symmetric]
    using pos os mint r one by (auto simp: s'2 s2f)
  from buyToken_from_stages [OF c cr [folded s1_def] f se]
  show ?thesis by (simp add: log2_def)
qed


lemma buyToken_creator_pays:
  assumes "supportsInterface E (contractAddress off) = Some True"
    and "r < length (rangeName off)"
    and "royaltyInfo E (contractAddress off) 0 (rangePrice off ! r) (rangeName off ! r)
           = Some (receiver, amount)"
    and "unat (treasuryFee s) + unat (nodeFee s) \<le> 65535"
    and "rangePrice off ! r * (100000 - (unat (treasuryFee s) + unat (nodeFee s))) \<le> uint_max"
    and "c = rangePrice off ! r * (100000 - (unat (treasuryFee s) + unat (nodeFee s))) div 100000"
    and "c \<le> balance s" and "receiver \<noteq> self E" and "accepts E receiver c"
  shows "buyToken_creator E s off r = Inr (s\<lparr>balance := balance s - paid_out [Transfer receiver c]\<rparr>,
                                           [Transfer receiver c])"
  unfolding buyToken_creator_Inr creatorShare_Inr
  using assms by (simp add: paid_out_def)

lemma buyToken_creator_skips:
  assumes "supportsInterface E (contractAddress off) = Some False"
  shows "buyToken_creator E s off r = Inr (s\<lparr>balance := balance s - paid_out []\<rparr>, [])"
  unfolding buyToken_creator_Inr
  using assms by (simp add: paid_out_def)


text \<open>
  C8. The creator's share \<open>price * (100000 - (treasuryFee + nodeFee)) / 100000\<close> is
  transferred, to the receiver that \<open>royaltyInfo\<close> names, exactly when the collection
  reports the royalty interface. A purchase on such a collection that passes the
  requirements, whose fee sum fits in 16 bits, whose receivers accept their ether and
  whose \<open>mint\<close> succeeds, does succeed, and its transfers are the creator's share, the
  refund, the treasury's share and the node's share. On a collection without the
  interface the purchase succeeds with the last three transfers only: what remains of
  the price stays in the contract's balance, and that is at least the creator's share.
  No successful purchase does otherwise.
\<close>

theorem creator_paid_iff_royalty_support:
  assumes off: "off = offerCatalog s ! i" and price: "price = rangePrice off ! r"
    and tA: "treasuryAmount = price * unat (treasuryFee s) div 100000"
    and nA: "nodeAmount = price * unat (nodeFee s) div 100000"
    and cA: "creatorAmount =
           price * (100000 - (unat (treasuryFee s) + unat (nodeFee s))) div 100000"
  shows "(\<forall>s' log. buyToken E sender v s i r t = Inr (s', log) \<longrightarrow>
       (supportsInterface E (contractAddress off) = Some True \<longrightarrow>
          (\<exists>receiver amount.
             royaltyInfo E (contractAddress off) 0 price (rangeName off ! r)
               = Some (receiver, amount) \<and>
             transfers log = [(receiver, creatorAmount), (sender, v - price),
                              (treasury s, treasuryAmount), (nodeAddress off, nodeAmount)])) \<and>
       (supportsInterface E (contractAddress off) \<noteq> Some True \<longrightarrow>
          supportsInterface E (contractAddress off) = Some False \<and>
          transfers log = [(sender, v - price), (treasury s, treasuryAmount),
                           (nodeAddress off, nodeAmount)] \<and>
          int (balance s') = int (balance s) + int price - int treasuryAmount - int nodeAmount \<and>
          int price * (100000 - (int (unat (treasuryFee s)) + int (unat (nodeFee s)))) div 100000
            \<le> int (balance s') - int (balance s) \<and>
          (unat (treasuryFee s) + unat (nodeFee s) \<le> 100000 \<longrightarrow>
             balance s + creatorAmount \<le> balance s'))) \<and>
     (supportsInterface E (contractAddress off) = Some True \<and>
      royaltyInfo E (contractAddress off) 0 price (rangeName off ! r) = Some (receiver, amount) \<and>
      i < length (offerCatalog s) \<and> contractAddress off \<noteq> 0 \<and> wf_offer off \<and>
      r < length (tokensAllowed off) \<and> 0 < tokensAllowed off ! r \<and>
      tokenRangeStart off ! r \<le> t \<and> t \<le> tokenRangeEnd off ! r \<and> price \<le> v \<and>
      unat (treasuryFee s) + unat (nodeFee s) \<le> 65535 \<and> price * 100000 \<le> uint_max \<and>
      receiver \<noteq> self E \<and> accepts E receiver creatorAmount \<and>
      sender \<noteq> self E \<and> accepts E sender (v - price) \<and>
      treasury s \<noteq> self E \<and> accepts E (treasury s) treasuryAmount \<and>
      nodeAddress off \<noteq> self E \<and> accepts E (nodeAddress off) nodeAmount \<and>
      (tokensAllowed off ! r = 1 \<longrightarrow> 1 \<le> openSales s) \<and>
      mint E (contractAddress off) sender (productIndex off) t \<longrightarrow>
        (let s' = s\<lparr>balance := balance s + v -
                       (creatorAmount + ((v - price) + treasuryAmount + nodeAmount)),
                     offerCatalog := (offerCatalog s)
                       [i := off\<lparr>tokensAllowed :=
                                   (tokensAllowed off)[r := tokensAllowed off ! r - 1]\<rparr>],
                     openSales := (if tokensAllowed off ! r = 1
                                   then openSales s - 1 else openSales s)\<rparr>
         in buyToken E sender v s i r t =
              Inr (s', [Transfer receiver creatorAmount, Transfer sender (v - price),
                        Transfer (treasury s) treasuryAmount,
                        Transfer (nodeAddress off) nodeAmount] @
                       (if tokensAllowed off ! r = 1
                        then [Emit (SoldOut (contractAddress off) i r)] else []) @
                       [Mint_call s' (contractAddress off) sender (productIndex off) t,
                        Emit (TokenMinted sender (contractAddress off) i r t)]))) \<and>
     (supportsInterface E (contractAddress off) = Some False \<and>
      i < length (offerCatalog s) \<and> contractAddress off \<noteq> 0 \<and> wf_offer off \<and>
      r < length (tokensAllowed off) \<and> 0 < tokensAllowed off ! r \<and>
      tokenRangeStart off ! r \<le> t \<and> t \<le> tokenRangeEnd off ! r \<and> price \<le> v \<and>
      price * 100000 \<le> uint_max \<and>
      (v - price) + treasuryAmount + nodeAmount \<le> balance s + v \<and>
      sender \<noteq> self E \<and> accepts E sender (v - price) \<and>
      treasury s \<noteq> self E \<and> accepts E (treasury s) treasuryAmount \<and>
      nodeAddress off \<noteq> self E \<and> accepts E (nodeAddress off) nodeAmount \<and>
      (tokensAllowed off ! r = 1 \<longrightarrow> 1 \<le> openSales s) \<and>
      mint E (contractAddress off) sender (productIndex off) t \<longrightarrow>
        (let s' = s\<lparr>balance := balance s + v - ((v - price) + treasuryAmount + nodeAmount),
                     offerCatalog := (offerCatalog s)
                       [i := off\<lparr>tokensAllowed :=
                                   (tokensAllowed off)[r := tokensAllowed off ! r - 1]\<rparr>],
                     openSales := (if tokensAllowed off ! r = 1
                                   then openSales s - 1 else openSales s)\<rparr>
         in buyToken E sender v s i r t =
              Inr (s', [Transfer sender (v - price), Transfer (treasury s) treasuryAmount,
                        Transfer (nodeAddress off) nodeAmount] @
                       (if tokensAllowed off ! r = 1
                        then [Emit (SoldOut (contractAddress off) i r)] else []) @
                       [Mint_call s' (contractAddress off) sender (productIndex off) t,
                        Emit (TokenMinted sender (contractAddress off) i r t)])))"
proof (intro conjI allI impI; (elim conjE)?)
  fix s' log
  assume ok: "buyToken E sender v s i r t = Inr (s', log)"
    and sup: "supportsInterface E (contractAddress off) = Some True"
  from creator_transfers_of_purchase [OF ok off price tA nA cA] sup
  show "\<exists>receiver amount.
             royaltyInfo E (contractAddress off) 0 price (rangeName off ! r)
               = Some (receiver, amount) \<and>
             transfers log = [(receiver, creatorAmount), (sender, v - price),
                              (treasury s, treasuryAmount), (nodeAddress off, nodeAmount)]"
    by blast
next
  fix s' log
  assume ok: "buyToken E sender v s i r t = Inr (s', log)"
    and nsup: "supportsInterface E (contractAddress off) \<noteq> Some True"
  note old = creator_transfers_of_purchase [OF ok off price tA nA cA, THEN conjunct2, rule_format, OF nsup]
  from old show "supportsInterface E (contractAddress off) = Some False" by blast
  from old show "transfers log = [(sender, v - price), (treasury s, treasuryAmount),
                           (nodeAddress off, nodeAmount)]" by blast
  from old show bi: "int (balance s') = int (balance s) + int price - int treasuryAmount - int nodeAmount"
    by blast
  from creator_share_le_rest [of price "unat (treasuryFee s)" "unat (nodeFee s)"]
  show "int price * (100000 - (int (unat (treasuryFee s)) + int (unat (nodeFee s)))) div 100000
            \<le> int (balance s') - int (balance s)"
    unfolding bi tA nA by linarith
  assume "unat (treasuryFee s) + unat (nodeFee s) \<le> 100000"
  with old show "balance s + creatorAmount \<le> balance s'" by blast
next
  assume sup: "supportsInterface E (contractAddress off) = Some True"
    and ri: "royaltyInfo E (contractAddress off) 0 price (rangeName off ! r) = Some (receiver, amount)"
    and i: "i < length (offerCatalog s)" and live: "contractAddress off \<noteq> 0"
    and wf: "wf_offer off" and r: "r < length (tokensAllowed off)"
    and pos: "0 < tokensAllowed off ! r"
    and inside: "tokenRangeStart off ! r \<le> t" "t \<le> tokenRangeEnd off ! r"
    and pv: "price \<le> v"
    and fees: "unat (treasuryFee s) + unat (nodeFee s) \<le> 65535"
    and big: "price * 100000 \<le> uint_max"
    and acc0: "receiver \<noteq> self E" "accepts E receiver creatorAmount"
    and acc: "sender \<noteq> self E" "accepts E sender (v - price)"
      "treasury s \<noteq> self E" "accepts E (treasury s) treasuryAmount"
      "nodeAddress off \<noteq> self E" "accepts E (nodeAddress off) nodeAmount"
    and os: "tokensAllowed off ! r = 1 \<longrightarrow> 1 \<le> openSales s"
    and mint: "mint E (contractAddress off) sender (productIndex off) t"
  have le: "unat (treasuryFee s) + unat (nodeFee s) \<le> 100000" using fees by simp
  have dust: "treasuryAmount + nodeAmount + creatorAmount \<le> price"
    using split_dust(1) [OF le, of price] unfolding tA nA cA .
  have m1: "price * unat (treasuryFee s) \<le> uint_max"
  proof -
    have "price * unat (treasuryFee s) \<le> price * 100000" using le by simp
    with big show ?thesis by linarith
  qed
  have m2: "price * unat (nodeFee s) \<le> uint_max"
  proof -
    have "price * unat (nodeFee s) \<le> price * 100000" using le by simp
    with big show ?thesis by linarith
  qed
  have m3: "price * (100000 - (unat (treasuryFee s) + unat (nodeFee s))) \<le> uint_max"
  proof -
    have "price * (100000 - (unat (treasuryFee s) + unat (nodeFee s))) \<le> price * 100000"
      by simp
    with big show ?thesis by linarith
  qed
  have rn: "r < length (rangeName off)" using wf r by (simp add: wf_offer_def)
  have cb: "creatorAmount \<le> balance (s\<lparr>balance := balance s + v\<rparr>)"
    using dust pv by simp
  have cr: "buyToken_creator E (s\<lparr>balance := balance s + v\<rparr>) off r
               = Inr (s\<lparr>balance := balance s + v - paid_out [Transfer receiver creatorAmount]\<rparr>,
                      [Transfer receiver creatorAmount])"
    using buyToken_creator_pays [of E off r receiver amount "s\<lparr>balance := balance s + v\<rparr>"
            creatorAmount, OF sup rn ri [unfolded price]]
      fees m3 [unfolded price] cA [unfolded price] cb acc0
    by simp
  have po: "paid_out [Transfer receiver creatorAmount] = creatorAmount"
    by (simp add: paid_out_def)
  have bal: "paid_out [Transfer receiver creatorAmount]
               + ((v - price) + treasuryAmount + nodeAmount) \<le> balance s + v"
    unfolding po using dust pv by linarith
  show "let s' = s\<lparr>balance := balance s + v -
                       (creatorAmount + ((v - price) + treasuryAmount + nodeAmount)),
                     offerCatalog := (offerCatalog s)
                       [i := off\<lparr>tokensAllowed :=
                                   (tokensAllowed off)[r := tokensAllowed off ! r - 1]\<rparr>],
                     openSales := (if tokensAllowed off ! r = 1
                                   then openSales s - 1 else openSales s)\<rparr>
         in buyToken E sender v s i r t =
              Inr (s', [Transfer receiver creatorAmount, Transfer sender (v - price),
                        Transfer (treasury s) treasuryAmount,
                        Transfer (nodeAddress off) nodeAmount] @
                       (if tokensAllowed off ! r = 1
                        then [Emit (SoldOut (contractAddress off) i r)] else []) @
                       [Mint_call s' (contractAddress off) sender (productIndex off) t,
                        Emit (TokenMinted sender (contractAddress off) i r t)])"
    unfolding Let_def
    using buyToken_succeeds [OF off price tA nA i live wf r pos inside pv cr m1 m2 bal acc os mint
            refl]
    unfolding po by simp
next
  assume sup: "supportsInterface E (contractAddress off) = Some False"
    and i: "i < length (offerCatalog s)" and live: "contractAddress off \<noteq> 0"
    and wf: "wf_offer off" and r: "r < length (tokensAllowed off)"
    and pos: "0 < tokensAllowed off ! r"
    and inside: "tokenRangeStart off ! r \<le> t" "t \<le> tokenRangeEnd off ! r"
    and pv: "price \<le> v"
    and big: "price * 100000 \<le> uint_max"
    and bal0: "(v - price) + treasuryAmount + nodeAmount \<le> balance s + v"
    and acc: "sender \<noteq> self E" "accepts E sender (v - price)"
      "treasury s \<noteq> self E" "accepts E (treasury s) treasuryAmount"
      "nodeAddress off \<noteq> self E" "accepts E (nodeAddress off) nodeAmount"
    and os: "tokensAllowed off ! r = 1 \<longrightarrow> 1 \<le> openSales s"
    and mint: "mint E (contractAddress off) sender (productIndex off) t"
  have "unat (treasuryFee s) < 2 ^ LENGTH(16)" by (rule unsigned_less)
  then have u1: "unat (treasuryFee s) \<le> 100000" by simp
  have "unat (nodeFee s) < 2 ^ LENGTH(16)" by (rule unsigned_less)
  then have u2: "unat (nodeFee s) \<le> 100000" by simp
  have m1: "price * unat (treasuryFee s) \<le> uint_max"
  proof -
    have "price * unat (treasuryFee s) \<le> price * 100000" using u1 by simp
    with big show ?thesis by linarith
  qed
  have m2: "price * unat (nodeFee s) \<le> uint_max"
  proof -
    have "price * unat (nodeFee s) \<le> price * 100000" using u2 by simp
    with big show ?thesis by linarith
  qed
  have po: "paid_out [] = 0" by (simp add: paid_out_def)
  have bal: "paid_out [] + ((v - price) + treasuryAmount + nodeAmount) \<le> balance s + v"
    unfolding po using bal0 by simp
  note cr = buyToken_creator_skips [OF sup, of "s\<lparr>balance := balance s + v\<rparr>" r, simplified]
  have cr': "buyToken_creator E (s\<lparr>balance := balance s + v\<rparr>) off r
               = Inr (s\<lparr>balance := balance s + v - paid_out []\<rparr>, [])"
    using cr by (simp add: po)
  show "let s' = s\<lparr>balance := balance s + v - ((v - price) + treasuryAmount + nodeAmount),
                     offerCatalog := (offerCatalog s)
                       [i := off\<lparr>tokensAllowed :=
                                   (tokensAllowed off)[r := tokensAllowed off ! r - 1]\<rparr>],
                     openSales := (if tokensAllowed off ! r = 1
                                   then openSales s - 1 else openSales s)\<rparr>
         in buyToken E sender v s i r t =
              Inr (s', [Transfer sender (v - price), Transfer (treasury s) treasuryAmount,
                        Transfer (nodeAddress off) nodeAmount] @
                       (if tokensAllowed off ! r = 1
                        then [Emit (SoldOut (contractAddress off) i r)] else []) @
                       [Mint_call s' (contractAddress off) sender (productIndex off) t,
                        Emit (TokenMinted sender (contractAddress off) i r t)])"
    unfolding Let_def
    using buyToken_succeeds [OF off price tA nA i live wf r pos inside pv cr' m1 m2 bal acc os mint
            refl]
    unfolding po by simp
qed


theorem creator_paid_iff_royalty_support_witness:
  "buyToken royalty_env 9 101 odd_market 0 0 5 =
     Inr (odd_market\<lparr>balance := 1,
            offerCatalog := [example_offer\<lparr>rangePrice := [101], tokensAllowed := [9]\<rparr>]\<rparr>,
          [Transfer 7 90, Transfer 9 0, Transfer 50 9, Transfer 60 1,
           Mint_call (odd_market\<lparr>balance := 1,
              offerCatalog := [example_offer\<lparr>rangePrice := [101], tokensAllowed := [9]\<rparr>]\<rparr>)
             77 9 0 5,
           Emit (TokenMinted 9 77 0 0 5)]) \<and>
   buyToken example_env 9 100 example_market 0 0 5 =
     Inr (example_market\<lparr>balance := 90,
            offerCatalog := [example_offer\<lparr>tokensAllowed := [9]\<rparr>]\<rparr>,
          [Transfer 9 0, Transfer 50 9, Transfer 60 1,
           Mint_call (example_market\<lparr>balance := 90,
              offerCatalog := [example_offer\<lparr>tokensAllowed := [9]\<rparr>]\<rparr>) 77 9 0 5,
           Emit (TokenMinted 9 77 0 0 5)])"
proof -
  have off1: "example_offer\<lparr>rangePrice := [101]\<rparr> = offerCatalog odd_market ! 0"
    by simp
  have price1: "101 = rangePrice (example_offer\<lparr>rangePrice := [101]\<rparr>) ! 0"
    by simp
  have t1: "9 = 101 * unat (treasuryFee odd_market) div 100000"
    by simp
  have n1: "1 = 101 * unat (nodeFee odd_market) div 100000"
    by simp
  have c1: "90 = 101 * (100000 - (unat (treasuryFee odd_market) + unat (nodeFee odd_market)))
                  div 100000"
    by simp
  have off2: "example_offer = offerCatalog example_market ! 0"
    by simp
  have price2: "100 = rangePrice example_offer ! 0"
    by simp
  have t2: "9 = 100 * unat (treasuryFee example_market) div 100000"
    by simp
  have n2: "1 = 100 * unat (nodeFee example_market) div 100000"
    by simp
  have c2: "90 = 100 * (100000 - (unat (treasuryFee example_market)
                  + unat (nodeFee example_market))) div 100000"
    by simp
  note A = creator_paid_iff_royalty_support
             [where E = royalty_env and sender = 9 and v = 101 and t = 5 and receiver = 7
                and amount = 0, OF off1 price1 t1 n1 c1, THEN conjunct2, THEN conjunct1]
  note B = creator_paid_iff_royalty_support
             [where E = example_env and sender = 9 and v = 100 and t = 5,
              OF off2 price2 t2 n2 c2, THEN conjunct2, THEN conjunct2]
  have 1: "buyToken royalty_env 9 101 odd_market 0 0 5 =
     Inr (odd_market\<lparr>balance := 1,
            offerCatalog := [example_offer\<lparr>rangePrice := [101], tokensAllowed := [9]\<rparr>]\<rparr>,
          [Transfer 7 90, Transfer 9 0, Transfer 50 9, Transfer 60 1,
           Mint_call (odd_market\<lparr>balance := 1,
              offerCatalog := [example_offer\<lparr>rangePrice := [101], tokensAllowed := [9]\<rparr>]\<rparr>)
             77 9 0 5,
           Emit (TokenMinted 9 77 0 0 5)])"
    using A by (simp add: wf_offer_def Let_def odd_market_def)
  have 2: "buyToken example_env 9 100 example_market 0 0 5 =
     Inr (example_market\<lparr>balance := 90,
            offerCatalog := [example_offer\<lparr>tokensAllowed := [9]\<rparr>]\<rparr>,
          [Transfer 9 0, Transfer 50 9, Transfer 60 1,
           Mint_call (example_market\<lparr>balance := 90,
              offerCatalog := [example_offer\<lparr>tokensAllowed := [9]\<rparr>]\<rparr>) 77 9 0 5,
           Emit (TokenMinted 9 77 0 0 5)])"
    using B by (simp add: wf_offer_def Let_def example_market_def)
  from 1 2 show ?thesis
    by (intro conjI)
qed

subsection \<open>The order of effects in a purchase\<close>

lemma last_token_market_simps [simp]:
  "offerCatalog last_token_market = [example_offer\<lparr>tokensAllowed := [1]\<rparr>]"
  "openSales last_token_market = 1"
  "treasury last_token_market = 50"
  "treasuryFee last_token_market = 9000"
  "nodeFee last_token_market = 1000"
  "balance last_token_market = 0"
  by (simp_all add: last_token_market_def)

lemma last_purchase:
  "buyToken example_env 9 100 last_token_market 0 0 10 =
     Inr (last_token_market\<lparr>balance := 90,
            offerCatalog := [example_offer\<lparr>tokensAllowed := [0]\<rparr>], openSales := 0\<rparr>,
          [Transfer 9 0, Transfer 50 9, Transfer 60 1, Emit (SoldOut 77 0 0),
           Mint_call (last_token_market\<lparr>balance := 90,
              offerCatalog := [example_offer\<lparr>tokensAllowed := [0]\<rparr>], openSales := 0\<rparr>)
             77 9 0 10,
           Emit (TokenMinted 9 77 0 0 10)])"
  by (simp add: buyToken_def buyToken_checks_def buyToken_creator_def buyToken_fees_def
        buyToken_settle_def transfer_def at_index_def checked_sub_def feeShare_eval Let_def)

text \<open>
  C4. In a successful purchase the actions end with the call of \<open>mint\<close> followed by the
  \<open>TokenMinted\<close> event, and no other \<open>mint\<close> call comes before. The storage at the moment
  of that call already holds the decremented \<open>tokensAllowed\<close> of the range; and if that
  is 0, it holds the decremented \<open>openSales\<close> and the \<open>SoldOut\<close> event is among the
  actions before the call.
\<close>

theorem supply_decremented_before_mint:
  assumes "buyToken E sender v s i r t = Inr (s', log)" and "off = offerCatalog s ! i"
  shows "\<exists>before at_call.
     log = before @ [Mint_call at_call (contractAddress off) sender (productIndex off) t,
                     Emit (TokenMinted sender (contractAddress off) i r t)] \<and>
     (\<forall>a \<in> set before. \<not> is_mint_call a) \<and>
     int (tokensAllowed (offerCatalog at_call ! i) ! r) = int (tokensAllowed off ! r) - 1 \<and>
     (tokensAllowed (offerCatalog at_call ! i) ! r = 0 \<longrightarrow>
        int (openSales at_call) = int (openSales s) - 1 \<and>
        Emit (SoldOut (contractAddress off) i r) \<in> set before) \<and>
     (tokensAllowed (offerCatalog at_call ! i) ! r \<noteq> 0 \<longrightarrow>
        openSales at_call = openSales s \<and>
        Emit (SoldOut (contractAddress off) i r) \<notin> set before)"
proof -
  note b = buyToken_Inr [OF assms refl refl refl refl]
  from b(1) have i: "i < length (offerCatalog s)" and r: "r < length (tokensAllowed off)"
    and pos: "0 < tokensAllowed off ! r"
    by blast+
  from b(3) obtain cp where
    d: "(supportsInterface E (contractAddress off) = Some False \<and> cp = []) \<or>
         (supportsInterface E (contractAddress off) = Some True \<and>
          unat (treasuryFee s) + unat (nodeFee s) < 2 ^ 16 \<and>
          (\<exists>ca am. royaltyInfo E (contractAddress off) 0 (rangePrice off ! r) (rangeName off ! r)
                      = Some (ca, am) \<and>
             cp = [Transfer ca (rangePrice off ! r *
                     (100000 - (unat (treasuryFee s) + unat (nodeFee s))) div 100000)]))" and
    log0: "log = cp @
              [Transfer sender (v - rangePrice off ! r),
               Transfer (treasury s) (rangePrice off ! r * unat (treasuryFee s) div 100000),
               Transfer (nodeAddress off) (rangePrice off ! r * unat (nodeFee s) div 100000)] @
              (if tokensAllowed off ! r = 1
               then [Emit (SoldOut (contractAddress off) i r)] else []) @
              [Mint_call s' (contractAddress off) sender (productIndex off) t,
               Emit (TokenMinted sender (contractAddress off) i r t)]" and
    s': "s' = s\<lparr>balance := balance s + v -
                 (paid_out cp + ((v - rangePrice off ! r) +
                    rangePrice off ! r * unat (treasuryFee s) div 100000 +
                    rangePrice off ! r * unat (nodeFee s) div 100000)),
               offerCatalog := (offerCatalog s)
                 [i := off\<lparr>tokensAllowed := (tokensAllowed off)[r := tokensAllowed off ! r - 1]\<rparr>],
               openSales := (if tokensAllowed off ! r = 1 then openSales s - 1 else openSales s)\<rparr>"
    by (elim exE conjE)
  define before where "before = cp @
              [Transfer sender (v - rangePrice off ! r),
               Transfer (treasury s) (rangePrice off ! r * unat (treasuryFee s) div 100000),
               Transfer (nodeAddress off) (rangePrice off ! r * unat (nodeFee s) div 100000)] @
              (if tokensAllowed off ! r = 1
               then [Emit (SoldOut (contractAddress off) i r)] else [])"
  have cpm: "\<forall>a \<in> set cp. \<not> is_mint_call a \<and> a \<noteq> Emit (SoldOut (contractAddress off) i r)"
    using d by (elim disjE conjE exE) simp_all
  have 1: "log = before @ [Mint_call s' (contractAddress off) sender (productIndex off) t,
                     Emit (TokenMinted sender (contractAddress off) i r t)]"
    unfolding log0 before_def by simp
  have 2: "\<forall>a \<in> set before. \<not> is_mint_call a"
    using cpm unfolding before_def by auto
  have ta: "tokensAllowed (offerCatalog s' ! i) ! r = tokensAllowed off ! r - 1"
    unfolding s' using i r by simp
  have 3: "int (tokensAllowed (offerCatalog s' ! i) ! r) = int (tokensAllowed off ! r) - 1"
    unfolding ta using pos by linarith
  have zero: "tokensAllowed (offerCatalog s' ! i) ! r = 0 \<longleftrightarrow> tokensAllowed off ! r = 1"
    unfolding ta using pos by linarith
  have os: "openSales s' = (if tokensAllowed off ! r = 1 then openSales s - 1 else openSales s)"
    unfolding s' by simp
  have 4: "tokensAllowed (offerCatalog s' ! i) ! r = 0 \<longrightarrow>
        int (openSales s') = int (openSales s) - 1 \<and>
        Emit (SoldOut (contractAddress off) i r) \<in> set before"
    unfolding zero os before_def using b(2) by auto
  have 5: "tokensAllowed (offerCatalog s' ! i) ! r \<noteq> 0 \<longrightarrow>
        openSales s' = openSales s \<and>
        Emit (SoldOut (contractAddress off) i r) \<notin> set before"
    unfolding zero os before_def using cpm by auto
  show ?thesis
    apply (rule exI [where x = before], rule exI [where x = s'])
    apply (intro conjI)
        apply (rule 1)
       apply (rule 2)
      apply (rule 3)
     apply (rule 4)
    apply (rule 5)
    done
qed


theorem supply_decremented_before_mint_witness:
  "\<exists>before at_call.
     [Transfer 9 0, Transfer 50 9, Transfer 60 1, Emit (SoldOut 77 0 0),
      Mint_call (last_token_market\<lparr>balance := 90,
         offerCatalog := [example_offer\<lparr>tokensAllowed := [0]\<rparr>], openSales := 0\<rparr>) 77 9 0 10,
      Emit (TokenMinted 9 77 0 0 10)]
       = before @ [Mint_call at_call 77 9 0 10, Emit (TokenMinted 9 77 0 0 10)] \<and>
     tokensAllowed (offerCatalog at_call ! 0) ! 0 = 0 \<and>
     int (openSales at_call) = 0 \<and>
     Emit (SoldOut 77 0 0) \<in> set before"
proof -
  have off: "example_offer\<lparr>tokensAllowed := [1]\<rparr> = offerCatalog last_token_market ! 0"
    by simp
  from supply_decremented_before_mint [OF last_purchase off]
  obtain before at_call where
    1: "[Transfer 9 0, Transfer 50 9, Transfer 60 1, Emit (SoldOut 77 0 0),
      Mint_call (last_token_market\<lparr>balance := 90,
         offerCatalog := [example_offer\<lparr>tokensAllowed := [0]\<rparr>], openSales := 0\<rparr>) 77 9 0 10,
      Emit (TokenMinted 9 77 0 0 10)]
       = before @ [Mint_call at_call (contractAddress (example_offer\<lparr>tokensAllowed := [1]\<rparr>)) 9
                     (productIndex (example_offer\<lparr>tokensAllowed := [1]\<rparr>)) 10,
                   Emit (TokenMinted 9 (contractAddress (example_offer\<lparr>tokensAllowed := [1]\<rparr>))
                           0 0 10)]" and
    2: "\<forall>a \<in> set before. \<not> is_mint_call a" and
    3: "int (tokensAllowed (offerCatalog at_call ! 0) ! 0)
          = int (tokensAllowed (example_offer\<lparr>tokensAllowed := [1]\<rparr>) ! 0) - 1" and
    4: "tokensAllowed (offerCatalog at_call ! 0) ! 0 = 0 \<longrightarrow>
        int (openSales at_call) = int (openSales last_token_market) - 1 \<and>
        Emit (SoldOut (contractAddress (example_offer\<lparr>tokensAllowed := [1]\<rparr>)) 0 0) \<in> set before" and
    5: "tokensAllowed (offerCatalog at_call ! 0) ! 0 \<noteq> 0 \<longrightarrow>
        openSales at_call = openSales last_token_market \<and>
        Emit (SoldOut (contractAddress (example_offer\<lparr>tokensAllowed := [1]\<rparr>)) 0 0) \<notin> set before"
    by (elim exE conjE)
  from 3 have z: "tokensAllowed (offerCatalog at_call ! 0) ! 0 = 0"
    by simp
  from 4 z have os: "int (openSales at_call) = 0"
    and so: "Emit (SoldOut 77 0 0) \<in> set before"
    by simp_all
  from 1 have l: "[Transfer 9 0, Transfer 50 9, Transfer 60 1, Emit (SoldOut 77 0 0),
      Mint_call (last_token_market\<lparr>balance := 90,
         offerCatalog := [example_offer\<lparr>tokensAllowed := [0]\<rparr>], openSales := 0\<rparr>) 77 9 0 10,
      Emit (TokenMinted 9 77 0 0 10)]
       = before @ [Mint_call at_call 77 9 0 10, Emit (TokenMinted 9 77 0 0 10)]"
    by simp
  show ?thesis
    apply (rule exI [where x = before], rule exI [where x = at_call])
    apply (intro conjI)
       apply (rule l)
      apply (rule z)
     apply (rule os)
    apply (rule so)
    done
qed

subsection \<open>The sum of the two fees\<close>

lemma greedy_market_simps [simp]:
  "offerCatalog greedy_market = [example_offer]"
  "treasuryFee greedy_market = 40000"
  "nodeFee greedy_market = 30000"
  by (simp_all add: greedy_market_def)

lemma creatorShare_overflow:
  "65535 < unat tf + unat nf \<Longrightarrow> creatorShare price tf nf = Inl ArithmeticPanic"
  by (simp add: creatorShare_def checked_add16_def)

text \<open>
  C10. The two fees are \<open>uint16\<close>, and their sum in line 316 is a \<open>uint16\<close> addition.
  When it exceeds 65535, no purchase on a collection with the royalty interface succeeds,
  and a purchase that passes the validations and gets an answer from \<open>royaltyInfo\<close> fails
  with the arithmetic panic. When the sum fits in 16 bits it is below 100000, the
  subtraction \<open>100000 - (treasuryFee + nodeFee)\<close> does not underflow, and the creator's
  share can only fail by overflow of the product with the price.
\<close>

theorem fee_sum_overflow:
  "(supportsInterface E (contractAddress (offerCatalog s ! i)) = Some True \<and>
    65535 < unat (treasuryFee s) + unat (nodeFee s) \<longrightarrow>
      (\<forall>x. buyToken E sender v s i r t \<noteq> Inr x) \<and>
      (\<forall>off. buyToken_checks s v i r t = Inr off \<and> r < length (rangeName off) \<and>
         royaltyInfo E (contractAddress off) 0 (rangePrice off ! r) (rangeName off ! r) \<noteq> None
         \<longrightarrow> buyToken E sender v s i r t = Inl ArithmeticPanic)) \<and>
   (unat (treasuryFee s) + unat (nodeFee s) \<le> 65535 \<longrightarrow>
      checked_add16 (treasuryFee s) (nodeFee s) = Inr (treasuryFee s + nodeFee s) \<and>
      unat (treasuryFee s + nodeFee s) = unat (treasuryFee s) + unat (nodeFee s) \<and>
      unat (treasuryFee s + nodeFee s) < 100000 \<and>
      checked_sub 100000 (unat (treasuryFee s + nodeFee s))
        = Inr (100000 - (unat (treasuryFee s) + unat (nodeFee s))) \<and>
      (\<forall>price. price * (100000 - (unat (treasuryFee s) + unat (nodeFee s))) \<le> uint_max \<longrightarrow>
         creatorShare price (treasuryFee s) (nodeFee s)
           = Inr (price * (100000 - (unat (treasuryFee s) + unat (nodeFee s))) div 100000)))"
proof (intro conjI impI)
  assume a: "supportsInterface E (contractAddress (offerCatalog s ! i)) = Some True \<and>
    65535 < unat (treasuryFee s) + unat (nodeFee s)"
  show "\<forall>x. buyToken E sender v s i r t \<noteq> Inr x"
  proof (intro allI notI)
    fix x assume "buyToken E sender v s i r t = Inr x"
    then have ok: "buyToken E sender v s i r t = Inr (fst x, snd x)" by simp
    from buyToken_Inr(3) [OF ok refl refl refl refl refl] a
    show False by auto
  qed
next
  assume a: "supportsInterface E (contractAddress (offerCatalog s ! i)) = Some True \<and>
    65535 < unat (treasuryFee s) + unat (nodeFee s)"
  show "\<forall>off. buyToken_checks s v i r t = Inr off \<and> r < length (rangeName off) \<and>
         royaltyInfo E (contractAddress off) 0 (rangePrice off ! r) (rangeName off ! r) \<noteq> None
         \<longrightarrow> buyToken E sender v s i r t = Inl ArithmeticPanic"
  proof (intro allI impI)
    fix off
    assume h: "buyToken_checks s v i r t = Inr off \<and> r < length (rangeName off) \<and>
         royaltyInfo E (contractAddress off) 0 (rangePrice off ! r) (rangeName off ! r) \<noteq> None"
    then have off: "off = offerCatalog s ! i"
      by (simp add: buyToken_checks_Inr)
    have cs: "creatorShare (rangePrice off ! r) (treasuryFee s) (nodeFee s) = Inl ArithmeticPanic"
      using a by (simp add: creatorShare_overflow)
    have "buyToken_creator E (s\<lparr>balance := balance s + v\<rparr>) off r = Inl ArithmeticPanic"
      using h a cs unfolding off
      by (auto simp: buyToken_creator_def at_index_def)
    then show "buyToken E sender v s i r t = Inl ArithmeticPanic"
      using h by (simp add: buyToken_def Let_def)
  qed
next
  assume le: "unat (treasuryFee s) + unat (nodeFee s) \<le> 65535"
  show "checked_add16 (treasuryFee s) (nodeFee s) = Inr (treasuryFee s + nodeFee s)"
    using le by (simp add: checked_add16_def)
  show u: "unat (treasuryFee s + nodeFee s) = unat (treasuryFee s) + unat (nodeFee s)"
    using le by (simp add: unat_word_ariths)
  show "unat (treasuryFee s + nodeFee s) < 100000"
    using le unfolding u by simp
  show "checked_sub 100000 (unat (treasuryFee s + nodeFee s))
        = Inr (100000 - (unat (treasuryFee s) + unat (nodeFee s)))"
    using le unfolding u by (simp add: checked_sub_def)
  show "\<forall>price. price * (100000 - (unat (treasuryFee s) + unat (nodeFee s))) \<le> uint_max \<longrightarrow>
         creatorShare price (treasuryFee s) (nodeFee s)
           = Inr (price * (100000 - (unat (treasuryFee s) + unat (nodeFee s))) div 100000)"
    using le by (simp add: creatorShare_Inr)
qed

lemma greedy_checks: "buyToken_checks greedy_market 100 0 0 5 = Inr example_offer"
  by (simp add: buyToken_checks_Inr)

theorem fee_sum_overflow_witness:
  "buyToken royalty_env 9 100 greedy_market 0 0 5 = Inl ArithmeticPanic \<and>
   checked_add16 (treasuryFee example_market) (nodeFee example_market) = Inr 10000 \<and>
   checked_sub 100000 (unat (treasuryFee example_market + nodeFee example_market)) = Inr 90000 \<and>
   creatorShare 100 (treasuryFee example_market) (nodeFee example_market) = Inr 90"
proof -
  note A = fee_sum_overflow [of royalty_env greedy_market 0 9 100 0 5]
  note B = fee_sum_overflow [of example_env example_market 0 9 100 0 5]
  have big: "supportsInterface royalty_env (contractAddress (offerCatalog greedy_market ! 0))
               = Some True \<and>
             65535 < unat (treasuryFee greedy_market) + unat (nodeFee greedy_market)"
    by simp
  have pre: "buyToken_checks greedy_market 100 0 0 5 = Inr example_offer \<and>
     0 < length (rangeName example_offer) \<and>
     royaltyInfo royalty_env (contractAddress example_offer) 0 (rangePrice example_offer ! 0)
       (rangeName example_offer ! 0) \<noteq> None"
    by (simp add: greedy_checks)
  from A big pre have 1: "buyToken royalty_env 9 100 greedy_market 0 0 5 = Inl ArithmeticPanic"
    by blast
  have small: "unat (treasuryFee example_market) + unat (nodeFee example_market) \<le> 65535"
    by simp
  from B small have 2: "checked_add16 (treasuryFee example_market) (nodeFee example_market) = Inr 10000"
    and 3: "checked_sub 100000 (unat (treasuryFee example_market + nodeFee example_market)) = Inr 90000"
    and 4: "creatorShare 100 (treasuryFee example_market) (nodeFee example_market) = Inr 90"
    by simp_all
  from 1 2 3 4 show ?thesis
    by (intro conjI)
qed

subsection \<open>What each operation does to the catalog\<close>

lemma addOffer_Inr_catalog:
  assumes "addOffer E sender s a pidx starts ends prices names node = Inr (s', log)"
  shows "list_all2 (<) starts ends"
    and "offerCatalog s' = offerCatalog s @
        [\<lparr>contractAddress = a, nodeAddress = node, productIndex = pidx,
          tokenRangeStart = starts, tokenRangeEnd = ends,
          tokensAllowed = map2 (\<lambda>st en. en - st + 1) starts ends,
          rangePrice = prices, rangeName = names\<rparr>]"
    and "openSales s' = openSales s + length names"
    and "length starts = length names" and "length ends = length names"
proof -
  define new where "new = \<lparr>contractAddress = a, nodeAddress = node,
                                         productIndex = pidx, tokenRangeStart = [],
                                         tokenRangeEnd = [], tokensAllowed = [], rangePrice = [],
                                         rangeName = []\<rparr>"
  define s1 where "s1 = s\<lparr>offerCatalog := offerCatalog s @ [new]\<rparr>"
  from assms have lens: "length starts = length names" "length ends = length names"
      "length prices = length names"
    by (auto simp: addOffer_def split: if_splits sum.splits option.splits)
  from assms obtain s2 log2 where
    l: "appendRanges_loop s1 (length (offerCatalog s)) starts ends prices names = Inr (s2, log2)"
    and s': "offerCatalog s' = offerCatalog s2" "openSales s' = openSales s2"
    by (auto simp: addOffer_def Let_def s1_def new_def
          split: if_splits sum.splits option.splits prod.splits)
  have i: "length (offerCatalog s) < length (offerCatalog s1)"
    by (simp add: s1_def)
  note L = appendRanges_loop_Inr [OF l lens i]
  from L show "list_all2 (<) starts ends" by blast
  from L s' show "offerCatalog s' = offerCatalog s @
        [\<lparr>contractAddress = a, nodeAddress = node, productIndex = pidx,
          tokenRangeStart = starts, tokenRangeEnd = ends,
          tokensAllowed = map2 (\<lambda>st en. en - st + 1) starts ends,
          rangePrice = prices, rangeName = names\<rparr>]"
    by (simp add: s1_def new_def push_ranges_def)
  from L s' show "openSales s' = openSales s + length names"
    by (simp add: s1_def)
  show "length starts = length names" and "length ends = length names"
    by (rule lens)+
qed

lemma appendOfferRange_Inr_catalog:
  assumes "appendOfferRange E sender s i st en p n = Inr (s', log)"
  shows "i < length (offerCatalog s)" and "st < en"
    and "s' = s\<lparr>offerCatalog := (offerCatalog s)[i := push_range (offerCatalog s ! i) st en p n],
            openSales := openSales s + 1\<rparr>"
  using assms
  by (auto simp: appendOfferRange_def appendOfferRange_internal_Inr validateRangeInfo_def
        at_index_def split: sum.splits if_splits)

lemma appendOfferRangeBatch_Inr_catalog:
  assumes "appendOfferRangeBatch E sender s i starts ends prices names = Inr (s', log)"
  shows "i < length (offerCatalog s)" and "list_all2 (<) starts ends"
    and "length starts = length names" and "length ends = length names"
    and "s' = s\<lparr>offerCatalog :=
              (offerCatalog s)[i := push_ranges (offerCatalog s ! i) starts ends prices names],
            openSales := openSales s + length names\<rparr>"
proof -
  from assms have lens: "length starts = length names" "length ends = length names"
      "length prices = length names" and i: "i < length (offerCatalog s)"
    and l: "appendRanges_loop s i starts ends prices names = Inr (s', log)"
    by (auto simp: appendOfferRangeBatch_def at_index_def split: if_splits sum.splits)
  note L = appendRanges_loop_Inr [OF l lens i]
  show "i < length (offerCatalog s)" by (rule i)
  from L show "list_all2 (<) starts ends" by blast
  show "length starts = length names" and "length ends = length names" by (rule lens)+
  from L show "s' = s\<lparr>offerCatalog :=
              (offerCatalog s)[i := push_ranges (offerCatalog s ! i) starts ends prices names],
            openSales := openSales s + length names\<rparr>"
    by blast
qed

lemma checked_sub_le: "checked_sub a b = Inr c \<Longrightarrow> c \<le> a"
  by (auto simp: checked_sub_def split: if_splits)

lemma updateOfferRange_Inr_catalog:
  assumes "updateOfferRange E sender s i r st en p n = Inr (s', log)"
    and "off = offerCatalog s ! i"
  shows "i < length (offerCatalog s)" and "r < length (tokensAllowed off)"
    and "\<exists>allowed'. allowed' \<le> tokensAllowed off ! r \<and>
           s' = s\<lparr>offerCatalog := (offerCatalog s)[i := off
               \<lparr>tokensAllowed := (tokensAllowed off)[r := allowed'],
                tokenRangeStart := (tokenRangeStart off)[r := st],
                tokenRangeEnd := (tokenRangeEnd off)[r := en],
                rangePrice := (rangePrice off)[r := p],
                rangeName := (rangeName off)[r := n]\<rparr>]\<rparr>"
  using assms
  by (auto simp: updateOfferRange_def at_index_def validateRangeInfo_def Let_def
        split: sum.splits if_splits dest!: checked_sub_le)

subsection \<open>No operation gives a range more tokens\<close>

lemma nth_list_update_le:
  fixes xs :: "nat list"
  shows "x \<le> xs ! r \<Longrightarrow> k < length xs \<Longrightarrow> xs[r := x] ! k \<le> xs ! k"
  by (cases "r = k") simp_all

lemma supply_le_refl: "supply_le s s"
  by (simp add: supply_le_def)

lemma supply_le_trans:
  assumes "supply_le s s'" and "supply_le s' s''"
  shows "supply_le s s''"
  unfolding supply_le_def
proof (intro conjI allI impI)
  show "length (offerCatalog s) \<le> length (offerCatalog s'')"
    using assms unfolding supply_le_def by linarith
next
  fix i assume i: "i < length (offerCatalog s)"
  then have i': "i < length (offerCatalog s')"
    using assms(1) unfolding supply_le_def by linarith
  from assms(1) i have
    a1: "contractAddress (offerCatalog s' ! i) = contractAddress (offerCatalog s ! i)" and
    l1: "length (tokensAllowed (offerCatalog s ! i)) \<le> length (tokensAllowed (offerCatalog s' ! i))" and
    t1: "\<forall>r < length (tokensAllowed (offerCatalog s ! i)).
            tokensAllowed (offerCatalog s' ! i) ! r \<le> tokensAllowed (offerCatalog s ! i) ! r"
    unfolding supply_le_def by blast+
  from assms(2) i' have
    a2: "contractAddress (offerCatalog s'' ! i) = contractAddress (offerCatalog s' ! i)" and
    l2: "length (tokensAllowed (offerCatalog s' ! i)) \<le> length (tokensAllowed (offerCatalog s'' ! i))" and
    t2: "\<forall>r < length (tokensAllowed (offerCatalog s' ! i)).
            tokensAllowed (offerCatalog s'' ! i) ! r \<le> tokensAllowed (offerCatalog s' ! i) ! r"
    unfolding supply_le_def by blast+
  show "contractAddress (offerCatalog s'' ! i) = contractAddress (offerCatalog s ! i)"
    using a1 a2 by simp
  show "length (tokensAllowed (offerCatalog s ! i)) \<le> length (tokensAllowed (offerCatalog s'' ! i))"
    using l1 l2 by linarith
  fix r assume r: "r < length (tokensAllowed (offerCatalog s ! i))"
  then have r': "r < length (tokensAllowed (offerCatalog s' ! i))"
    using l1 by linarith
  show "tokensAllowed (offerCatalog s'' ! i) ! r \<le> tokensAllowed (offerCatalog s ! i) ! r"
    using t1 t2 r r' le_trans by blast
qed

lemma supply_le_append_offer:
  "offerCatalog s' = offerCatalog s @ [new] \<Longrightarrow> supply_le s s'"
  by (simp add: supply_le_def nth_append)

text \<open>A change of one offer that keeps its collection and shrinks or keeps its supplies.\<close>

lemma supply_le_update_offer:
  assumes "offerCatalog s' = (offerCatalog s)[i := off']"
    and "i < length (offerCatalog s) \<Longrightarrow>
           contractAddress off' = contractAddress (offerCatalog s ! i) \<and>
           length (tokensAllowed (offerCatalog s ! i)) \<le> length (tokensAllowed off') \<and>
           (\<forall>r < length (tokensAllowed (offerCatalog s ! i)).
              tokensAllowed off' ! r \<le> tokensAllowed (offerCatalog s ! i) ! r)"
  shows "supply_le s s'"
  unfolding supply_le_def assms(1)
proof (intro conjI allI impI)
  show "length (offerCatalog s) \<le> length ((offerCatalog s)[i := off'])" by simp
next
  fix j assume j: "j < length (offerCatalog s)"
  show "contractAddress ((offerCatalog s)[i := off'] ! j) = contractAddress (offerCatalog s ! j)"
    using assms(2) j by (cases "i = j") simp_all
  show "length (tokensAllowed (offerCatalog s ! j))
          \<le> length (tokensAllowed ((offerCatalog s)[i := off'] ! j))"
    using assms(2) j by (cases "i = j") simp_all
  fix r assume r: "r < length (tokensAllowed (offerCatalog s ! j))"
  show "tokensAllowed ((offerCatalog s)[i := off'] ! j) ! r \<le> tokensAllowed (offerCatalog s ! j) ! r"
    using assms(2) j r by (cases "i = j") simp_all
qed

lemma supply_le_addOffer:
  "addOffer E sender s a pidx starts ends prices names node = Inr (s', log) \<Longrightarrow> supply_le s s'"
  by (rule supply_le_append_offer, rule addOffer_Inr_catalog(2))

lemma supply_le_appendOfferRange:
  assumes "appendOfferRange E sender s i st en p n = Inr (s', log)"
  shows "supply_le s s'"
proof (rule supply_le_update_offer)
  show "offerCatalog s' = (offerCatalog s)[i := push_range (offerCatalog s ! i) st en p n]"
    using appendOfferRange_Inr_catalog(3) [OF assms] by simp
  show "contractAddress (push_range (offerCatalog s ! i) st en p n)
          = contractAddress (offerCatalog s ! i) \<and>
        length (tokensAllowed (offerCatalog s ! i))
          \<le> length (tokensAllowed (push_range (offerCatalog s ! i) st en p n)) \<and>
        (\<forall>r < length (tokensAllowed (offerCatalog s ! i)).
           tokensAllowed (push_range (offerCatalog s ! i) st en p n) ! r
             \<le> tokensAllowed (offerCatalog s ! i) ! r)"
    by (simp add: push_range_def nth_append)
qed

lemma supply_le_appendOfferRangeBatch:
  assumes "appendOfferRangeBatch E sender s i starts ends prices names = Inr (s', log)"
  shows "supply_le s s'"
proof (rule supply_le_update_offer)
  show "offerCatalog s' =
          (offerCatalog s)[i := push_ranges (offerCatalog s ! i) starts ends prices names]"
    using appendOfferRangeBatch_Inr_catalog(5) [OF assms] by simp
  show "contractAddress (push_ranges (offerCatalog s ! i) starts ends prices names)
          = contractAddress (offerCatalog s ! i) \<and>
        length (tokensAllowed (offerCatalog s ! i))
          \<le> length (tokensAllowed (push_ranges (offerCatalog s ! i) starts ends prices names)) \<and>
        (\<forall>r < length (tokensAllowed (offerCatalog s ! i)).
           tokensAllowed (push_ranges (offerCatalog s ! i) starts ends prices names) ! r
             \<le> tokensAllowed (offerCatalog s ! i) ! r)"
    by (simp add: push_ranges_def nth_append)
qed

lemma supply_le_updateOfferRange:
  assumes "updateOfferRange E sender s i r st en p n = Inr (s', log)"
  shows "supply_le s s'"
proof -
  from updateOfferRange_Inr_catalog(3) [OF assms refl] obtain allowed' where
    le: "allowed' \<le> tokensAllowed (offerCatalog s ! i) ! r" and
    s': "s' = s\<lparr>offerCatalog := (offerCatalog s)[i := (offerCatalog s ! i)
               \<lparr>tokensAllowed := (tokensAllowed (offerCatalog s ! i))[r := allowed'],
                tokenRangeStart := (tokenRangeStart (offerCatalog s ! i))[r := st],
                tokenRangeEnd := (tokenRangeEnd (offerCatalog s ! i))[r := en],
                rangePrice := (rangePrice (offerCatalog s ! i))[r := p],
                rangeName := (rangeName (offerCatalog s ! i))[r := n]\<rparr>]\<rparr>"
    by blast
  show ?thesis
  proof (rule supply_le_update_offer)
    show "offerCatalog s' = (offerCatalog s)[i := (offerCatalog s ! i)
               \<lparr>tokensAllowed := (tokensAllowed (offerCatalog s ! i))[r := allowed'],
                tokenRangeStart := (tokenRangeStart (offerCatalog s ! i))[r := st],
                tokenRangeEnd := (tokenRangeEnd (offerCatalog s ! i))[r := en],
                rangePrice := (rangePrice (offerCatalog s ! i))[r := p],
                rangeName := (rangeName (offerCatalog s ! i))[r := n]\<rparr>]"
      unfolding s' by simp
    show "contractAddress ((offerCatalog s ! i)
               \<lparr>tokensAllowed := (tokensAllowed (offerCatalog s ! i))[r := allowed'],
                tokenRangeStart := (tokenRangeStart (offerCatalog s ! i))[r := st],
                tokenRangeEnd := (tokenRangeEnd (offerCatalog s ! i))[r := en],
                rangePrice := (rangePrice (offerCatalog s ! i))[r := p],
                rangeName := (rangeName (offerCatalog s ! i))[r := n]\<rparr>)
            = contractAddress (offerCatalog s ! i) \<and>
          length (tokensAllowed (offerCatalog s ! i))
            \<le> length (tokensAllowed ((offerCatalog s ! i)
               \<lparr>tokensAllowed := (tokensAllowed (offerCatalog s ! i))[r := allowed'],
                tokenRangeStart := (tokenRangeStart (offerCatalog s ! i))[r := st],
                tokenRangeEnd := (tokenRangeEnd (offerCatalog s ! i))[r := en],
                rangePrice := (rangePrice (offerCatalog s ! i))[r := p],
                rangeName := (rangeName (offerCatalog s ! i))[r := n]\<rparr>)) \<and>
          (\<forall>k < length (tokensAllowed (offerCatalog s ! i)).
             tokensAllowed ((offerCatalog s ! i)
               \<lparr>tokensAllowed := (tokensAllowed (offerCatalog s ! i))[r := allowed'],
                tokenRangeStart := (tokenRangeStart (offerCatalog s ! i))[r := st],
                tokenRangeEnd := (tokenRangeEnd (offerCatalog s ! i))[r := en],
                rangePrice := (rangePrice (offerCatalog s ! i))[r := p],
                rangeName := (rangeName (offerCatalog s ! i))[r := n]\<rparr>) ! k
               \<le> tokensAllowed (offerCatalog s ! i) ! k)"
      using le by (simp add: nth_list_update_le)
  qed
qed

lemma buyToken_Inr_catalog:
  assumes "buyToken E sender v s i r t = Inr (s', log)" and "off = offerCatalog s ! i"
  shows "offerCatalog s' = (offerCatalog s)
           [i := off\<lparr>tokensAllowed := (tokensAllowed off)[r := tokensAllowed off ! r - 1]\<rparr>]"
    and "openSales s' = (if tokensAllowed off ! r = 1 then openSales s - 1 else openSales s)"
proof -
  from buyToken_Inr(3) [OF assms refl refl refl refl] obtain x where
    s': "s' = s\<lparr>balance := x,
               offerCatalog := (offerCatalog s)
                 [i := off\<lparr>tokensAllowed := (tokensAllowed off)[r := tokensAllowed off ! r - 1]\<rparr>],
               openSales := (if tokensAllowed off ! r = 1 then openSales s - 1 else openSales s)\<rparr>"
    by blast
  show "offerCatalog s' = (offerCatalog s)
           [i := off\<lparr>tokensAllowed := (tokensAllowed off)[r := tokensAllowed off ! r - 1]\<rparr>]"
    unfolding s' by simp
  show "openSales s' = (if tokensAllowed off ! r = 1 then openSales s - 1 else openSales s)"
    unfolding s' by simp
qed

lemma supply_le_buyToken:
  assumes "buyToken E sender v s i r t = Inr (s', log)"
  shows "supply_le s s'"
proof (rule supply_le_update_offer)
  show "offerCatalog s' = (offerCatalog s)
           [i := (offerCatalog s ! i)\<lparr>tokensAllowed := (tokensAllowed (offerCatalog s ! i))
                   [r := tokensAllowed (offerCatalog s ! i) ! r - 1]\<rparr>]"
    by (rule buyToken_Inr_catalog(1) [OF assms refl])
  show "contractAddress ((offerCatalog s ! i)\<lparr>tokensAllowed := (tokensAllowed (offerCatalog s ! i))
                   [r := tokensAllowed (offerCatalog s ! i) ! r - 1]\<rparr>)
          = contractAddress (offerCatalog s ! i) \<and>
        length (tokensAllowed (offerCatalog s ! i))
          \<le> length (tokensAllowed ((offerCatalog s ! i)\<lparr>tokensAllowed := (tokensAllowed (offerCatalog s ! i))
                   [r := tokensAllowed (offerCatalog s ! i) ! r - 1]\<rparr>)) \<and>
        (\<forall>k < length (tokensAllowed (offerCatalog s ! i)).
           tokensAllowed ((offerCatalog s ! i)\<lparr>tokensAllowed := (tokensAllowed (offerCatalog s ! i))
                   [r := tokensAllowed (offerCatalog s ! i) ! r - 1]\<rparr>) ! k
             \<le> tokensAllowed (offerCatalog s ! i) ! k)"
    by (simp add: nth_list_update_le)
qed

lemma supply_le_dispatch:
  "dispatch E sender s c = Inr (s', log) \<Longrightarrow> supply_le s s'"
proof (cases c)
  case (SetTreasuryAddress a)
  assume "dispatch E sender s c = Inr (s', log)"
  with SetTreasuryAddress show ?thesis
    by (auto simp: setTreasuryAddress_def supply_le_def split: if_splits)
next
  case (SetTreasuryFee f)
  assume "dispatch E sender s c = Inr (s', log)"
  with SetTreasuryFee show ?thesis
    by (auto simp: setTreasuryFee_def supply_le_def split: if_splits)
next
  case (SetNodeFee f)
  assume "dispatch E sender s c = Inr (s', log)"
  with SetNodeFee show ?thesis
    by (auto simp: setNodeFee_def supply_le_def split: if_splits)
qed (simp_all add: supply_le_addOffer supply_le_appendOfferRange supply_le_appendOfferRangeBatch
       supply_le_updateOfferRange supply_le_buyToken)

lemma supply_le_execute: "supply_le s (execute s tx)"
proof (cases tx)
  case (fields E sender c)
  show ?thesis
  proof (cases "dispatch E sender s c")
    case (Inl e)
    then show ?thesis by (simp add: execute_def fields supply_le_refl)
  next
    case (Inr x)
    then have "dispatch E sender s c = Inr (fst x, snd x)" by simp
    from supply_le_dispatch [OF this] Inr show ?thesis
      by (auto simp: execute_def fields split: prod.splits)
  qed
qed

lemma supply_le_run: "supply_le s (run s txs)"
proof (induction txs arbitrary: s)
  case Nil
  then show ?case by (simp add: run_def supply_le_refl)
next
  case (Cons tx txs)
  have "supply_le (execute s tx) (run (execute s tx) txs)" by (rule Cons.IH)
  then show ?case
    using supply_le_trans [OF supply_le_execute] by (simp add: run_def)
qed

subsection \<open>Supply of a range over a sequence of transactions\<close>

lemma sold_out_market_simps [simp]:
  "offerCatalog sold_out_market = [example_offer\<lparr>tokensAllowed := [0]\<rparr>]"
  "openSales sold_out_market = 0"
  by (simp_all add: sold_out_market_def)

text \<open>
  C6. \<open>tokensAllowed\<close> of a range never goes below 0: a purchase needs it positive and
  takes exactly 1 from it, and an update takes the shrink of the bounds from it or
  reverts. No sequence of transactions gives an existing range more tokens than it had;
  so once a range of a live offer is at 0 it stays there, and every later purchase on it
  fails with \<open>RangeSoldOut\<close>.
\<close>

theorem supply_decreases_to_zero_and_stays:
  "(\<forall>s' log. buyToken E sender v s i r t = Inr (s', log) \<longrightarrow>
      0 < tokensAllowed (offerCatalog s ! i) ! r \<and>
      int (tokensAllowed (offerCatalog s' ! i) ! r)
        = int (tokensAllowed (offerCatalog s ! i) ! r) - 1) \<and>
   (\<forall>s' log. updateOfferRange E sender s i r st en p n = Inr (s', log) \<longrightarrow>
      tokensAllowed (offerCatalog s' ! i) ! r \<le> tokensAllowed (offerCatalog s ! i) ! r) \<and>
   (i < length (offerCatalog s) \<and> r < length (tokensAllowed (offerCatalog s ! i)) \<longrightarrow>
      (\<forall>txs. tokensAllowed (offerCatalog (run s txs) ! i) ! r
                \<le> tokensAllowed (offerCatalog s ! i) ! r) \<and>
      (tokensAllowed (offerCatalog s ! i) ! r = 0 \<and> contractAddress (offerCatalog s ! i) \<noteq> 0 \<longrightarrow>
         (\<forall>txs E' sender' v' t'.
            buyToken E' sender' v' (run s txs) i r t' = Inl RangeSoldOut)))"
proof (intro conjI allI impI)
  fix s' log
  assume ok: "buyToken E sender v s i r t = Inr (s', log)"
  note b = buyToken_Inr(1) [OF ok refl refl refl refl refl]
  from b show pos: "0 < tokensAllowed (offerCatalog s ! i) ! r" by blast
  from b have i: "i < length (offerCatalog s)"
    and r: "r < length (tokensAllowed (offerCatalog s ! i))" by blast+
  have "tokensAllowed (offerCatalog s' ! i) ! r = tokensAllowed (offerCatalog s ! i) ! r - 1"
    unfolding buyToken_Inr_catalog(1) [OF ok refl] using i r by simp
  then show "int (tokensAllowed (offerCatalog s' ! i) ! r)
        = int (tokensAllowed (offerCatalog s ! i) ! r) - 1"
    using pos by linarith
next
  fix s' log
  assume ok: "updateOfferRange E sender s i r st en p n = Inr (s', log)"
  from supply_le_updateOfferRange [OF ok]
    updateOfferRange_Inr_catalog(1,2) [OF ok refl]
  show "tokensAllowed (offerCatalog s' ! i) ! r \<le> tokensAllowed (offerCatalog s ! i) ! r"
    unfolding supply_le_def by blast
next
  fix txs
  assume a: "i < length (offerCatalog s) \<and> r < length (tokensAllowed (offerCatalog s ! i))"
  with supply_le_run [of s txs]
  show "tokensAllowed (offerCatalog (run s txs) ! i) ! r \<le> tokensAllowed (offerCatalog s ! i) ! r"
    unfolding supply_le_def by blast
next
  fix txs E' sender' v' t'
  assume a: "i < length (offerCatalog s) \<and> r < length (tokensAllowed (offerCatalog s ! i))"
    and z: "tokensAllowed (offerCatalog s ! i) ! r = 0 \<and> contractAddress (offerCatalog s ! i) \<noteq> 0"
  note m = supply_le_run [of s txs, unfolded supply_le_def]
  from m a have i': "i < length (offerCatalog (run s txs))" by linarith
  from m a have c: "contractAddress (offerCatalog (run s txs) ! i)
                      = contractAddress (offerCatalog s ! i)" by blast
  from m a have r': "r < length (tokensAllowed (offerCatalog (run s txs) ! i))"
    by (meson less_le_trans)
  from m a have "tokensAllowed (offerCatalog (run s txs) ! i) ! r
                   \<le> tokensAllowed (offerCatalog s ! i) ! r" by blast
  with z have z': "tokensAllowed (offerCatalog (run s txs) ! i) ! r = 0" by simp
  show "buyToken E' sender' v' (run s txs) i r t' = Inl RangeSoldOut"
    using i' c r' z' z
    by (simp add: buyToken_def buyToken_checks_def at_index_def)
qed


theorem supply_decreases_to_zero_and_stays_witness:
  "tokensAllowed (offerCatalog (example_market\<lparr>balance := 90,
       offerCatalog := [example_offer\<lparr>tokensAllowed := [9]\<rparr>]\<rparr>) ! 0) ! 0 = 9 \<and>
   buyToken example_env 9 100
     (run sold_out_market
        [(example_env, 5, UpdateOfferRange 0 0 2 8 120 ''z''),
         (example_env, 5, AppendOfferRange 0 11 20 7 ''b''),
         (example_env, 9, BuyToken 100 0 0 5)]) 0 0 5 = Inl RangeSoldOut"
proof -
  note A = supply_decreases_to_zero_and_stays
             [of example_env 9 100 example_market 0 0 5 2 8 120 "''z''"]
  note B = supply_decreases_to_zero_and_stays
             [of example_env 9 100 sold_out_market 0 0 5 2 8 120 "''z''"]
  from A example_purchase
  have 1: "int (tokensAllowed (offerCatalog (example_market\<lparr>balance := 90,
              offerCatalog := [example_offer\<lparr>tokensAllowed := [9]\<rparr>]\<rparr>) ! 0) ! 0)
           = int (tokensAllowed (offerCatalog example_market ! 0) ! 0) - 1"
    by blast
  have h: "0 < length (offerCatalog sold_out_market) \<and>
           0 < length (tokensAllowed (offerCatalog sold_out_market ! 0))"
    by simp
  have z: "tokensAllowed (offerCatalog sold_out_market ! 0) ! 0 = 0 \<and>
           contractAddress (offerCatalog sold_out_market ! 0) \<noteq> 0"
    by simp
  from B h z have 2: "buyToken example_env 9 100
     (run sold_out_market
        [(example_env, 5, UpdateOfferRange 0 0 2 8 120 ''z''),
         (example_env, 5, AppendOfferRange 0 11 20 7 ''b''),
         (example_env, 9, BuyToken 100 0 0 5)]) 0 0 5 = Inl RangeSoldOut"
    by blast
  from 1 have nine: "tokensAllowed (offerCatalog (example_market\<lparr>balance := 90,
       offerCatalog := [example_offer\<lparr>tokensAllowed := [9]\<rparr>]\<rparr>) ! 0) ! 0 = 9"
    by simp
  from nine 2 show ?thesis
    by (intro conjI)
qed

subsection \<open>The count of open sales\<close>

lemma run_Nil [simp]: "run s [] = s"
  by (simp add: run_def)

lemma run_Cons [simp]: "run s (tx # txs) = run (execute s tx) txs"
  by (simp add: run_def)

lemma execute_Inr: "dispatch E sender s c = Inr (s', log) \<Longrightarrow> execute s (E, sender, c) = s'"
  by (simp add: execute_def)

lemma execute_Inl: "dispatch E sender s c = Inl e \<Longrightarrow> execute s (E, sender, c) = s"
  by (simp add: execute_def)

lemma three_tokens_listed:
  "addOffer example_env 5 (initialize 50 9000 1000) 77 0 [1] [3] [100] [''a''] 60 =
     Inr (example_market\<lparr>offerCatalog := [example_offer\<lparr>tokenRangeEnd := [3], tokensAllowed := [3]\<rparr>]\<rparr>,
          [Emit (AppendedRange 77 0 0 0 1 3 100 ''a''), Emit (AddedOffer 77 0 1 0)])"
  by (simp add: addOffer_def appendOfferRange_internal_def at_index_def
       checked_sub_def checked_add_def validateRangeInfo_def Let_def example_market_def
       example_offer_def initialize_def fun_eq_iff)

lemma three_tokens_first_sold:
  "buyToken example_env 9 100
     (example_market\<lparr>offerCatalog := [example_offer\<lparr>tokenRangeEnd := [3], tokensAllowed := [3]\<rparr>]\<rparr>)
     0 0 1 =
   Inr (example_market\<lparr>balance := 90,
          offerCatalog := [example_offer\<lparr>tokenRangeEnd := [3], tokensAllowed := [2]\<rparr>]\<rparr>,
        [Transfer 9 0, Transfer 50 9, Transfer 60 1,
         Mint_call (example_market\<lparr>balance := 90,
            offerCatalog := [example_offer\<lparr>tokenRangeEnd := [3], tokensAllowed := [2]\<rparr>]\<rparr>) 77 9 0 1,
         Emit (TokenMinted 9 77 0 0 1)])"
  by (simp add: buyToken_def buyToken_checks_def buyToken_creator_def buyToken_fees_def
        buyToken_settle_def transfer_def at_index_def checked_sub_def feeShare_eval Let_def)

lemma three_tokens_second_sold:
  "buyToken example_env 9 100
     (example_market\<lparr>balance := 90,
        offerCatalog := [example_offer\<lparr>tokenRangeEnd := [3], tokensAllowed := [2]\<rparr>]\<rparr>)
     0 0 2 =
   Inr (example_market\<lparr>balance := 180,
          offerCatalog := [example_offer\<lparr>tokenRangeEnd := [3], tokensAllowed := [1]\<rparr>]\<rparr>,
        [Transfer 9 0, Transfer 50 9, Transfer 60 1,
         Mint_call (example_market\<lparr>balance := 180,
            offerCatalog := [example_offer\<lparr>tokenRangeEnd := [3], tokensAllowed := [1]\<rparr>]\<rparr>) 77 9 0 2,
         Emit (TokenMinted 9 77 0 0 2)])"
  by (simp add: buyToken_def buyToken_checks_def buyToken_creator_def buyToken_fees_def
        buyToken_settle_def transfer_def at_index_def checked_sub_def feeShare_eval Let_def)

lemma two_sold_market_eq:
  "two_sold_market = example_market\<lparr>balance := 180,
          offerCatalog := [example_offer\<lparr>tokenRangeEnd := [3], tokensAllowed := [1]\<rparr>]\<rparr>"
proof -
  have 1: "dispatch example_env 5 (initialize 50 9000 1000)
             (AddOffer 77 0 [1] [3] [100] [''a''] 60) =
     Inr (example_market\<lparr>offerCatalog := [example_offer\<lparr>tokenRangeEnd := [3], tokensAllowed := [3]\<rparr>]\<rparr>,
          [Emit (AppendedRange 77 0 0 0 1 3 100 ''a''), Emit (AddedOffer 77 0 1 0)])"
    unfolding dispatch.simps by (rule three_tokens_listed)
  have 2: "dispatch example_env 9
     (example_market\<lparr>offerCatalog := [example_offer\<lparr>tokenRangeEnd := [3], tokensAllowed := [3]\<rparr>]\<rparr>)
     (BuyToken 100 0 0 1) =
   Inr (example_market\<lparr>balance := 90,
          offerCatalog := [example_offer\<lparr>tokenRangeEnd := [3], tokensAllowed := [2]\<rparr>]\<rparr>,
        [Transfer 9 0, Transfer 50 9, Transfer 60 1,
         Mint_call (example_market\<lparr>balance := 90,
            offerCatalog := [example_offer\<lparr>tokenRangeEnd := [3], tokensAllowed := [2]\<rparr>]\<rparr>) 77 9 0 1,
         Emit (TokenMinted 9 77 0 0 1)])"
    unfolding dispatch.simps by (rule three_tokens_first_sold)
  have 3: "dispatch example_env 9
     (example_market\<lparr>balance := 90,
        offerCatalog := [example_offer\<lparr>tokenRangeEnd := [3], tokensAllowed := [2]\<rparr>]\<rparr>)
     (BuyToken 100 0 0 2) =
   Inr (example_market\<lparr>balance := 180,
          offerCatalog := [example_offer\<lparr>tokenRangeEnd := [3], tokensAllowed := [1]\<rparr>]\<rparr>,
        [Transfer 9 0, Transfer 50 9, Transfer 60 1,
         Mint_call (example_market\<lparr>balance := 180,
            offerCatalog := [example_offer\<lparr>tokenRangeEnd := [3], tokensAllowed := [1]\<rparr>]\<rparr>) 77 9 0 2,
         Emit (TokenMinted 9 77 0 0 2)])"
    unfolding dispatch.simps by (rule three_tokens_second_sold)
  show ?thesis
    unfolding two_sold_market_def run_Cons run_Nil
      execute_Inr [OF 1] execute_Inr [OF 2] execute_Inr [OF 3]
    by (rule refl)
qed

lemma two_sold_shrunk:
  "updateOfferRange example_env 5 two_sold_market 0 0 1 2 100 ''a'' =
     Inr (two_sold_market\<lparr>offerCatalog := [example_offer\<lparr>tokenRangeEnd := [2], tokensAllowed := [0]\<rparr>]\<rparr>,
          [Emit (UpdatedOffer 77 0 0 0 100 ''a'')])"
  unfolding two_sold_market_eq
  by (simp add: updateOfferRange_def at_index_def checked_sub_def validateRangeInfo_def Let_def)

text \<open>
  C3, at the point where the code departs from it. After an offer with the range
  \<open>[1, 3]\<close> has been listed and the tokens 1 and 2 bought, \<open>openSales\<close> is 1 and one range
  has tokens left. Shrinking the range to \<open>[1, 2]\<close> with \<open>updateOfferRange\<close> succeeds and
  brings \<open>tokensAllowed\<close> to 0, but \<open>openSales\<close> is still 1 while no range has tokens
  left.
\<close>

theorem openSales_stale_after_update:
  "openSales two_sold_market = 1 \<and> open_ranges two_sold_market = 1 \<and>
   updateOfferRange example_env 5 two_sold_market 0 0 1 2 100 ''a'' =
     Inr (two_sold_market\<lparr>offerCatalog := [example_offer\<lparr>tokenRangeEnd := [2], tokensAllowed := [0]\<rparr>]\<rparr>,
          [Emit (UpdatedOffer 77 0 0 0 100 ''a'')]) \<and>
   openSales (two_sold_market\<lparr>offerCatalog :=
                [example_offer\<lparr>tokenRangeEnd := [2], tokensAllowed := [0]\<rparr>]\<rparr>) = 1 \<and>
   open_ranges (two_sold_market\<lparr>offerCatalog :=
                [example_offer\<lparr>tokenRangeEnd := [2], tokensAllowed := [0]\<rparr>]\<rparr>) = 0"
  unfolding two_sold_shrunk
  by (simp add: two_sold_market_eq open_ranges_def)

lemma sum_list_update_nat:
  fixes xs :: "nat list"
  shows "i < length xs \<Longrightarrow> sum_list (xs[i := y]) + xs ! i = sum_list xs + y"
proof (induction xs arbitrary: i)
  case Nil
  then show ?case by simp
next
  case (Cons x xs)
  then show ?case by (cases i) auto
qed

lemma filter_length_update:
  "r < length xs \<Longrightarrow>
     length (filter P (xs[r := y])) + (if P (xs ! r) then 1 else 0)
       = length (filter P xs) + (if P y then 1 else 0)"
proof (induction xs arbitrary: r)
  case Nil
  then show ?case by simp
next
  case (Cons x xs)
  then show ?case by (cases r) auto
qed

lemma open_ranges_update_offer:
  assumes "i < length (offerCatalog s)"
    and "offerCatalog s' = (offerCatalog s)[i := off']"
  shows "open_ranges s' + length (filter (\<lambda>n. 0 < n) (tokensAllowed (offerCatalog s ! i)))
           = open_ranges s + length (filter (\<lambda>n. 0 < n) (tokensAllowed off'))"
proof -
  let ?f = "\<lambda>off. length (filter (\<lambda>n. 0 < n) (tokensAllowed off))"
  have "sum_list ((map ?f (offerCatalog s))[i := ?f off']) + map ?f (offerCatalog s) ! i
          = sum_list (map ?f (offerCatalog s)) + ?f off'"
    by (rule sum_list_update_nat) (simp add: assms(1))
  then show ?thesis
    using assms(1) by (simp add: open_ranges_def assms(2) map_update)
qed

lemma open_ranges_append_offer:
  "offerCatalog s' = offerCatalog s @ [new] \<Longrightarrow>
     open_ranges s' = open_ranges s + length (filter (\<lambda>n. 0 < n) (tokensAllowed new))"
  by (simp add: open_ranges_def)

lemma filter_pos_supplies:
  fixes starts ends :: "nat list"
  shows "length starts = length ends \<Longrightarrow>
     length (filter (\<lambda>n. 0 < n) (map2 (\<lambda>st en. en - st + 1) starts ends)) = length ends"
  by (induction starts ends rule: list_induct2) simp_all

lemma openSales_addOffer:
  assumes "addOffer E sender s a pidx starts ends prices names node = Inr (s', log)"
    and "openSales s = open_ranges s"
  shows "openSales s' = open_ranges s'"
proof -
  note c = addOffer_Inr_catalog [OF assms(1)]
  have "length starts = length ends" using c(4,5) by simp
  from filter_pos_supplies [OF this] open_ranges_append_offer [OF c(2)] c(3,5) assms(2)
  show ?thesis by simp
qed

lemma openSales_appendOfferRange:
  assumes "appendOfferRange E sender s i st en p n = Inr (s', log)"
    and "openSales s = open_ranges s"
  shows "openSales s' = open_ranges s'"
proof -
  note c = appendOfferRange_Inr_catalog [OF assms(1)]
  have oc: "offerCatalog s' = (offerCatalog s)[i := push_range (offerCatalog s ! i) st en p n]"
    and os: "openSales s' = openSales s + 1"
    unfolding c(3) by simp_all
  from open_ranges_update_offer [OF c(1) oc] os assms(2)
  show ?thesis by (simp add: push_range_def)
qed

lemma openSales_appendOfferRangeBatch:
  assumes "appendOfferRangeBatch E sender s i starts ends prices names = Inr (s', log)"
    and "openSales s = open_ranges s"
  shows "openSales s' = open_ranges s'"
proof -
  note c = appendOfferRangeBatch_Inr_catalog [OF assms(1)]
  have oc: "offerCatalog s' =
              (offerCatalog s)[i := push_ranges (offerCatalog s ! i) starts ends prices names]"
    and os: "openSales s' = openSales s + length names"
    unfolding c(5) by simp_all
  have "length starts = length ends" using c(3,4) by simp
  from filter_pos_supplies [OF this] open_ranges_update_offer [OF c(1) oc] os assms(2) c(4)
  show ?thesis by (simp add: push_ranges_def)
qed

lemma openSales_buyToken:
  assumes "buyToken E sender v s i r t = Inr (s', log)"
    and "openSales s = open_ranges s"
  shows "openSales s' = open_ranges s'"
proof -
  define off where "off = offerCatalog s ! i"
  note b = buyToken_Inr(1,2) [OF assms(1) off_def refl refl refl refl]
  note c = buyToken_Inr_catalog [OF assms(1) off_def]
  from b(1) have i: "i < length (offerCatalog s)" and r: "r < length (tokensAllowed off)"
    and pos: "0 < tokensAllowed off ! r" by blast+
  from filter_length_update [OF r, of "\<lambda>n. 0 < n" "tokensAllowed off ! r - 1"] pos
  have f: "length (filter (\<lambda>n. 0 < n) ((tokensAllowed off)[r := tokensAllowed off ! r - 1])) + 1
             = length (filter (\<lambda>n. 0 < n) (tokensAllowed off))
               + (if tokensAllowed off ! r = 1 then 0 else 1)"
    by (auto split: if_splits)
  from open_ranges_update_offer [OF i c(1)]
  have o: "open_ranges s' + length (filter (\<lambda>n. 0 < n) (tokensAllowed off))
        = open_ranges s
          + length (filter (\<lambda>n. 0 < n) ((tokensAllowed off)[r := tokensAllowed off ! r - 1]))"
    by (simp add: off_def)
  show ?thesis
  proof (cases "tokensAllowed off ! r = 1")
    case True
    with b(2) have "1 \<le> openSales s" by simp
    with True f o c(2) assms(2) show ?thesis by simp
  next
    case False
    with f o c(2) assms(2) show ?thesis by simp
  qed
qed

text \<open>
  Every operation but \<open>updateOfferRange\<close> keeps \<open>openSales\<close> equal to the number of
  ranges with tokens left; the initial storage has both at 0.
\<close>

lemma openSales_initialize: "openSales (initialize a f g) = open_ranges (initialize a f g)"
  by (simp add: open_ranges_def)

lemma openSales_preserved_except_update:
  assumes "openSales s = open_ranges s"
    and "\<And>i r st en p n. c \<noteq> UpdateOfferRange i r st en p n"
  shows "openSales (execute s (E, sender, c)) = open_ranges (execute s (E, sender, c))"
proof (cases "dispatch E sender s c")
  case (Inl e)
  then show ?thesis by (simp add: execute_Inl assms(1))
next
  case (Inr x)
  then obtain s' log where d: "dispatch E sender s c = Inr (s', log)"
    by (cases x) simp
  have "openSales s' = open_ranges s'"
  proof (cases c)
    case (AddOffer a p ss es ps ns n)
    with d assms(1) show ?thesis by (simp add: openSales_addOffer)
  next
    case (UpdateOfferRange i r st en p n)
    with assms(2) [of i r st en p n] show ?thesis by simp
  next
    case (AppendOfferRange i st en p n)
    with d assms(1) show ?thesis by (simp add: openSales_appendOfferRange)
  next
    case (AppendOfferRangeBatch i ss es ps ns)
    with d assms(1) show ?thesis by (simp add: openSales_appendOfferRangeBatch)
  next
    case (BuyToken v i r t)
    with d assms(1) show ?thesis by (simp add: openSales_buyToken)
  next
    case (SetTreasuryAddress a)
    with d assms(1) show ?thesis
      by (auto simp: setTreasuryAddress_def open_ranges_def split: if_splits)
  next
    case (SetTreasuryFee f)
    with d assms(1) show ?thesis
      by (auto simp: setTreasuryFee_def open_ranges_def split: if_splits)
  next
    case (SetNodeFee f)
    with d assms(1) show ?thesis
      by (auto simp: setNodeFee_def open_ranges_def split: if_splits)
  qed
  then show ?thesis by (simp add: execute_Inr [OF d])
qed

subsection \<open>One offer per collection\<close>

lemma example_second_collection:
  "addOffer example_env 5 example_market 78 0 [1] [10] [100] [''a''] 60 = Inl OfferAlreadyExists"
  by (simp add: addOffer_def at_index_def)

lemma example_no_offer_for_78: "contractToOffer example_market 78 = Inl NoOfferForCollection"
  by (simp add: contractToOffer_def at_index_def)

text \<open>
  C1, at the point where the code departs from it. The catalog holds one offer, for the
  collection 77, created by \<open>addOffer\<close> from the initial storage. The collection 78 has
  no offer (\<open>contractToOffer\<close> fails for it), the roles are in order for it, the arrays
  have equal lengths and it has mintable tokens; yet \<open>addOffer\<close> for 78 fails with
  \<open>OfferAlreadyExists\<close>. The check of line 199 requires the offer at the position given by
  the reverse index to have the zero address, and the reverse index of a collection never
  listed is 0, the position of the offer for 77.
\<close>

theorem addOffer_rejects_unlisted_collection:
  "addOffer example_env 5 (initialize 50 9000 1000) 77 0 [1] [10] [100] [''a''] 60 =
     Inr (example_market,
          [Emit (AppendedRange 77 0 0 0 1 10 100 ''a''), Emit (AddedOffer 77 0 1 0)]) \<and>
   contractToOffer example_market 78 = Inl NoOfferForCollection \<and>
   validateRoles example_env 5 78 = Inr True \<and>
   getCollection example_env 78 0 = Some 10 \<and>
   addOffer example_env 5 example_market 78 0 [1] [10] [100] [''a''] 60 = Inl OfferAlreadyExists"
  unfolding example_addOffer example_second_collection example_no_offer_for_78
  by simp

text \<open>
  The same in general: once the offer at the position that the reverse index gives for a
  collection has a non-zero address, \<open>addOffer\<close> for that collection fails with
  \<open>OfferAlreadyExists\<close>, whether or not that offer is for the collection.
\<close>

lemma addOffer_slot_taken:
  assumes "validateRoles E sender a = Inr True"
    and "contractToOffer_map s a < length (offerCatalog s)"
    and "contractAddress (offerCatalog s ! contractToOffer_map s a) \<noteq> 0"
  shows "addOffer E sender s a pidx starts ends prices names node = Inl OfferAlreadyExists"
  using assms by (auto simp: addOffer_def at_index_def)

text \<open>What the check of line 199 does ensure: no second offer for a listed collection.\<close>

lemma addOffer_second_offer:
  assumes "contractToOffer s a = Inr k" and "a \<noteq> 0"
  shows "\<forall>x. addOffer E sender s a pidx starts ends prices names node \<noteq> Inr x"
    and "validateRoles E sender a = Inr True \<Longrightarrow>
           addOffer E sender s a pidx starts ends prices names node = Inl OfferAlreadyExists"
  using assms
  by (auto simp: addOffer_def contractToOffer_def at_index_def split: if_splits sum.splits)

subsection \<open>The arrays of an offer keep the same length\<close>

lemma wf_catalog_update_offer:
  assumes "wf_catalog s" and "offerCatalog s' = (offerCatalog s)[i := off']"
    and "i < length (offerCatalog s) \<Longrightarrow> wf_offer off'"
  shows "wf_catalog s'"
  unfolding wf_catalog_def list_all_length assms(2)
proof (intro allI impI)
  fix n assume n: "n < length ((offerCatalog s)[i := off'])"
  then have n': "n < length (offerCatalog s)" by simp
  show "wf_offer ((offerCatalog s)[i := off'] ! n)"
  proof (cases "i = n")
    case True
    with n' assms(3) show ?thesis by simp
  next
    case False
    with n' assms(1) show ?thesis
      by (simp add: wf_catalog_def list_all_length)
  qed
qed

lemma wf_catalog_initialize: "wf_catalog (initialize a f g)"
  by (simp add: wf_catalog_def)

lemma wf_catalog_dispatch:
  assumes "dispatch E sender s c = Inr (s', log)" and "wf_catalog s"
  shows "wf_catalog s'"
proof (cases c)
  case (AddOffer a p ss es ps ns n)
  with assms(1) have ok: "addOffer E sender s a p ss es ps ns n = Inr (s', log)" by simp
  then have "length ps = length ns"
    by (auto simp: addOffer_def split: if_splits sum.splits option.splits)
  with addOffer_Inr_catalog(2,4,5) [OF ok] assms(2) show ?thesis
    by (simp add: wf_catalog_def wf_offer_def)
next
  case (UpdateOfferRange i r st en p n)
  with assms(1) have ok: "updateOfferRange E sender s i r st en p n = Inr (s', log)" by simp
  from updateOfferRange_Inr_catalog(3) [OF ok refl] obtain allowed' where
    s': "s' = s\<lparr>offerCatalog := (offerCatalog s)[i := (offerCatalog s ! i)
               \<lparr>tokensAllowed := (tokensAllowed (offerCatalog s ! i))[r := allowed'],
                tokenRangeStart := (tokenRangeStart (offerCatalog s ! i))[r := st],
                tokenRangeEnd := (tokenRangeEnd (offerCatalog s ! i))[r := en],
                rangePrice := (rangePrice (offerCatalog s ! i))[r := p],
                rangeName := (rangeName (offerCatalog s ! i))[r := n]\<rparr>]\<rparr>"
    by blast
  show ?thesis
  proof (rule wf_catalog_update_offer [OF assms(2)])
    show "offerCatalog s' = (offerCatalog s)[i := (offerCatalog s ! i)
               \<lparr>tokensAllowed := (tokensAllowed (offerCatalog s ! i))[r := allowed'],
                tokenRangeStart := (tokenRangeStart (offerCatalog s ! i))[r := st],
                tokenRangeEnd := (tokenRangeEnd (offerCatalog s ! i))[r := en],
                rangePrice := (rangePrice (offerCatalog s ! i))[r := p],
                rangeName := (rangeName (offerCatalog s ! i))[r := n]\<rparr>]"
      unfolding s' by simp
    assume "i < length (offerCatalog s)"
    with assms(2) have "wf_offer (offerCatalog s ! i)"
      by (simp add: wf_catalog_def list_all_length)
    then show "wf_offer ((offerCatalog s ! i)
               \<lparr>tokensAllowed := (tokensAllowed (offerCatalog s ! i))[r := allowed'],
                tokenRangeStart := (tokenRangeStart (offerCatalog s ! i))[r := st],
                tokenRangeEnd := (tokenRangeEnd (offerCatalog s ! i))[r := en],
                rangePrice := (rangePrice (offerCatalog s ! i))[r := p],
                rangeName := (rangeName (offerCatalog s ! i))[r := n]\<rparr>)"
      by (simp add: wf_offer_def)
  qed
next
  case (AppendOfferRange i st en p n)
  with assms(1) have ok: "appendOfferRange E sender s i st en p n = Inr (s', log)" by simp
  note c = appendOfferRange_Inr_catalog [OF ok]
  show ?thesis
  proof (rule wf_catalog_update_offer [OF assms(2)])
    show "offerCatalog s' = (offerCatalog s)[i := push_range (offerCatalog s ! i) st en p n]"
      unfolding c(3) by simp
    assume "i < length (offerCatalog s)"
    with assms(2) have "wf_offer (offerCatalog s ! i)"
      by (simp add: wf_catalog_def list_all_length)
    then show "wf_offer (push_range (offerCatalog s ! i) st en p n)"
      by (simp add: wf_offer_def push_range_def)
  qed
next
  case (AppendOfferRangeBatch i ss es ps ns)
  with assms(1) have ok: "appendOfferRangeBatch E sender s i ss es ps ns = Inr (s', log)"
    by simp
  then have lp: "length ps = length ns"
    by (auto simp: appendOfferRangeBatch_def split: if_splits)
  note c = appendOfferRangeBatch_Inr_catalog [OF ok]
  show ?thesis
  proof (rule wf_catalog_update_offer [OF assms(2)])
    show "offerCatalog s' = (offerCatalog s)[i := push_ranges (offerCatalog s ! i) ss es ps ns]"
      unfolding c(5) by simp
    assume "i < length (offerCatalog s)"
    with assms(2) have "wf_offer (offerCatalog s ! i)"
      by (simp add: wf_catalog_def list_all_length)
    then show "wf_offer (push_ranges (offerCatalog s ! i) ss es ps ns)"
      using c(3,4) lp by (simp add: wf_offer_def push_ranges_def)
  qed
next
  case (BuyToken v i r t)
  with assms(1) have ok: "buyToken E sender v s i r t = Inr (s', log)" by simp
  show ?thesis
  proof (rule wf_catalog_update_offer [OF assms(2) buyToken_Inr_catalog(1) [OF ok refl]])
    assume "i < length (offerCatalog s)"
    with assms(2) have "wf_offer (offerCatalog s ! i)"
      by (simp add: wf_catalog_def list_all_length)
    then show "wf_offer ((offerCatalog s ! i)\<lparr>tokensAllowed := (tokensAllowed (offerCatalog s ! i))
                   [r := tokensAllowed (offerCatalog s ! i) ! r - 1]\<rparr>)"
      by (simp add: wf_offer_def)
  qed
next
  case (SetTreasuryAddress a)
  with assms show ?thesis
    by (auto simp: setTreasuryAddress_def wf_catalog_def split: if_splits)
next
  case (SetTreasuryFee f)
  with assms show ?thesis
    by (auto simp: setTreasuryFee_def wf_catalog_def split: if_splits)
next
  case (SetNodeFee f)
  with assms show ?thesis
    by (auto simp: setNodeFee_def wf_catalog_def split: if_splits)
qed

lemma wf_catalog_execute: "wf_catalog s \<Longrightarrow> wf_catalog (execute s tx)"
proof (cases tx)
  case (fields E sender c)
  assume wf: "wf_catalog s"
  show ?thesis
  proof (cases "dispatch E sender s c")
    case (Inl e)
    then show ?thesis by (simp add: fields execute_Inl wf)
  next
    case (Inr x)
    then obtain s' log where d: "dispatch E sender s c = Inr (s', log)"
      by (cases x) simp
    from wf_catalog_dispatch [OF d wf] show ?thesis
      by (simp add: fields execute_Inr [OF d])
  qed
qed

lemma wf_catalog_run: "wf_catalog s \<Longrightarrow> wf_catalog (run s txs)"
  by (induction txs arbitrary: s) (simp_all add: wf_catalog_execute)

end
